theory Spec2Isabelle
  imports Main "HOL-Library.Sublist"
begin

section \<open>The debug-workflow phase machine (namespace DebugPhase)\<close>

text \<open>
  \<^verbatim>\<open>PHASES\<close> is a tuple of six string literals and \<^verbatim>\<open>Phase\<close> its element type: an
  enumeration. \<^verbatim>\<open>State\<close> is an interface with six fields. \<^verbatim>\<open>currentStep\<close> is a JavaScript
  number that starts at 0 and only ever grows by 1; it is modelled as a natural number
  (the doubles below \<open>2^53\<close> count exactly).
\<close>

datatype Phase = PLANNING | CODING | BREAKPOINTING | DEBUGGING | EXPLAINING | CONFIRMING

record State =
  sessionID :: string
  currentPhase :: Phase
  currentStep :: nat
  totalSteps :: "nat option"
  stepDescriptions :: "string list"
  autoConfirm :: bool

fun VALID_TRANSITIONS :: "Phase \<Rightarrow> Phase list" where
  "VALID_TRANSITIONS PLANNING = [CODING]"
| "VALID_TRANSITIONS CODING = [BREAKPOINTING]"
| "VALID_TRANSITIONS BREAKPOINTING = [DEBUGGING]"
| "VALID_TRANSITIONS DEBUGGING = [EXPLAINING]"
| "VALID_TRANSITIONS EXPLAINING = [CONFIRMING]"
| "VALID_TRANSITIONS CONFIRMING = [PLANNING]"

fun phase_name :: "Phase \<Rightarrow> string" where
  "phase_name PLANNING = ''PLANNING''"
| "phase_name CODING = ''CODING''"
| "phase_name BREAKPOINTING = ''BREAKPOINTING''"
| "phase_name DEBUGGING = ''DEBUGGING''"
| "phase_name EXPLAINING = ''EXPLAINING''"
| "phase_name CONFIRMING = ''CONFIRMING''"

text \<open>\<^verbatim>\<open>Array.prototype.join\<close> with a separator.\<close>

fun join :: "string \<Rightarrow> string list \<Rightarrow> string" where
  "join sep [] = []"
| "join sep [x] = x"
| "join sep (x # y # ys) = x @ sep @ join sep (y # ys)"

text \<open>The in-memory store keyed by session id (a \<^verbatim>\<open>Map<string, State>\<close>).\<close>

type_synonym phase_store = "string \<rightharpoonup> State"

definition create :: "phase_store \<Rightarrow> string \<Rightarrow> State \<times> phase_store" where
  "create store sid =
     (let state = \<lparr> sessionID = sid, currentPhase = PLANNING, currentStep = 0,
                    totalSteps = None, stepDescriptions = [], autoConfirm = False \<rparr>
      in (state, store(sid \<mapsto> state)))"

definition getOrCreate :: "phase_store \<Rightarrow> string \<Rightarrow> State \<times> phase_store" where
  "getOrCreate store sid =
     (case store sid of Some state \<Rightarrow> (state, store) | None \<Rightarrow> create store sid)"

text \<open>
  \<^verbatim>\<open>transition\<close> throws when \<^verbatim>\<open>to\<close> is not among the allowed successors (the error is the
  left summand and the store is untouched); otherwise it builds the next state, writes it
  to the store under the state's session id and returns it.
\<close>

definition transition :: "phase_store \<Rightarrow> State \<Rightarrow> Phase \<Rightarrow> (string + State) \<times> phase_store" where
  "transition store state to =
     (let allowed = VALID_TRANSITIONS (currentPhase state) in
      if to \<notin> set allowed then
        (Inl (''Cannot transition from '' @ phase_name (currentPhase state) @ '' to '' @
              phase_name to @ ''. Valid transitions: '' @ join '', '' (map phase_name allowed)),
         store)
      else
        (let nextStep = (if currentPhase state = CONFIRMING \<and> to = PLANNING
                         then currentStep state + 1 else currentStep state);
             next = state\<lparr> currentPhase := to, currentStep := nextStep \<rparr>
         in (Inr next, store(sessionID state \<mapsto> next))))"

text \<open>
  A sequence of \<^verbatim>\<open>transition(to)\<close> calls threaded through one state variable, as the tests
  and the \<^verbatim>\<open>transitionPhase\<close> tool do: a call that throws leaves the state as it was and
  the next call is made on it. Besides the final state and store, the run records the
  edges that were completed, as pairs (phase before, phase after), oldest first.
\<close>

fun transitions :: "phase_store \<Rightarrow> State \<Rightarrow> Phase list \<Rightarrow> State \<times> phase_store \<times> (Phase \<times> Phase) list" where
  "transitions store state [] = (state, store, [])"
| "transitions store state (to # tos) =
     (case transition store state to of
        (Inl err, store') \<Rightarrow> transitions store' state tos
      | (Inr next, store') \<Rightarrow>
          (case transitions store' next tos of
             (final, store'', edges) \<Rightarrow> (final, store'', (currentPhase state, to) # edges)))"

text \<open>The single successor of a phase in the ring.\<close>

fun ring_successor :: "Phase \<Rightarrow> Phase" where
  "ring_successor PLANNING = CODING"
| "ring_successor CODING = BREAKPOINTING"
| "ring_successor BREAKPOINTING = DEBUGGING"
| "ring_successor DEBUGGING = EXPLAINING"
| "ring_successor EXPLAINING = CONFIRMING"
| "ring_successor CONFIRMING = PLANNING"

section \<open>Adapter auto-detection (adapter/registry)\<close>

text \<open>
  \<^verbatim>\<open>String.prototype.endsWith\<close>: the last \<open>length suffix\<close> code units of the string are
  the suffix; false when the string is shorter.
\<close>

definition endsWith :: "string \<Rightarrow> string \<Rightarrow> bool" where
  "endsWith s sfx \<longleftrightarrow> length sfx \<le> length s \<and> drop (length s - length sfx) s = sfx"

definition detectType :: "string \<Rightarrow> string + string" where
  "detectType program =
     (if endsWith program ''.py'' then Inr ''python''
      else if endsWith program ''.js'' \<or> endsWith program ''.ts'' \<or> endsWith program ''.mjs'' \<or>
              endsWith program ''.cjs'' \<or> endsWith program ''.tsx'' \<or> endsWith program ''.jsx''
      then Inr ''node''
      else Inl (''Cannot auto-detect debug type for \"'' @ program @
                ''\". Specify type explicitly (\"node\" or \"python\").''))"

section \<open>Breakpoint registry of a session (session/state)\<close>

text \<open>
  Line and column numbers are JavaScript numbers that the tool schema validates as
  numbers; they are compared with \<^verbatim>\<open>===\<close> and modelled as integers. An optional field
  is an \<open>option\<close>. \<^verbatim>\<open>BreakpointInfo\<close> has the fields of a request plus \<^verbatim>\<open>verified\<close> and
  the adapter's \<^verbatim>\<open>id\<close> (written \<open>id'\<close> here).
\<close>

record SourceBreakpoint =
  line :: int
  column :: "int option"
  condition :: "string option"
  hitCondition :: "string option"
  logMessage :: "string option"

record BreakpointInfo = SourceBreakpoint +
  verified :: bool
  id' :: "int option"

text \<open>\<^verbatim>\<open>BreakpointResult\<close> of the adapter interface; its fields carry the prefix \<open>r_\<close>.\<close>

record BreakpointResult =
  r_id :: "int option"
  r_verified :: bool
  r_line :: "int option"
  r_message :: "string option"

text \<open>
  The session state. The adapter object is the type parameter; \<^verbatim>\<open>id\<close> is written \<open>sid\<close>.
  \<^verbatim>\<open>breakpoints\<close> is a \<^verbatim>\<open>Map\<close> from file path to the file's list.
\<close>

record 'a SessionState =
  sid :: string
  adapter :: 'a
  breakpoints :: "string \<rightharpoonup> BreakpointInfo list"
  stoppedThreadId :: "int option"
  stoppedReason :: "string option"

definition createSessionState :: "string \<Rightarrow> 'a \<Rightarrow> 'a SessionState" where
  "createSessionState i a =
     \<lparr> sid = i, adapter = a, breakpoints = Map.empty,
       stoppedThreadId = None, stoppedReason = None \<rparr>"

definition getBreakpointsForFile :: "'a SessionState \<Rightarrow> string \<Rightarrow> BreakpointInfo list" where
  "getBreakpointsForFile state file =
     (case breakpoints state file of Some bps \<Rightarrow> bps | None \<Rightarrow> [])"

definition setBreakpointsForFile ::
  "'a SessionState \<Rightarrow> string \<Rightarrow> BreakpointInfo list \<Rightarrow> 'a SessionState" where
  "setBreakpointsForFile state file bps =
     (if length bps = 0 then state\<lparr> breakpoints := (breakpoints state)(file := None) \<rparr>
      else state\<lparr> breakpoints := (breakpoints state)(file \<mapsto> bps) \<rparr>)"

text \<open>
  \<^verbatim>\<open>getAllBreakpoints\<close> copies the \<^verbatim>\<open>Map\<close> into a plain object, \<^verbatim>\<open>result[file] = bps\<close>
  for every entry. On an object created by \<^verbatim>\<open>{}\<close> that assignment creates an own property
  for every key but \<^verbatim>\<open>__proto__\<close>, where it calls the prototype setter and no property
  appears; \<^verbatim>\<open>JSON.stringify\<close> then shows the own properties. The result is the map from
  the keys shown to their lists.
\<close>

definition getAllBreakpoints :: "'a SessionState \<Rightarrow> (string \<rightharpoonup> BreakpointInfo list)" where
  "getAllBreakpoints state =
     (\<lambda>file. if file = ''__proto__'' then None else breakpoints state file)"

definition toSourceBreakpoint :: "BreakpointInfo \<Rightarrow> SourceBreakpoint" where
  "toSourceBreakpoint bp =
     \<lparr> line = line bp, column = column bp, condition = condition bp,
       hitCondition = hitCondition bp, logMessage = logMessage bp \<rparr>"

definition toSourceBreakpoints :: "BreakpointInfo list \<Rightarrow> SourceBreakpoint list" where
  "toSourceBreakpoints infos = map toSourceBreakpoint infos"

section \<open>The session manager's active slot (session/manager)\<close>

definition requireActive :: "'a SessionState option \<Rightarrow> string + 'a SessionState" where
  "requireActive activeSession =
     (case activeSession of
        None \<Rightarrow> Inl ''No active debug session. Use start_debug_session first.''
      | Some s \<Rightarrow> Inr s)"

section \<open>The breakpoint tools (tools/breakpoints)\<close>

text \<open>
  \<^verbatim>\<open>Array.prototype.findIndex\<close>: the index of the first element that satisfies the
  predicate; JavaScript's \<open>-1\<close> is \<open>None\<close>.
\<close>

fun findIndex :: "('a \<Rightarrow> bool) \<Rightarrow> 'a list \<Rightarrow> nat option" where
  "findIndex P [] = None"
| "findIndex P (x # xs) =
     (if P x then Some 0 else (case findIndex P xs of None \<Rightarrow> None | Some i \<Rightarrow> Some (Suc i)))"

text \<open>The object \<^verbatim>\<open>{ ...bp, verified: false }\<close> built from a request.\<close>

definition unverified :: "SourceBreakpoint \<Rightarrow> BreakpointInfo" where
  "unverified bp =
     \<lparr> line = line bp, column = column bp, condition = condition bp,
       hitCondition = hitCondition bp, logMessage = logMessage bp,
       verified = False, id' = None \<rparr>"

text \<open>One round of the merge loop of \<^verbatim>\<open>set_breakpoints\<close>.\<close>

definition merge_step :: "BreakpointInfo list \<Rightarrow> SourceBreakpoint \<Rightarrow> BreakpointInfo list" where
  "merge_step merged bp =
     (case findIndex (\<lambda>e. line e = line bp) merged of
        Some idx \<Rightarrow> merged[idx := unverified bp]
      | None \<Rightarrow> merged @ [unverified bp])"

text \<open>\<^verbatim>\<open>xs[i]\<close> on an array: \<^verbatim>\<open>undefined\<close> beyond the end.\<close>

definition at_index :: "'a list \<Rightarrow> nat \<Rightarrow> 'a option" where
  "at_index xs i = (if i < length xs then Some (xs ! i) else None)"

text \<open>\<^verbatim>\<open>xs.map((x, i) => f(x, i))\<close>.\<close>

definition map_indexed :: "('a \<Rightarrow> nat \<Rightarrow> 'b) \<Rightarrow> 'a list \<Rightarrow> 'b list" where
  "map_indexed f xs = map (\<lambda>i. f (xs ! i) i) [0..<length xs]"

text \<open>
  The entry stored by \<^verbatim>\<open>set_breakpoints\<close> for a merged entry and the adapter's result at
  the same index: \<^verbatim>\<open>verified: r?.verified ?? false, id: r?.id, line: r?.line ?? bp.line\<close>.
  \<^verbatim>\<open>remove_breakpoints\<close> stores the same without the line.
\<close>

definition with_result :: "BreakpointInfo \<Rightarrow> BreakpointResult option \<Rightarrow> BreakpointInfo" where
  "with_result bp r =
     bp\<lparr> verified := (case r of Some x \<Rightarrow> r_verified x | None \<Rightarrow> False),
         id' := (case r of Some x \<Rightarrow> r_id x | None \<Rightarrow> None),
         line := (case r of Some x \<Rightarrow> (case r_line x of Some l \<Rightarrow> l | None \<Rightarrow> line bp)
                  | None \<Rightarrow> line bp) \<rparr>"

definition with_result_keep_line ::
  "BreakpointInfo \<Rightarrow> BreakpointResult option \<Rightarrow> BreakpointInfo" where
  "with_result_keep_line bp r =
     bp\<lparr> verified := (case r of Some x \<Rightarrow> r_verified x | None \<Rightarrow> False),
         id' := (case r of Some x \<Rightarrow> r_id x | None \<Rightarrow> None) \<rparr>"

text \<open>
  The adapter's \<^verbatim>\<open>setBreakpoints(file, list)\<close> is a parameter of the tools: it takes the
  adapter object and returns the results, or the error it throws, with the adapter object
  after the call. The tools return their JSON output as a value: file and the
  \<^verbatim>\<open>{line, verified, condition}\<close> triples for \<^verbatim>\<open>set_breakpoints\<close>; file, \<^verbatim>\<open>removed\<close>
  (\<open>None\<close> for "all") and the number remaining for \<^verbatim>\<open>remove_breakpoints\<close>. An error
  thrown by the handler is the left summand; the second component is the active slot
  after the call.
\<close>

type_synonym 'a adapter_setBreakpoints =
  "'a \<Rightarrow> string \<Rightarrow> SourceBreakpoint list \<Rightarrow> (string + BreakpointResult list) \<times> 'a"

definition set_breakpoints ::
  "'a adapter_setBreakpoints \<Rightarrow> 'a SessionState option \<Rightarrow> string \<Rightarrow> SourceBreakpoint list \<Rightarrow>
   (string + string \<times> (int \<times> bool \<times> string option) list) \<times> 'a SessionState option" where
  "set_breakpoints adapter_set activeSession file bps =
     (case requireActive activeSession of
        Inl err \<Rightarrow> (Inl err, activeSession)
      | Inr session \<Rightarrow>
          (let existing = getBreakpointsForFile session file;
               merged = foldl merge_step existing bps
           in case adapter_set (adapter session) file (toSourceBreakpoints merged) of
                (Inl err, a) \<Rightarrow> (Inl err, Some (session\<lparr> adapter := a \<rparr>))
              | (Inr results, a) \<Rightarrow>
                  (let updated = map_indexed (\<lambda>bp i. with_result bp (at_index results i)) merged
                   in (Inr (file, map (\<lambda>bp. (line bp, verified bp, condition bp)) updated),
                       Some (setBreakpointsForFile (session\<lparr> adapter := a \<rparr>) file updated)))))"

definition remove_breakpoints ::
  "'a adapter_setBreakpoints \<Rightarrow> 'a SessionState option \<Rightarrow> string \<Rightarrow> int list option \<Rightarrow>
   (string + string \<times> int list option \<times> nat) \<times> 'a SessionState option" where
  "remove_breakpoints adapter_set activeSession file lines =
     (case requireActive activeSession of
        Inl err \<Rightarrow> (Inl err, activeSession)
      | Inr session \<Rightarrow>
          (let existing = getBreakpointsForFile session file;
               remaining = (case lines of
                              Some ls \<Rightarrow> filter (\<lambda>bp. line bp \<notin> set ls) existing
                            | None \<Rightarrow> [])
           in if length remaining > 0 then
                (case adapter_set (adapter session) file (toSourceBreakpoints remaining) of
                   (Inl err, a) \<Rightarrow> (Inl err, Some (session\<lparr> adapter := a \<rparr>))
                 | (Inr results, a) \<Rightarrow>
                     (let updated = map_indexed
                            (\<lambda>bp i. with_result_keep_line bp (at_index results i)) remaining
                      in (Inr (file, lines, length remaining),
                          Some (setBreakpointsForFile (session\<lparr> adapter := a \<rparr>) file updated))))
              else
                (case adapter_set (adapter session) file [] of
                   (Inl err, a) \<Rightarrow> (Inl err, Some (session\<lparr> adapter := a \<rparr>))
                 | (Inr results, a) \<Rightarrow>
                     (Inr (file, lines, length remaining),
                      Some (setBreakpointsForFile (session\<lparr> adapter := a \<rparr>) file [])))))"

definition list_breakpoints ::
  "'a SessionState option \<Rightarrow> string + (string \<rightharpoonup> BreakpointInfo list)" where
  "list_breakpoints activeSession =
     (case requireActive activeSession of
        Inl err \<Rightarrow> Inl err
      | Inr session \<Rightarrow> Inr (getAllBreakpoints session))"

text \<open>What \<^verbatim>\<open>list_breakpoints\<close> shows for one file: its list, or nothing.\<close>

definition listed :: "'a SessionState option \<Rightarrow> string \<Rightarrow> BreakpointInfo list" where
  "listed activeSession file =
     (case list_breakpoints activeSession of
        Inl err \<Rightarrow> []
      | Inr all \<Rightarrow> (case all file of None \<Rightarrow> [] | Some bps \<Rightarrow> bps))"

subsection \<open>Notions used to state the properties of the merge\<close>

text \<open>
  Insert-or-replace by key: \<open>merge_step\<close> is \<open>upsert line\<close> applied to the unverified
  entry of the request.
\<close>

definition upsert :: "('a \<Rightarrow> 'k) \<Rightarrow> 'a list \<Rightarrow> 'a \<Rightarrow> 'a list" where
  "upsert k xs x =
     (case findIndex (\<lambda>e. k e = k x) xs of Some idx \<Rightarrow> xs[idx := x] | None \<Rightarrow> xs @ [x])"

text \<open>
  The adapter's results report no corrected line: every result present either has no
  \<^verbatim>\<open>line\<close> or has the line of the request at the same index.
\<close>

definition reports_requested_lines :: "SourceBreakpoint list \<Rightarrow> BreakpointResult list \<Rightarrow> bool" where
  "reports_requested_lines req results \<longleftrightarrow>
     list_all (\<lambda>i. case at_index results i of
                     None \<Rightarrow> True
                   | Some r \<Rightarrow> (case r_line r of None \<Rightarrow> True | Some l \<Rightarrow> l = line (req ! i)))
       [0..<length req]"

section \<open>The node adapter's breakpoints over CDP (adapter/node)\<close>

text \<open>
  A listener in an adapter's \<^verbatim>\<open>stoppedCallbacks\<close> array is a closure: either the one the
  session manager installs in \<^verbatim>\<open>create\<close>, or the one a pending \<^verbatim>\<open>waitForPause\<close> /
  \<^verbatim>\<open>waitForStop\<close> promise installs, told apart by a number.
\<close>

datatype callback = SessionTracker | PauseListener nat

text \<open>The CDP methods the adapter sends, with the parameters it passes.\<close>

datatype cdp_call =
    Debugger_enable
  | Runtime_enable
  | Debugger_removeBreakpoint string
  | Debugger_setBreakpointByUrl int string "int option" "string option"
  | Debugger_resume
  | Debugger_stepOver
  | Debugger_stepInto
  | Debugger_stepOut

text \<open>
  What an observer of an adapter sees, in order: a listener entering
  \<^verbatim>\<open>stoppedCallbacks\<close>, and a message written to the transport, with its id or seq
  and what it asks for (the CDP call, or the DAP command).
\<close>

datatype 'm observed = Registered callback | Sent nat 'm

text \<open>
  The event a listener in \<^verbatim>\<open>stoppedCallbacks\<close> is called with (\<^verbatim>\<open>StoppedInfo\<close>; its
  \<^verbatim>\<open>threadId\<close> is written \<open>info_threadId\<close>).
\<close>

record StoppedInfo =
  reason :: string
  info_threadId :: "int option"
  description :: "string option"

text \<open>
  The fields of \<^verbatim>\<open>NodeAdapter\<close> that breakpoints, resuming and pausing use: \<^verbatim>\<open>ws\<close> (true
  when the socket is non-null), \<^verbatim>\<open>seq\<close> (here \<open>cdp_seq\<close>), \<^verbatim>\<open>stoppedCallbacks\<close>,
  \<^verbatim>\<open>breakpointIds\<close>, \<^verbatim>\<open>process\<close> (true when the child process handle is non-null) and
  \<^verbatim>\<open>pausedReason\<close>; \<^verbatim>\<open>pausedThreadId\<close> is never assigned and stays 1. \<open>node_exitListeners\<close>
  are the pending promises of \<^verbatim>\<open>waitForPause\<close> whose handler listens for the process's
  \<^verbatim>\<open>exit\<close>. \<open>node_fresh\<close> numbers the promises and their listener closures;
  \<open>node_observed\<close> is the observer's log; \<open>node_fired\<close> records which promise's listener
  was called with which event (it resolves the promise with that stop), \<open>node_ended\<close> which
  promises were resolved with the terminated result, and \<open>node_expired\<close> which were rejected
  by their timer.
\<close>

record NodeAdapter =
  ws :: bool
  cdp_seq :: nat
  node_stoppedCallbacks :: "callback list"
  breakpointIds :: "string \<rightharpoonup> string list"
  node_process :: bool
  node_exitListeners :: "nat list"
  pausedReason :: string
  node_fresh :: nat
  node_observed :: "cdp_call observed list"
  node_fired :: "(nat \<times> StoppedInfo) list"
  node_ended :: "nat list"
  node_expired :: "nat list"

text \<open>
  The inspector at the other end of the socket: its answer to \<^verbatim>\<open>Debugger.removeBreakpoint\<close>
  (an error message, or nothing) and to \<^verbatim>\<open>Debugger.setBreakpointByUrl\<close> (an error
  message, or the breakpoint id and the \<^verbatim>\<open>lineNumber\<close> of each resolved location).
\<close>

record inspector =
  on_removeBreakpoint :: "string \<Rightarrow> string option"
  on_setBreakpointByUrl ::
    "int \<Rightarrow> string \<Rightarrow> int option \<Rightarrow> string option \<Rightarrow> string + string \<times> int list"

text \<open>
  \<^verbatim>\<open>cdpSend\<close> up to the write: rejected with "Not connected" when the socket is null,
  otherwise the next id is taken and the message is written.
\<close>

definition cdpSend :: "NodeAdapter \<Rightarrow> cdp_call \<Rightarrow> (string + unit) \<times> NodeAdapter" where
  "cdpSend a call =
     (if \<not> ws a then (Inl ''Not connected'', a)
      else (Inr (), a\<lparr> cdp_seq := cdp_seq a + 1,
                        node_observed := node_observed a @ [Sent (cdp_seq a) call] \<rparr>))"

definition pathToFileUrl :: "string \<Rightarrow> string" where
  "pathToFileUrl filePath = (if prefix ''file://'' filePath then filePath else ''file://'' @ filePath)"

text \<open>The first loop of \<^verbatim>\<open>setBreakpoints\<close>: an awaited removal that is rejected throws.\<close>

fun remove_existing :: "inspector \<Rightarrow> NodeAdapter \<Rightarrow> string list \<Rightarrow> (string + unit) \<times> NodeAdapter" where
  "remove_existing insp a [] = (Inr (), a)"
| "remove_existing insp a (bpId # rest) =
     (case cdpSend a (Debugger_removeBreakpoint bpId) of
        (Inl err, a') \<Rightarrow> (Inl err, a')
      | (Inr u, a') \<Rightarrow>
          (case on_removeBreakpoint insp bpId of
             Some err \<Rightarrow> (Inl err, a')
           | None \<Rightarrow> remove_existing insp a' rest))"

text \<open>
  The second loop, with its accumulators \<^verbatim>\<open>results\<close> and \<^verbatim>\<open>newIds\<close>: a rejected
  request is caught and becomes an unverified result at the requested line.
\<close>

fun set_each ::
  "inspector \<Rightarrow> string \<Rightarrow> NodeAdapter \<Rightarrow> BreakpointResult list \<Rightarrow> string list \<Rightarrow>
   SourceBreakpoint list \<Rightarrow> BreakpointResult list \<times> string list \<times> NodeAdapter" where
  "set_each insp file a results newIds [] = (results, newIds, a)"
| "set_each insp file a results newIds (bp # rest) =
     (let lineNumber = line bp - 1;
          url = pathToFileUrl file;
          columnNumber = (case column bp of
                            Some c \<Rightarrow> if c \<noteq> 0 then Some (c - 1) else None
                          | None \<Rightarrow> None);
          call = Debugger_setBreakpointByUrl lineNumber url columnNumber (condition bp)
      in case cdpSend a call of
           (Inl err, a') \<Rightarrow>
             set_each insp file a'
               (results @ [\<lparr> r_id = None, r_verified = False, r_line = Some (line bp),
                             r_message = Some err \<rparr>]) newIds rest
         | (Inr u, a') \<Rightarrow>
             (case on_setBreakpointByUrl insp lineNumber url columnNumber (condition bp) of
                Inl err \<Rightarrow>
                  set_each insp file a'
                    (results @ [\<lparr> r_id = None, r_verified = False, r_line = Some (line bp),
                                  r_message = Some err \<rparr>]) newIds rest
              | Inr (breakpointId, locations) \<Rightarrow>
                  set_each insp file a'
                    (results @ [\<lparr> r_id = Some (int (length results)),
                                  r_verified = (length locations > 0),
                                  r_line = Some (if length locations > 0 then hd locations + 1
                                                 else line bp),
                                  r_message = None \<rparr>])
                    (newIds @ [breakpointId]) rest))"

definition node_setBreakpoints :: "inspector \<Rightarrow> NodeAdapter adapter_setBreakpoints" where
  "node_setBreakpoints insp a file bps =
     (let existingIds = (case breakpointIds a file of Some ids \<Rightarrow> ids | None \<Rightarrow> [])
      in case remove_existing insp a existingIds of
           (Inl err, a') \<Rightarrow> (Inl err, a')
         | (Inr u, a') \<Rightarrow>
             (case set_each insp file a' [] [] bps of
                (results, newIds, a'') \<Rightarrow>
                  (Inr results, a''\<lparr> breakpointIds := (breakpointIds a'')(file \<mapsto> newIds) \<rparr>)))"

subsection \<open>Example scenarios\<close>

text \<open>
  The requests \<^verbatim>\<open>{line: n}\<close> and \<^verbatim>\<open>{line: n, condition: c}\<close>; a connected adapter on which the session manager has
  installed its listener; an inspector that resolves every breakpoint at the requested
  line; an inspector for a file whose lines 1 to 11 hold no statement, so that a breakpoint
  requested there resolves at line 12 (\<^verbatim>\<open>lineNumber\<close> 11); and a session that has one
  verified breakpoint at line 2 of \<^verbatim>\<open>/tmp/a.js\<close>.
\<close>

definition line_request :: "int \<Rightarrow> SourceBreakpoint" where
  "line_request n =
     \<lparr> line = n, column = None, condition = None, hitCondition = None, logMessage = None \<rparr>"

definition conditional_request :: "int \<Rightarrow> string \<Rightarrow> SourceBreakpoint" where
  "conditional_request n c =
     \<lparr> line = n, column = None, condition = Some c, hitCondition = None, logMessage = None \<rparr>"

definition connected_node :: NodeAdapter where
  "connected_node =
     \<lparr> ws = True, cdp_seq = 1, node_stoppedCallbacks = [SessionTracker],
       breakpointIds = Map.empty, node_process = True, node_exitListeners = [],
       pausedReason = [], node_fresh = 0, node_observed = [], node_fired = [],
       node_ended = [], node_expired = [] \<rparr>"

definition exact_inspector :: inspector where
  "exact_inspector =
     \<lparr> on_removeBreakpoint = (\<lambda>bpId. None),
       on_setBreakpointByUrl = (\<lambda>lineNumber url columnNumber cond. Inr (''bp'', [lineNumber])) \<rparr>"

definition sliding_inspector :: inspector where
  "sliding_inspector =
     \<lparr> on_removeBreakpoint = (\<lambda>bpId. None),
       on_setBreakpointByUrl = (\<lambda>lineNumber url columnNumber cond.
          Inr (''bp'', [if lineNumber < 11 then 11 else lineNumber])) \<rparr>"

definition example_session :: "NodeAdapter SessionState" where
  "example_session =
     \<lparr> sid = ''session-1'',
       adapter = connected_node\<lparr> breakpointIds := [''/tmp/a.js'' \<mapsto> [''bp'']] \<rparr>,
       breakpoints = [''/tmp/a.js'' \<mapsto> [(unverified (line_request 2))\<lparr> verified := True \<rparr>]],
       stoppedThreadId = None, stoppedReason = None \<rparr>"

text \<open>The same session after the inspector's socket has closed (\<^verbatim>\<open>ws.onclose\<close>).\<close>

definition closed_session :: "NodeAdapter SessionState" where
  "closed_session = example_session\<lparr> adapter := (adapter example_session)\<lparr> ws := False \<rparr> \<rparr>"

text \<open>The entry stored for a request at line 10 that the inspector resolved at line 12.\<close>

definition slid_entry :: BreakpointInfo where
  "slid_entry = \<lparr> line = 12, column = None, condition = None, hitCondition = None,
       logMessage = None, verified = True, id' = Some 0 \<rparr>"

section \<open>The DAP client: framing and correlation (dap/client)\<close>

text \<open>
  A JSON value that the client only passes on (a request's arguments, a body) is kept as
  its text. A decoded message is a response, an event, or anything else (a request, or
  JSON of another shape), which \<^verbatim>\<open>handleMessage\<close> ignores. \<^verbatim>\<open>request_seq\<close> is a key of
  the pending table, a natural number.
\<close>

type_synonym json = string

record Response =
  request_seq :: nat
  success :: bool
  command :: string
  message :: "string option"
  body :: "json option"

datatype DapMessage = IsResponse Response | IsEvent string "json option" | IsOther

text \<open>
  How the promise returned by \<^verbatim>\<open>sendRequest\<close> was settled: \<^verbatim>\<open>resolve(response)\<close>, whose
  value carries the body, or \<^verbatim>\<open>reject(new Error(text))\<close>.
\<close>

datatype settlement = Fulfilled Response | Failed string

text \<open>
  The client object. \<^verbatim>\<open>pending\<close> is a \<^verbatim>\<open>Map\<close> from seq to the resolve/reject pair of
  that request's promise: its keys in insertion order. \<^verbatim>\<open>eventHandlers\<close> maps an event
  name to a \<^verbatim>\<open>Set\<close> of handlers (numbered closures, in insertion order). \<^verbatim>\<open>buffer\<close> is
  the byte buffer. Three logs record what leaves the client: the bytes written to the
  socket, the settlements of promises by seq, and the handler calls with their argument.
\<close>

record DapClient =
  seq :: nat
  pending :: "nat list"
  eventHandlers :: "string \<rightharpoonup> nat list"
  buffer :: string
  connected :: bool
  written :: "string list"
  settled :: "(nat \<times> settlement) list"
  delivered :: "(nat \<times> json) list"

definition new_DapClient :: DapClient where
  "new_DapClient =
     \<lparr> seq = 1, pending = [], eventHandlers = Map.empty, buffer = [], connected = False,
       written = [], settled = [], delivered = [] \<rparr>"

text \<open>A non-negative integer in a template literal: its decimal digits.\<close>

definition digit_char :: "nat \<Rightarrow> char" where
  "digit_char d = ''0123456789'' ! d"

fun decimal :: "nat \<Rightarrow> string" where
  "decimal n = (if n < 10 then [digit_char n] else decimal (n div 10) @ [digit_char (n mod 10)])"

declare decimal.simps [simp del]

definition CRLFCRLF :: string where
  "CRLFCRLF = [CHR 0x0D, CHR 0x0A, CHR 0x0D, CHR 0x0A]"

text \<open>\<^verbatim>\<open>Map.prototype.set\<close> and \<^verbatim>\<open>delete\<close> on the keys.\<close>

definition map_set :: "nat list \<Rightarrow> nat \<Rightarrow> nat list" where
  "map_set keys k = (if k \<in> set keys then keys else keys @ [k])"

definition map_delete :: "nat list \<Rightarrow> nat \<Rightarrow> nat list" where
  "map_delete keys k = filter (\<lambda>x. x \<noteq> k) keys"

text \<open>
  \<^verbatim>\<open>sendRequest\<close>: takes the next seq, registers the pending entry and writes header and
  JSON to the socket. \<^verbatim>\<open>JSON.stringify\<close> of the request is a parameter.
\<close>

definition sendRequest ::
  "(nat \<Rightarrow> string \<Rightarrow> json option \<Rightarrow> string) \<Rightarrow> DapClient \<Rightarrow> string \<Rightarrow> json option \<Rightarrow>
   nat \<times> DapClient" where
  "sendRequest stringify c cmd args =
     (let s = seq c;
          jsn = stringify s cmd args;
          header = ''Content-Length: '' @ decimal (length jsn) @ CRLFCRLF
      in (s, c\<lparr> seq := seq c + 1, pending := map_set (pending c) s,
                 written := written c @ [header @ jsn] \<rparr>))"

definition handleMessage :: "DapClient \<Rightarrow> DapMessage \<Rightarrow> DapClient" where
  "handleMessage c msg =
     (case msg of
        IsResponse response \<Rightarrow>
          (if request_seq response \<in> set (pending c) then
             c\<lparr> pending := map_delete (pending c) (request_seq response),
                settled := settled c @
                  [(request_seq response,
                    if success response then Fulfilled response
                    else Failed (case message response of
                                   Some m \<Rightarrow> m
                                 | None \<Rightarrow> ''Request failed: '' @ command response))] \<rparr>
           else c)
      | IsEvent ev b \<Rightarrow>
          (case eventHandlers c ev of
             Some handlers \<Rightarrow>
               c\<lparr> delivered := delivered c @
                     map (\<lambda>h. (h, case b of Some x \<Rightarrow> x | None \<Rightarrow> ''{}'')) handlers \<rparr>
           | None \<Rightarrow> c)
      | IsOther \<Rightarrow> c)"

text \<open>The socket's \<^verbatim>\<open>close\<close> listener installed by \<^verbatim>\<open>connect\<close>.\<close>

definition on_close :: "DapClient \<Rightarrow> DapClient" where
  "on_close c =
     c\<lparr> connected := False,
        settled := settled c @ map (\<lambda>k. (k, Failed ''Connection closed'')) (pending c),
        pending := [] \<rparr>"

subsection \<open>The decoder\<close>

text \<open>\<^verbatim>\<open>Buffer.prototype.indexOf\<close>: where the pattern first occurs.\<close>

fun indexOf :: "'a list \<Rightarrow> 'a list \<Rightarrow> nat option" where
  "indexOf [] pat = (if pat = [] then Some 0 else None)"
| "indexOf (x # xs) pat =
     (if prefix pat (x # xs) then Some 0
      else (case indexOf xs pat of None \<Rightarrow> None | Some i \<Rightarrow> Some (Suc i)))"

text \<open>
  The regular expression \<^verbatim>\<open>/Content-Length:\s*(\d+)/i\<close> on the header text. The header
  is taken to be ASCII, as the protocol's headers are: letters are compared without case,
  \<^verbatim>\<open>\s\<close> is tab, line feed, vertical tab, form feed, carriage return or space, \<^verbatim>\<open>\d\<close> is a
  digit. \<open>match_here\<close> matches at the start of the text: the literal, all white space that
  follows, then all digits that follow, at least one (the two classes are disjoint, so
  backtracking finds nothing else). The match is the leftmost one, and the result is the
  captured group.
\<close>

definition lower :: "char \<Rightarrow> char" where
  "lower ch =
     (case map_of (zip ''ABCDEFGHIJKLMNOPQRSTUVWXYZ'' ''abcdefghijklmnopqrstuvwxyz'') ch of
        Some l \<Rightarrow> l
      | None \<Rightarrow> ch)"

definition is_space :: "char \<Rightarrow> bool" where
  "is_space ch \<longleftrightarrow> ch \<in> set [CHR 0x09, CHR 0x0A, CHR 0x0B, CHR 0x0C, CHR 0x0D, CHR 0x20]"

definition is_digit :: "char \<Rightarrow> bool" where
  "is_digit ch \<longleftrightarrow> ch \<in> set ''0123456789''"

definition digit_value :: "char \<Rightarrow> nat" where
  "digit_value ch = (of_char ch :: nat) - 48"

fun strip_literal :: "string \<Rightarrow> string \<Rightarrow> string option" where
  "strip_literal [] s = Some s"
| "strip_literal (p # ps) [] = None"
| "strip_literal (p # ps) (ch # s) = (if lower p = lower ch then strip_literal ps s else None)"

definition match_here :: "string \<Rightarrow> string option" where
  "match_here s =
     (case strip_literal ''Content-Length:'' s of
        None \<Rightarrow> None
      | Some rest \<Rightarrow>
          (let digits = takeWhile is_digit (dropWhile is_space rest)
           in if digits = [] then None else Some digits))"

fun content_length_match :: "string \<Rightarrow> string option" where
  "content_length_match [] = None"
| "content_length_match (ch # s) =
     (case match_here (ch # s) of
        Some digits \<Rightarrow> Some digits
      | None \<Rightarrow> content_length_match s)"

text \<open>\<^verbatim>\<open>parseInt(digits, 10)\<close> on a string of digits.\<close>

definition parseInt :: "string \<Rightarrow> nat" where
  "parseInt digits = foldl (\<lambda>n ch. 10 * n + digit_value ch) 0 digits"

text \<open>
  The loop of \<^verbatim>\<open>onData\<close>. \<^verbatim>\<open>JSON.parse\<close> followed by the cast to a message is the
  parameter \<open>parse\<close>; \<open>None\<close> is the exception, which the loop swallows. It stops when no
  header end is in the buffer or the body is not complete yet, and otherwise goes on with
  a shorter buffer.
\<close>

function decode :: "(string \<Rightarrow> DapMessage option) \<Rightarrow> DapClient \<Rightarrow> DapClient" where
  "decode parse c =
     (case indexOf (buffer c) CRLFCRLF of
        None \<Rightarrow> c
      | Some headerEnd \<Rightarrow>
          (case content_length_match (take headerEnd (buffer c)) of
             None \<Rightarrow> decode parse (c\<lparr> buffer := drop (headerEnd + 4) (buffer c) \<rparr>)
           | Some digits \<Rightarrow>
               (if length (buffer c) < headerEnd + 4 + parseInt digits then c
                else
                  (case parse (take (parseInt digits) (drop (headerEnd + 4) (buffer c))) of
                     None \<Rightarrow>
                       decode parse
                         (c\<lparr> buffer := drop (headerEnd + 4 + parseInt digits) (buffer c) \<rparr>)
                   | Some msg \<Rightarrow>
                       decode parse
                         (handleMessage
                            (c\<lparr> buffer := drop (headerEnd + 4 + parseInt digits) (buffer c) \<rparr>)
                            msg)))))"
  by pat_completeness auto

lemma indexOf_bound: "indexOf xs pat = Some i \<Longrightarrow> i + length pat \<le> length xs"
proof (induction xs arbitrary: i)
  case Nil
  then show ?case by (simp split: if_splits)
next
  case (Cons x xs)
  show ?case
  proof (cases "prefix pat (x # xs)")
    case True
    with Cons.prems prefix_length_le [of pat "x # xs"] show ?thesis by simp
  next
    case False
    with Cons.prems obtain j where "indexOf xs pat = Some j" "i = Suc j"
      by (auto split: option.splits)
    with Cons.IH [of j] show ?thesis by simp
  qed
qed

lemma buffer_handleMessage [simp]: "buffer (handleMessage c msg) = buffer c"
  by (simp add: handleMessage_def split: DapMessage.splits option.splits)

termination decode
proof (relation "measure (\<lambda>(parse, c). length (buffer c))")
  show "wf (measure (\<lambda>(parse, c). length (buffer c)))" by simp
next
  fix parse :: "string \<Rightarrow> DapMessage option" and c :: DapClient and headerEnd
  assume "indexOf (buffer c) CRLFCRLF = Some headerEnd"
  from indexOf_bound [OF this] have "headerEnd + 4 \<le> length (buffer c)"
    by (simp add: CRLFCRLF_def)
  then show "((parse, c\<lparr> buffer := drop (headerEnd + 4) (buffer c) \<rparr>), (parse, c)) \<in>
      measure (\<lambda>(parse, c). length (buffer c))"
    by simp
next
  fix parse :: "string \<Rightarrow> DapMessage option" and c :: DapClient and headerEnd digits
  assume "indexOf (buffer c) CRLFCRLF = Some headerEnd"
  from indexOf_bound [OF this] have "headerEnd + 4 \<le> length (buffer c)"
    by (simp add: CRLFCRLF_def)
  then show "((parse, c\<lparr> buffer := drop (headerEnd + 4 + parseInt digits) (buffer c) \<rparr>),
       (parse, c)) \<in> measure (\<lambda>(parse, c). length (buffer c))"
    by simp
next
  fix parse :: "string \<Rightarrow> DapMessage option" and c :: DapClient and headerEnd digits msg
  assume "indexOf (buffer c) CRLFCRLF = Some headerEnd"
  from indexOf_bound [OF this] have "headerEnd + 4 \<le> length (buffer c)"
    by (simp add: CRLFCRLF_def)
  then show "((parse, handleMessage
         (c\<lparr> buffer := drop (headerEnd + 4 + parseInt digits) (buffer c) \<rparr>) msg),
       (parse, c)) \<in> measure (\<lambda>(parse, c). length (buffer c))"
    by simp
qed

declare decode.simps [simp del]


subsection \<open>Runs of the client\<close>

text \<open>
  What happens to a client, in order: the adapter sends a request, the socket delivers a
  chunk of bytes, the socket closes.
\<close>

datatype client_event = Request string "json option" | Data string | Close


text \<open>
  Every seq handed out so far is either a key of the pending table or has been settled,
  never both, and none was settled twice.
\<close>

definition settled_once :: "DapClient \<Rightarrow> bool" where
  "settled_once c \<longleftrightarrow>
     1 \<le> seq c \<and> distinct (pending c) \<and> distinct (map fst (settled c)) \<and>
     set (pending c) \<inter> set (map fst (settled c)) = {} \<and>
     set (pending c) \<union> set (map fst (settled c)) = {1..<seq c}"

text \<open>How the promise of the request with a given seq has been settled so far, in order.\<close>

definition settlements :: "DapClient \<Rightarrow> nat \<Rightarrow> settlement list" where
  "settlements c s = map snd (filter (\<lambda>p. fst p = s) (settled c))"







subsection \<open>Frames on the wire\<close>

text \<open>
  A well-formed frame, as \<^verbatim>\<open>sendRequest\<close> writes it: the header with the byte length of
  the content, the blank line, the content.
\<close>

definition frame :: "string \<Rightarrow> string" where
  "frame content = ''Content-Length: '' @ decimal (length content) @ CRLFCRLF @ content"












section \<open>Resuming the debuggee (adapter/node, adapter/python)\<close>

text \<open>The four operations of the adapter interface that resume the debuggee.\<close>

datatype resume_op = Continue | StepOver | StepIn | StepOut

subsection \<open>The node adapter\<close>

text \<open>
  \<^verbatim>\<open>waitForPause\<close>: the promise's executor runs at once, starts the timer, pushes the
  listener onto \<^verbatim>\<open>stoppedCallbacks\<close> and registers the exit handler with the process (if
  any); the result is the number of the new listener, which stands for the promise. The
  timer of a promise is pending exactly while its listener is in the list: both are set up
  here and both are removed by the promise's \<^verbatim>\<open>cleanup\<close>.
\<close>

definition waitForPause :: "NodeAdapter \<Rightarrow> nat \<times> NodeAdapter" where
  "waitForPause a =
     (node_fresh a,
      a\<lparr> node_stoppedCallbacks := node_stoppedCallbacks a @ [PauseListener (node_fresh a)],
         node_exitListeners :=
           (if node_process a then node_exitListeners a @ [node_fresh a]
            else node_exitListeners a),
         node_fresh := node_fresh a + 1,
         node_observed := node_observed a @ [Registered (PauseListener (node_fresh a))] \<rparr>)"

text \<open>
  \<^verbatim>\<open>continue\<close>, \<^verbatim>\<open>stepOver\<close>, \<^verbatim>\<open>stepIn\<close>, \<^verbatim>\<open>stepOut\<close> up to the point where the
  command has been written and its response is awaited: the pause promise first, then
  \<^verbatim>\<open>cdpSend\<close>. A rejected send is thrown; otherwise the pause promise is what the
  operation goes on to return.
\<close>

definition node_continue :: "NodeAdapter \<Rightarrow> int option \<Rightarrow> (string + nat) \<times> NodeAdapter" where
  "node_continue a threadId' =
     (case waitForPause a of
        (pausePromise, a1) \<Rightarrow>
          (case cdpSend a1 Debugger_resume of
             (Inl err, a2) \<Rightarrow> (Inl err, a2)
           | (Inr u, a2) \<Rightarrow> (Inr pausePromise, a2)))"

definition node_stepOver :: "NodeAdapter \<Rightarrow> int option \<Rightarrow> (string + nat) \<times> NodeAdapter" where
  "node_stepOver a threadId' =
     (case waitForPause a of
        (pausePromise, a1) \<Rightarrow>
          (case cdpSend a1 Debugger_stepOver of
             (Inl err, a2) \<Rightarrow> (Inl err, a2)
           | (Inr u, a2) \<Rightarrow> (Inr pausePromise, a2)))"

definition node_stepIn :: "NodeAdapter \<Rightarrow> int option \<Rightarrow> (string + nat) \<times> NodeAdapter" where
  "node_stepIn a threadId' =
     (case waitForPause a of
        (pausePromise, a1) \<Rightarrow>
          (case cdpSend a1 Debugger_stepInto of
             (Inl err, a2) \<Rightarrow> (Inl err, a2)
           | (Inr u, a2) \<Rightarrow> (Inr pausePromise, a2)))"

definition node_stepOut :: "NodeAdapter \<Rightarrow> int option \<Rightarrow> (string + nat) \<times> NodeAdapter" where
  "node_stepOut a threadId' =
     (case waitForPause a of
        (pausePromise, a1) \<Rightarrow>
          (case cdpSend a1 Debugger_stepOut of
             (Inl err, a2) \<Rightarrow> (Inl err, a2)
           | (Inr u, a2) \<Rightarrow> (Inr pausePromise, a2)))"

fun node_resume :: "resume_op \<Rightarrow> NodeAdapter \<Rightarrow> int option \<Rightarrow> (string + nat) \<times> NodeAdapter" where
  "node_resume Continue = node_continue"
| "node_resume StepOver = node_stepOver"
| "node_resume StepIn = node_stepIn"
| "node_resume StepOut = node_stepOut"

fun node_resume_call :: "resume_op \<Rightarrow> cdp_call" where
  "node_resume_call Continue = Debugger_resume"
| "node_resume_call StepOver = Debugger_stepOver"
| "node_resume_call StepIn = Debugger_stepInto"
| "node_resume_call StepOut = Debugger_stepOut"

subsection \<open>The python adapter\<close>

text \<open>
  The fields of \<^verbatim>\<open>PythonAdapter\<close>: \<^verbatim>\<open>client\<close> (null before \<^verbatim>\<open>start\<close> and after
  \<^verbatim>\<open>disconnect\<close>), \<^verbatim>\<open>process\<close> (true when the child process handle is non-null),
  \<^verbatim>\<open>stoppedCallbacks\<close>, \<^verbatim>\<open>threadId\<close>, \<^verbatim>\<open>frameIds\<close>. \<open>exitListeners\<close> are the pending
  promises whose handler listens for the process's \<^verbatim>\<open>exit\<close>. \<open>fresh\<close> numbers the
  promises of \<^verbatim>\<open>waitForStop\<close>; \<open>observed\<close> is the observer's log; \<open>fired\<close> records which
  promise's listener was called with which event, \<open>ended\<close> which promises were resolved
  with the terminated result, and \<open>expired\<close> which were rejected by their timer.
\<close>

record PythonAdapter =
  client :: "DapClient option"
  process :: bool
  stoppedCallbacks :: "callback list"
  threadId :: int
  frameIds :: "int list"
  exitListeners :: "nat list"
  fresh :: nat
  observed :: "string observed list"
  fired :: "(nat \<times> StoppedInfo) list"
  ended :: "nat list"
  expired :: "nat list"

text \<open>\<^verbatim>\<open>DapClient.on\<close> and \<^verbatim>\<open>off\<close>: the handler set of an event name.\<close>

definition on :: "DapClient \<Rightarrow> string \<Rightarrow> nat \<Rightarrow> DapClient" where
  "on c ev handler =
     c\<lparr> eventHandlers := (eventHandlers c)
          (ev \<mapsto> (case eventHandlers c ev of
                    None \<Rightarrow> [handler]
                  | Some handlers \<Rightarrow>
                      if handler \<in> set handlers then handlers else handlers @ [handler])) \<rparr>"

definition off :: "DapClient \<Rightarrow> string \<Rightarrow> nat \<Rightarrow> DapClient" where
  "off c ev handler =
     (case eventHandlers c ev of
        None \<Rightarrow> c
      | Some handlers \<Rightarrow>
          c\<lparr> eventHandlers := (eventHandlers c)(ev \<mapsto> filter (\<lambda>h. h \<noteq> handler) handlers) \<rparr>)"

text \<open>
  \<^verbatim>\<open>waitForStop\<close>: the executor pushes the handler onto \<^verbatim>\<open>stoppedCallbacks\<close>, registers
  the terminated handler with the client (if any) and the exit handler with the process
  (if any), and starts the timer. The promise, its handler and its terminated handler
  carry the same number.
\<close>

definition waitForStop :: "PythonAdapter \<Rightarrow> nat \<times> PythonAdapter" where
  "waitForStop a =
     (fresh a,
      a\<lparr> stoppedCallbacks := stoppedCallbacks a @ [PauseListener (fresh a)],
         client := map_option (\<lambda>c. on c ''terminated'' (fresh a)) (client a),
         exitListeners := (if process a then exitListeners a @ [fresh a] else exitListeners a),
         fresh := fresh a + 1,
         observed := observed a @ [Registered (PauseListener (fresh a))] \<rparr>)"

text \<open>A signed integer in JSON text, and the arguments \<^verbatim>\<open>{ threadId: t }\<close>.\<close>

definition int_text :: "int \<Rightarrow> string" where
  "int_text i = (if i < 0 then CHR ''-'' # decimal (nat (- i)) else decimal (nat i))"

definition thread_arguments :: "int \<Rightarrow> json" where
  \<open>thread_arguments t = ''{"threadId":'' @ int_text t @ ''}''\<close>

text \<open>
  \<^verbatim>\<open>this.client.sendRequest(command, args)\<close> up to the write, on an adapter whose client
  is non-null (the callers check it first).
\<close>

definition client_request ::
  "(nat \<Rightarrow> string \<Rightarrow> json option \<Rightarrow> string) \<Rightarrow> PythonAdapter \<Rightarrow> string \<Rightarrow> json option \<Rightarrow>
   PythonAdapter" where
  "client_request stringify a cmd args =
     (case client a of
        None \<Rightarrow> a
      | Some c \<Rightarrow>
          (case sendRequest stringify c cmd args of
             (s, c') \<Rightarrow> a\<lparr> client := Some c', observed := observed a @ [Sent s cmd] \<rparr>))"

text \<open>
  The four operations up to the point where the command has been written and its response
  is awaited: the check of the client, the stop promise, then the request with
  \<^verbatim>\<open>threadId ?? this.threadId\<close>.
\<close>

definition py_continue ::
  "(nat \<Rightarrow> string \<Rightarrow> json option \<Rightarrow> string) \<Rightarrow> PythonAdapter \<Rightarrow> int option \<Rightarrow>
   (string + nat) \<times> PythonAdapter" where
  "py_continue stringify a threadId' =
     (if client a = None then (Inl ''Not connected'', a)
      else (case waitForStop a of
              (stopPromise, a1) \<Rightarrow>
                (Inr stopPromise,
                 client_request stringify a1 ''continue''
                   (Some (thread_arguments
                            (case threadId' of Some t \<Rightarrow> t | None \<Rightarrow> threadId a1))))))"

definition py_stepOver ::
  "(nat \<Rightarrow> string \<Rightarrow> json option \<Rightarrow> string) \<Rightarrow> PythonAdapter \<Rightarrow> int option \<Rightarrow>
   (string + nat) \<times> PythonAdapter" where
  "py_stepOver stringify a threadId' =
     (if client a = None then (Inl ''Not connected'', a)
      else (case waitForStop a of
              (stopPromise, a1) \<Rightarrow>
                (Inr stopPromise,
                 client_request stringify a1 ''next''
                   (Some (thread_arguments
                            (case threadId' of Some t \<Rightarrow> t | None \<Rightarrow> threadId a1))))))"

definition py_stepIn ::
  "(nat \<Rightarrow> string \<Rightarrow> json option \<Rightarrow> string) \<Rightarrow> PythonAdapter \<Rightarrow> int option \<Rightarrow>
   (string + nat) \<times> PythonAdapter" where
  "py_stepIn stringify a threadId' =
     (if client a = None then (Inl ''Not connected'', a)
      else (case waitForStop a of
              (stopPromise, a1) \<Rightarrow>
                (Inr stopPromise,
                 client_request stringify a1 ''stepIn''
                   (Some (thread_arguments
                            (case threadId' of Some t \<Rightarrow> t | None \<Rightarrow> threadId a1))))))"

definition py_stepOut ::
  "(nat \<Rightarrow> string \<Rightarrow> json option \<Rightarrow> string) \<Rightarrow> PythonAdapter \<Rightarrow> int option \<Rightarrow>
   (string + nat) \<times> PythonAdapter" where
  "py_stepOut stringify a threadId' =
     (if client a = None then (Inl ''Not connected'', a)
      else (case waitForStop a of
              (stopPromise, a1) \<Rightarrow>
                (Inr stopPromise,
                 client_request stringify a1 ''stepOut''
                   (Some (thread_arguments
                            (case threadId' of Some t \<Rightarrow> t | None \<Rightarrow> threadId a1))))))"

fun py_resume ::
  "resume_op \<Rightarrow> (nat \<Rightarrow> string \<Rightarrow> json option \<Rightarrow> string) \<Rightarrow> PythonAdapter \<Rightarrow> int option \<Rightarrow>
   (string + nat) \<times> PythonAdapter" where
  "py_resume Continue = py_continue"
| "py_resume StepOver = py_stepOver"
| "py_resume StepIn = py_stepIn"
| "py_resume StepOut = py_stepOut"

fun py_resume_command :: "resume_op \<Rightarrow> string" where
  "py_resume_command Continue = ''continue''"
| "py_resume_command StepOver = ''next''"
| "py_resume_command StepIn = ''stepIn''"
| "py_resume_command StepOut = ''stepOut''"

subsection \<open>Example adapter\<close>

text \<open>
  A python adapter after \<^verbatim>\<open>start\<close>: connected, the handshake's three requests sent, the
  client's stopped handler installed, the session manager's listener first in
  \<^verbatim>\<open>stoppedCallbacks\<close>. And a stand-in for \<^verbatim>\<open>JSON.stringify\<close> that keeps the command.
\<close>

definition connected_python :: PythonAdapter where
  "connected_python =
     \<lparr> client = Some (new_DapClient\<lparr> seq := 4, eventHandlers := [''stopped'' \<mapsto> [0]],
                                     connected := True \<rparr>),
       process = True, stoppedCallbacks = [SessionTracker], threadId = 1, frameIds = [],
       exitListeners = [], fresh = 0, observed = [], fired = [], ended = [], expired = [] \<rparr>"

definition command_only :: "nat \<Rightarrow> string \<Rightarrow> json option \<Rightarrow> string" where
  "command_only s cmd args = cmd"

section \<open>Variables of a frame (adapter/python)\<close>













subsection \<open>Example debug adapter\<close>



section \<open>Stopped events and the session's stopped fields (session/manager, tools/execution)\<close>

text \<open>
  The listener that \<^verbatim>\<open>create\<close> passes to \<^verbatim>\<open>adapter.onStopped\<close>: it writes the event's
  thread id (\<^verbatim>\<open>?? null\<close>) and reason into the session state.
\<close>

definition track_stopped :: "StoppedInfo \<Rightarrow> 'a SessionState \<Rightarrow> 'a SessionState" where
  "track_stopped event state =
     state\<lparr> stoppedThreadId := info_threadId event, stoppedReason := Some (reason event) \<rparr>"

text \<open>\<^verbatim>\<open>onStopped\<close> of the two adapters.\<close>

definition node_onStopped :: "NodeAdapter \<Rightarrow> callback \<Rightarrow> NodeAdapter" where
  "node_onStopped a cb = a\<lparr> node_stoppedCallbacks := node_stoppedCallbacks a @ [cb] \<rparr>"

definition py_onStopped :: "PythonAdapter \<Rightarrow> callback \<Rightarrow> PythonAdapter" where
  "py_onStopped a cb = a\<lparr> stoppedCallbacks := stoppedCallbacks a @ [cb] \<rparr>"

text \<open>The adapter objects as their classes initialise them (\<^verbatim>\<open>createAdapter\<close>).\<close>

definition new_NodeAdapter :: NodeAdapter where
  "new_NodeAdapter =
     \<lparr> ws = False, cdp_seq = 1, node_stoppedCallbacks = [], breakpointIds = Map.empty,
       node_process = False, node_exitListeners = [], pausedReason = [], node_fresh = 0,
       node_observed = [], node_fired = [], node_ended = [], node_expired = [] \<rparr>"

definition new_PythonAdapter :: PythonAdapter where
  "new_PythonAdapter =
     \<lparr> client = None, process = False, stoppedCallbacks = [], threadId = 1, frameIds = [],
       exitListeners = [], fresh = 0, observed = [], fired = [], ended = [], expired = [] \<rparr>"

text \<open>
  What \<^verbatim>\<open>create\<close> builds between choosing the adapter and starting it: the session state
  with id \<^verbatim>\<open>session-N\<close> and the listener installed on the new adapter, which is therefore
  the first entry of \<^verbatim>\<open>stoppedCallbacks\<close>.
\<close>

definition node_session :: "nat \<Rightarrow> NodeAdapter SessionState" where
  "node_session n =
     createSessionState (''session-'' @ decimal n) (node_onStopped new_NodeAdapter SessionTracker)"

definition python_session :: "nat \<Rightarrow> PythonAdapter SessionState" where
  "python_session n =
     createSessionState (''session-'' @ decimal n) (py_onStopped new_PythonAdapter SessionTracker)"

text \<open>
  \<^verbatim>\<open>start\<close> of the two adapters when it succeeds (when it throws, \<^verbatim>\<open>create\<close> throws and
  no session becomes active), in what it does to the fields modelled here. The node
  adapter sets up the initial pause promise before it spawns the process, then has its
  socket and sends \<^verbatim>\<open>Debugger.enable\<close> and \<^verbatim>\<open>Runtime.enable\<close>. The python adapter spawns the
  process, connects its client, installs the client's \<^verbatim>\<open>stopped\<close> handler (numbered 0),
  sets up the initial stop promise and sends \<^verbatim>\<open>initialize\<close>, \<^verbatim>\<open>launch\<close> (its arguments,
  built from the launch configuration, are a parameter) and \<^verbatim>\<open>configurationDone\<close>.
\<close>

definition node_start :: "NodeAdapter \<Rightarrow> NodeAdapter" where
  "node_start a =
     (case waitForPause a of
        (initialPause, a1) \<Rightarrow>
          (case cdpSend (a1\<lparr> node_process := True, ws := True \<rparr>) Debugger_enable of
             (r1, a2) \<Rightarrow> (case cdpSend a2 Runtime_enable of (r2, a3) \<Rightarrow> a3)))"

definition initialize_arguments :: json where
  \<open>initialize_arguments =
     ''{"clientID":"opencode-debugger","clientName":"OpenCode Debugger","adapterID":"python","pathFormat":"path","linesStartAt1":true,"columnsStartAt1":true,"supportsRunInTerminalRequest":false}''\<close>

definition py_start ::
  "(nat \<Rightarrow> string \<Rightarrow> json option \<Rightarrow> string) \<Rightarrow> json \<Rightarrow> PythonAdapter \<Rightarrow> PythonAdapter" where
  "py_start stringify launch_arguments a =
     (case waitForStop
             (a\<lparr> process := True,
                client := Some (on (new_DapClient\<lparr> connected := True \<rparr>) ''stopped'' 0) \<rparr>) of
        (initialPause, a1) \<Rightarrow>
          client_request stringify
            (client_request stringify
               (client_request stringify a1 ''initialize'' (Some initialize_arguments))
               ''launch'' (Some launch_arguments))
            ''configurationDone'' (Some ''{}''))"

subsection \<open>The node adapter's handlers\<close>

text \<open>
  \<^verbatim>\<open>cleanup\<close> of a \<^verbatim>\<open>waitForPause\<close> promise: the timer is cleared, the listener leaves
  \<^verbatim>\<open>stoppedCallbacks\<close> (\<^verbatim>\<open>indexOf\<close> and \<^verbatim>\<open>splice\<close> remove its first occurrence) and the
  exit handler leaves the process (if any).
\<close>

definition node_cleanup :: "nat \<Rightarrow> NodeAdapter \<Rightarrow> NodeAdapter" where
  "node_cleanup n a =
     a\<lparr> node_stoppedCallbacks := remove1 (PauseListener n) (node_stoppedCallbacks a),
        node_exitListeners :=
          (if node_process a then filter (\<lambda>k. k \<noteq> n) (node_exitListeners a)
           else node_exitListeners a) \<rparr>"

text \<open>
  Calling one listener with an event. The manager's listener writes the session fields; a
  promise's listener cleans up and resolves its promise with the event's reason and
  thread id (and the location of the top call frame, which is not part of this model).
\<close>

fun node_call_listener ::
  "callback \<Rightarrow> StoppedInfo \<Rightarrow> NodeAdapter SessionState \<Rightarrow> NodeAdapter SessionState" where
  "node_call_listener SessionTracker info w = track_stopped info w"
| "node_call_listener (PauseListener n) info w =
     w\<lparr> adapter := (node_cleanup n (adapter w))
          \<lparr> node_fired := node_fired (adapter w) @ [(n, info)] \<rparr> \<rparr>"

lemma length_callbacks_node_call_listener:
  "length (node_stoppedCallbacks (adapter (node_call_listener cb info w))) \<le>
   length (node_stoppedCallbacks (adapter w))"
proof (cases cb)
  case SessionTracker
  then show ?thesis by (simp add: track_stopped_def)
next
  case (PauseListener n)
  have "length (remove1 (PauseListener n) (node_stoppedCallbacks (adapter w))) \<le>
        length (node_stoppedCallbacks (adapter w))"
    by (simp add: length_remove1)
  with PauseListener show ?thesis by (simp add: node_cleanup_def)
qed

text \<open>
  \<^verbatim>\<open>for (const cb of this.stoppedCallbacks) cb(info)\<close>: the array iterator reads the
  array by index on every round, while listeners remove themselves from it.
\<close>

function node_call_listeners ::
  "StoppedInfo \<Rightarrow> nat \<Rightarrow> NodeAdapter SessionState \<Rightarrow> NodeAdapter SessionState" where
  "node_call_listeners info i w =
     (if i < length (node_stoppedCallbacks (adapter w))
      then node_call_listeners info (i + 1)
             (node_call_listener (node_stoppedCallbacks (adapter w) ! i) info w)
      else w)"
  by pat_completeness auto
termination
proof (relation "measure (\<lambda>(info, i, w). length (node_stoppedCallbacks (adapter w)) - i)")
  show "wf (measure (\<lambda>(info, i, w). length (node_stoppedCallbacks (adapter w)) - i))"
    by simp
next
  fix info :: StoppedInfo and i :: nat and w :: "NodeAdapter SessionState"
  assume "i < length (node_stoppedCallbacks (adapter w))"
  with length_callbacks_node_call_listener [of "node_stoppedCallbacks (adapter w) ! i" info w]
  show "((info, i + 1, node_call_listener (node_stoppedCallbacks (adapter w) ! i) info w),
         (info, i, w)) \<in>
          measure (\<lambda>(info, i, w). length (node_stoppedCallbacks (adapter w)) - i)"
    by simp
qed

declare node_call_listeners.simps [simp del]

text \<open>
  \<^verbatim>\<open>onPaused\<close>, called for a \<^verbatim>\<open>Debugger.paused\<close> event with the event's
  \<^verbatim>\<open>params.reason\<close> (the call frames are not part of this model).
\<close>

definition node_onPaused ::
  "string option \<Rightarrow> NodeAdapter SessionState \<Rightarrow> NodeAdapter SessionState" where
  "node_onPaused params_reason w =
     (let r = (case params_reason of Some x \<Rightarrow> x | None \<Rightarrow> ''breakpoint'');
          info = \<lparr> reason = r, info_threadId = Some 1, description = None \<rparr>
      in node_call_listeners info 0 (w\<lparr> adapter := (adapter w)\<lparr> pausedReason := r \<rparr> \<rparr>))"

text \<open>
  The child process exits: every pending promise's exit handler cleans up and resolves
  its promise with the terminated result. No listener in \<^verbatim>\<open>stoppedCallbacks\<close> is
  called.
\<close>

definition node_process_exit :: "NodeAdapter SessionState \<Rightarrow> NodeAdapter SessionState" where
  "node_process_exit w =
     w\<lparr> adapter :=
          (foldl (\<lambda>a n. node_cleanup n a) (adapter w) (node_exitListeners (adapter w)))
            \<lparr> node_ended := node_ended (adapter w) @ node_exitListeners (adapter w) \<rparr> \<rparr>"

text \<open>
  The timer of promise \<open>n\<close> fires, which it can only do while it has not been cleared:
  it cleans up and rejects the promise.
\<close>

definition node_timer :: "nat \<Rightarrow> NodeAdapter SessionState \<Rightarrow> NodeAdapter SessionState" where
  "node_timer n w =
     (if PauseListener n \<in> set (node_stoppedCallbacks (adapter w))
      then w\<lparr> adapter := (node_cleanup n (adapter w))
                 \<lparr> node_expired := node_expired (adapter w) @ [n] \<rparr> \<rparr>
      else w)"

text \<open>\<^verbatim>\<open>ws.onclose\<close>.\<close>

definition node_onclose :: "NodeAdapter SessionState \<Rightarrow> NodeAdapter SessionState" where
  "node_onclose w = w\<lparr> adapter := (adapter w)\<lparr> ws := False \<rparr> \<rparr>"

subsection \<open>The python adapter's handlers\<close>

text \<open>
  \<^verbatim>\<open>cleanup\<close> of a \<^verbatim>\<open>waitForStop\<close> promise: the timer is cleared, the handler leaves
  \<^verbatim>\<open>stoppedCallbacks\<close>, the terminated handler leaves the client (if any), the exit
  handler leaves the process (if any).
\<close>

definition py_cleanup :: "nat \<Rightarrow> PythonAdapter \<Rightarrow> PythonAdapter" where
  "py_cleanup n a =
     a\<lparr> stoppedCallbacks := remove1 (PauseListener n) (stoppedCallbacks a),
        client := map_option (\<lambda>c. off c ''terminated'' n) (client a),
        exitListeners :=
          (if process a then filter (\<lambda>k. k \<noteq> n) (exitListeners a) else exitListeners a) \<rparr>"

text \<open>The arguments of the \<^verbatim>\<open>stackTrace\<close> request of \<^verbatim>\<open>getCallStack\<close>.\<close>

definition stack_arguments :: "int \<Rightarrow> json" where
  \<open>stack_arguments t = ''{"threadId":'' @ int_text t @ '',"startFrame":0,"levels":50}''\<close>

text \<open>
  Calling one listener with an event. The manager's listener writes the session fields. A
  promise's handler is asynchronous: called, it cleans up and calls \<^verbatim>\<open>getCallStack\<close> with
  the event's thread id, which writes the \<^verbatim>\<open>stackTrace\<close> request when there is a client;
  the promise is resolved with the event's reason and thread id once that request has
  settled (or at once when there is no client).
\<close>

fun py_call_listener ::
  "(nat \<Rightarrow> string \<Rightarrow> json option \<Rightarrow> string) \<Rightarrow> callback \<Rightarrow> StoppedInfo \<Rightarrow>
   PythonAdapter SessionState \<Rightarrow> PythonAdapter SessionState" where
  "py_call_listener stringify SessionTracker info w = track_stopped info w"
| "py_call_listener stringify (PauseListener n) info w =
     w\<lparr> adapter :=
          (client_request stringify (py_cleanup n (adapter w)) ''stackTrace''
             (Some (stack_arguments
                      (case info_threadId info of Some t \<Rightarrow> t | None \<Rightarrow> threadId (adapter w)))))
            \<lparr> fired := fired (adapter w) @ [(n, info)] \<rparr> \<rparr>"

lemma stoppedCallbacks_client_request [simp]:
  "stoppedCallbacks (client_request stringify a cmd args) = stoppedCallbacks a"
  by (simp add: client_request_def split: option.splits prod.splits)

lemma length_callbacks_py_call_listener:
  "length (stoppedCallbacks (adapter (py_call_listener stringify cb info w))) \<le>
   length (stoppedCallbacks (adapter w))"
proof (cases cb)
  case SessionTracker
  then show ?thesis by (simp add: track_stopped_def)
next
  case (PauseListener n)
  have "length (remove1 (PauseListener n) (stoppedCallbacks (adapter w))) \<le>
        length (stoppedCallbacks (adapter w))"
    by (simp add: length_remove1)
  with PauseListener show ?thesis by (simp add: py_cleanup_def)
qed

function py_call_listeners ::
  "(nat \<Rightarrow> string \<Rightarrow> json option \<Rightarrow> string) \<Rightarrow> StoppedInfo \<Rightarrow> nat \<Rightarrow>
   PythonAdapter SessionState \<Rightarrow> PythonAdapter SessionState" where
  "py_call_listeners stringify info i w =
     (if i < length (stoppedCallbacks (adapter w))
      then py_call_listeners stringify info (i + 1)
             (py_call_listener stringify (stoppedCallbacks (adapter w) ! i) info w)
      else w)"
  by pat_completeness auto
termination
proof (relation "measure (\<lambda>(stringify, info, i, w). length (stoppedCallbacks (adapter w)) - i)")
  show "wf (measure (\<lambda>(stringify :: nat \<Rightarrow> string \<Rightarrow> json option \<Rightarrow> string,
                         info :: StoppedInfo, i, w :: PythonAdapter SessionState).
              length (stoppedCallbacks (adapter w)) - i))"
    by simp
next
  fix stringify :: "nat \<Rightarrow> string \<Rightarrow> json option \<Rightarrow> string"
    and info :: StoppedInfo and i :: nat and w :: "PythonAdapter SessionState"
  assume "i < length (stoppedCallbacks (adapter w))"
  with length_callbacks_py_call_listener [of stringify "stoppedCallbacks (adapter w) ! i" info w]
  show "((stringify, info, i + 1,
          py_call_listener stringify (stoppedCallbacks (adapter w) ! i) info w),
         (stringify, info, i, w)) \<in>
          measure (\<lambda>(stringify, info, i, w). length (stoppedCallbacks (adapter w)) - i)"
    by simp
qed

declare py_call_listeners.simps [simp del]

text \<open>
  The client's handler for the \<^verbatim>\<open>stopped\<close> event that \<^verbatim>\<open>start\<close> installs, called with
  the body's \<^verbatim>\<open>threadId\<close>, \<^verbatim>\<open>reason\<close> and \<^verbatim>\<open>description\<close>.
\<close>

definition py_stopped_event ::
  "(nat \<Rightarrow> string \<Rightarrow> json option \<Rightarrow> string) \<Rightarrow> int option \<Rightarrow> string option \<Rightarrow> string option \<Rightarrow>
   PythonAdapter SessionState \<Rightarrow> PythonAdapter SessionState" where
  "py_stopped_event stringify body_threadId body_reason body_description w =
     (let t = (case body_threadId of Some x \<Rightarrow> x | None \<Rightarrow> 1);
          info = \<lparr> reason = (case body_reason of Some x \<Rightarrow> x | None \<Rightarrow> ''breakpoint''),
                   info_threadId = Some t, description = body_description \<rparr>
      in py_call_listeners stringify info 0 (w\<lparr> adapter := (adapter w)\<lparr> threadId := t \<rparr> \<rparr>))"

text \<open>
  The client delivers a \<^verbatim>\<open>terminated\<close> event: every pending promise's terminated handler
  cleans up and resolves its promise with the terminated result.
\<close>

definition py_terminated_event :: "PythonAdapter SessionState \<Rightarrow> PythonAdapter SessionState" where
  "py_terminated_event w =
     (let handlers = (case client (adapter w) of
                        None \<Rightarrow> []
                      | Some c \<Rightarrow> (case eventHandlers c ''terminated'' of
                                     None \<Rightarrow> []
                                   | Some hs \<Rightarrow> hs))
      in w\<lparr> adapter := (foldl (\<lambda>a n. py_cleanup n a) (adapter w) handlers)
                          \<lparr> ended := ended (adapter w) @ handlers \<rparr> \<rparr>)"

text \<open>
  The child process exits: every pending promise's exit handler cleans up and resolves
  its promise with the terminated result.
\<close>

definition py_process_exit :: "PythonAdapter SessionState \<Rightarrow> PythonAdapter SessionState" where
  "py_process_exit w =
     w\<lparr> adapter :=
          (foldl (\<lambda>a n. py_cleanup n a) (adapter w) (exitListeners (adapter w)))
            \<lparr> ended := ended (adapter w) @ exitListeners (adapter w) \<rparr> \<rparr>"

text \<open>The timer of promise \<open>n\<close> fires: it cleans up and rejects the promise.\<close>

definition py_timer :: "nat \<Rightarrow> PythonAdapter SessionState \<Rightarrow> PythonAdapter SessionState" where
  "py_timer n w =
     (if PauseListener n \<in> set (stoppedCallbacks (adapter w))
      then w\<lparr> adapter := (py_cleanup n (adapter w))\<lparr> expired := expired (adapter w) @ [n] \<rparr> \<rparr>
      else w)"

text \<open>The client's socket closes (the \<^verbatim>\<open>close\<close> listener of \<^verbatim>\<open>DapClient.connect\<close>).\<close>

definition py_onclose :: "PythonAdapter SessionState \<Rightarrow> PythonAdapter SessionState" where
  "py_onclose w = w\<lparr> adapter := (adapter w)\<lparr> client := map_option on_close (client (adapter w)) \<rparr> \<rparr>"

subsection \<open>The execution tools\<close>

text \<open>
  The four execution tools run \<^verbatim>\<open>requireActive\<close> and then the adapter's operation, which
  is a parameter. What is modelled is the part of the handler that runs at once, up to the
  point where the command has been written and the handler waits; the result is the promise
  that the handler then awaits. The rest of the handler runs when the command's response
  and the promise have settled, which happens in the handlers above; it formats the
  promise's value and writes nothing.
\<close>

type_synonym 'a adapter_resume = "'a \<Rightarrow> int option \<Rightarrow> (string + nat) \<times> 'a"

definition continue_execution ::
  "'a adapter_resume \<Rightarrow> 'a SessionState option \<Rightarrow> int option \<Rightarrow>
   (string + nat) \<times> 'a SessionState option" where
  "continue_execution adapter_continue activeSession threadId' =
     (case requireActive activeSession of
        Inl err \<Rightarrow> (Inl err, activeSession)
      | Inr session \<Rightarrow>
          (case adapter_continue (adapter session) threadId' of
             (result, a) \<Rightarrow> (result, Some (session\<lparr> adapter := a \<rparr>))))"

definition step_over ::
  "'a adapter_resume \<Rightarrow> 'a SessionState option \<Rightarrow> int option \<Rightarrow>
   (string + nat) \<times> 'a SessionState option" where
  "step_over adapter_stepOver activeSession threadId' =
     (case requireActive activeSession of
        Inl err \<Rightarrow> (Inl err, activeSession)
      | Inr session \<Rightarrow>
          (case adapter_stepOver (adapter session) threadId' of
             (result, a) \<Rightarrow> (result, Some (session\<lparr> adapter := a \<rparr>))))"

definition step_into ::
  "'a adapter_resume \<Rightarrow> 'a SessionState option \<Rightarrow> int option \<Rightarrow>
   (string + nat) \<times> 'a SessionState option" where
  "step_into adapter_stepIn activeSession threadId' =
     (case requireActive activeSession of
        Inl err \<Rightarrow> (Inl err, activeSession)
      | Inr session \<Rightarrow>
          (case adapter_stepIn (adapter session) threadId' of
             (result, a) \<Rightarrow> (result, Some (session\<lparr> adapter := a \<rparr>))))"

definition step_out ::
  "'a adapter_resume \<Rightarrow> 'a SessionState option \<Rightarrow> int option \<Rightarrow>
   (string + nat) \<times> 'a SessionState option" where
  "step_out adapter_stepOut activeSession threadId' =
     (case requireActive activeSession of
        Inl err \<Rightarrow> (Inl err, activeSession)
      | Inr session \<Rightarrow>
          (case adapter_stepOut (adapter session) threadId' of
             (result, a) \<Rightarrow> (result, Some (session\<lparr> adapter := a \<rparr>))))"

fun resume_tool ::
  "resume_op \<Rightarrow> 'a adapter_resume \<Rightarrow> 'a SessionState option \<Rightarrow> int option \<Rightarrow>
   (string + nat) \<times> 'a SessionState option" where
  "resume_tool Continue = continue_execution"
| "resume_tool StepOver = step_over"
| "resume_tool StepIn = step_into"
| "resume_tool StepOut = step_out"

text \<open>The two stopped fields of the active session, if there is one.\<close>

definition stopped_fields :: "'a SessionState option \<Rightarrow> (int option \<times> string option) option" where
  "stopped_fields activeSession =
     map_option (\<lambda>s. (stoppedThreadId s, stoppedReason s)) activeSession"

subsection \<open>The life of a session\<close>

text \<open>
  The program is event-driven: the state of a session changes in turns, each one run of
  the program's code from a tool call or an arriving event to the point where it waits
  again. The turns that touch \<^verbatim>\<open>stoppedCallbacks\<close>, the pending promises or the session
  fields are: the adapter is started (taken as one turn; the python adapter's with the
  arguments of its launch request); a resume tool is called (with its thread id); the
  debugger reports
  a pause (the node adapter's \<^verbatim>\<open>Debugger.paused\<close> with its reason, the python adapter's
  \<^verbatim>\<open>stopped\<close> event with thread id, reason and description); the python adapter's client
  delivers \<^verbatim>\<open>terminated\<close>; the child process exits; the timer of a promise fires; the
  transport closes. A resume tool returns at some later turn, when its command's response
  and its promise have settled.
\<close>

datatype node_input =
    Node_started
  | Node_call resume_op "int option"
  | Node_paused "string option"
  | Node_exited
  | Node_timeout nat
  | Node_closed

datatype python_input =
    Py_started json
  | Py_call resume_op "int option"
  | Py_stopped "int option" "string option" "string option"
  | Py_terminated
  | Py_exited
  | Py_timeout nat
  | Py_closed

fun node_turn :: "node_input \<Rightarrow> NodeAdapter SessionState \<Rightarrow> NodeAdapter SessionState" where
  "node_turn Node_started w = w\<lparr> adapter := node_start (adapter w) \<rparr>"
| "node_turn (Node_call op t) w =
     (case snd (resume_tool op (node_resume op) (Some w) t) of Some w' \<Rightarrow> w' | None \<Rightarrow> w)"
| "node_turn (Node_paused r) w = node_onPaused r w"
| "node_turn Node_exited w = node_process_exit w"
| "node_turn (Node_timeout n) w = node_timer n w"
| "node_turn Node_closed w = node_onclose w"

fun python_turn ::
  "(nat \<Rightarrow> string \<Rightarrow> json option \<Rightarrow> string) \<Rightarrow> python_input \<Rightarrow> PythonAdapter SessionState \<Rightarrow>
   PythonAdapter SessionState" where
  "python_turn stringify (Py_started launch_arguments) w =
     w\<lparr> adapter := py_start stringify launch_arguments (adapter w) \<rparr>"
| "python_turn stringify (Py_call op t) w =
     (case snd (resume_tool op (py_resume op stringify) (Some w) t) of
        Some w' \<Rightarrow> w' | None \<Rightarrow> w)"
| "python_turn stringify (Py_stopped t r d) w = py_stopped_event stringify t r d w"
| "python_turn stringify Py_terminated w = py_terminated_event w"
| "python_turn stringify Py_exited w = py_process_exit w"
| "python_turn stringify (Py_timeout n) w = py_timer n w"
| "python_turn stringify Py_closed w = py_onclose w"

fun node_run :: "node_input list \<Rightarrow> NodeAdapter SessionState \<Rightarrow> NodeAdapter SessionState" where
  "node_run [] w = w"
| "node_run (i # inputs) w = node_run inputs (node_turn i w)"

fun python_run ::
  "(nat \<Rightarrow> string \<Rightarrow> json option \<Rightarrow> string) \<Rightarrow> python_input list \<Rightarrow>
   PythonAdapter SessionState \<Rightarrow> PythonAdapter SessionState" where
  "python_run stringify [] w = w"
| "python_run stringify (i # inputs) w = python_run stringify inputs (python_turn stringify i w)"

text \<open>
  The thread id and reason of the stop that an input reports, and the stop reported last
  in a list of inputs (or what the fields held before, if it reports none).
\<close>

fun node_stop :: "node_input \<Rightarrow> (int option \<times> string option) option" where
  "node_stop (Node_paused r) =
     Some (Some 1, Some (case r of Some x \<Rightarrow> x | None \<Rightarrow> ''breakpoint''))"
| "node_stop Node_started = None"
| "node_stop (Node_call op t) = None"
| "node_stop Node_exited = None"
| "node_stop (Node_timeout n) = None"
| "node_stop Node_closed = None"

fun python_stop :: "python_input \<Rightarrow> (int option \<times> string option) option" where
  "python_stop (Py_stopped t r d) =
     Some (Some (case t of Some x \<Rightarrow> x | None \<Rightarrow> 1),
           Some (case r of Some x \<Rightarrow> x | None \<Rightarrow> ''breakpoint''))"
| "python_stop (Py_started launch_arguments) = None"
| "python_stop (Py_call op t) = None"
| "python_stop Py_terminated = None"
| "python_stop Py_exited = None"
| "python_stop (Py_timeout n) = None"
| "python_stop Py_closed = None"

fun latest :: "('i \<Rightarrow> 'f option) \<Rightarrow> 'i list \<Rightarrow> 'f \<Rightarrow> 'f" where
  "latest stop [] before = before"
| "latest stop (i # inputs) before =
     latest stop inputs (case stop i of Some f \<Rightarrow> f | None \<Rightarrow> before)"

subsection \<open>Example sessions\<close>

text \<open>
  Session 1 on the example python adapter and on the example node adapter, each paused at
  its entry point: the stopped event for the entry pause has been delivered.
\<close>

definition entry_paused_session :: "PythonAdapter SessionState" where
  "entry_paused_session =
     py_stopped_event command_only (Some 1) (Some ''entry'') None
       (createSessionState ''session-1'' connected_python)"

definition entry_paused_node :: "NodeAdapter SessionState" where
  "entry_paused_node =
     node_onPaused (Some ''Break on start'') (createSessionState ''session-1'' connected_node)"

section \<open>Properties of the phase machine\<close>

lemma member_VALID_TRANSITIONS:
  "to \<in> set (VALID_TRANSITIONS p) \<longleftrightarrow> to = ring_successor p"
  by (cases p) auto

lemma transition_succeeds_iff:
  "(\<exists>next. fst (transition store state to) = Inr next) \<longleftrightarrow> to = ring_successor (currentPhase state)"
  by (simp add: transition_def Let_def member_VALID_TRANSITIONS)

lemma transition_Inr_step:
  assumes "transition store state to = (Inr next, store')"
  shows "currentPhase next = to"
    and "currentStep next =
           currentStep state + (if (currentPhase state, to) = (CONFIRMING, PLANNING) then 1 else 0)"
  using assms by (auto simp: transition_def Let_def split: if_splits)

lemma transition_Inr_successor:
  assumes "transition store state to = (Inr next, store')"
  shows "to = ring_successor (currentPhase state)"
  using assms by (auto simp: transition_def Let_def member_VALID_TRANSITIONS split: if_splits)

lemma transitions_step_count:
  "transitions store state tos = (final, store', edges) \<Longrightarrow>
   currentStep final = currentStep state + count_list edges (CONFIRMING, PLANNING)"
proof (induction tos arbitrary: store state final store' edges)
  case Nil
  then show ?case by simp
next
  case (Cons to tos)
  obtain r store1 where tr: "transition store state to = (r, store1)"
    by (cases "transition store state to")
  show ?case
  proof (cases r)
    case (Inl err)
    with Cons tr show ?thesis by simp
  next
    case (Inr nxt)
    obtain f s2 es where rest: "transitions store1 nxt tos = (f, s2, es)"
      by (cases "transitions store1 nxt tos")
    from Cons.prems tr Inr rest
    have fin: "final = f" and ed: "edges = (currentPhase state, to) # es"
      by simp_all
    from Cons.IH [OF rest]
    have "currentStep f = currentStep nxt + count_list es (CONFIRMING, PLANNING)" .
    moreover from transition_Inr_step(2) [OF tr [unfolded Inr]]
    have "currentStep nxt =
            currentStep state + (if (currentPhase state, to) = (CONFIRMING, PLANNING) then 1 else 0)" .
    ultimately show ?thesis
      using fin ed by auto
  qed
qed

lemma transitions_edges_ring:
  "transitions store state tos = (final, store', edges) \<Longrightarrow>
   list_all (\<lambda>(a, b). b = ring_successor a) edges"
proof (induction tos arbitrary: store state final store' edges)
  case Nil
  then show ?case by simp
next
  case (Cons to tos)
  obtain r store1 where tr: "transition store state to = (r, store1)"
    by (cases "transition store state to")
  show ?case
  proof (cases r)
    case (Inl err)
    with Cons tr show ?thesis by simp
  next
    case (Inr nxt)
    obtain f s2 es where rest: "transitions store1 nxt tos = (f, s2, es)"
      by (cases "transitions store1 nxt tos")
    from Cons.prems tr Inr rest
    have ed: "edges = (currentPhase state, to) # es"
      by simp
    from Cons.IH [OF rest] transition_Inr_successor [OF tr [unfolded Inr]] ed
    show ?thesis by simp
  qed
qed


text \<open>
  Claim C2. For every sequence of \<^verbatim>\<open>transition(to)\<close> calls applied to a fresh phase state
  (phase PLANNING, step 0), a call succeeds exactly when \<^verbatim>\<open>to\<close> is the single successor
  of the current phase in the ring PLANNING, CODING, BREAKPOINTING, DEBUGGING, EXPLAINING,
  CONFIRMING, PLANNING; every completed edge adds one to \<^verbatim>\<open>currentStep\<close> when it is
  CONFIRMING to PLANNING and preserves it otherwise; and after the sequence
  \<^verbatim>\<open>currentStep\<close> is the number of completed CONFIRMING to PLANNING edges.
\<close>

theorem transition_sequence_counts_cycles:
  assumes "transitions store (fst (create store0 i)) tos = (final, store', edges)"
  shows "currentPhase (fst (create store0 i)) = PLANNING \<and>
         currentStep (fst (create store0 i)) = 0 \<and>
         currentStep final = count_list edges (CONFIRMING, PLANNING) \<and>
         list_all (\<lambda>(a, b). b = ring_successor a) edges \<and>
         (\<forall>st s to. (\<exists>n. fst (transition st s to) = Inr n) \<longleftrightarrow> to = ring_successor (currentPhase s)) \<and>
         (\<forall>st s to n st'. transition st s to = (Inr n, st') \<longrightarrow>
            currentPhase n = to \<and>
            currentStep n = currentStep s +
              (if currentPhase s = CONFIRMING \<and> to = PLANNING then 1 else 0))"
proof -
  have fresh: "currentPhase (fst (create store0 i)) = PLANNING"
      "currentStep (fst (create store0 i)) = 0"
    by (simp_all add: create_def Let_def)
  have count: "currentStep final = count_list edges (CONFIRMING, PLANNING)"
    using transitions_step_count [OF assms] fresh by simp
  have ring: "list_all (\<lambda>(a, b). b = ring_successor a) edges"
    using transitions_edges_ring [OF assms] .
  have step: "\<forall>st s to n st'. transition st s to = (Inr n, st') \<longrightarrow>
            currentPhase n = to \<and>
            currentStep n = currentStep s +
              (if currentPhase s = CONFIRMING \<and> to = PLANNING then 1 else 0)"
    using transition_Inr_step by simp
  show ?thesis
    using fresh count ring step transition_succeeds_iff by blast
qed

theorem transition_sequence_counts_cycles_witness:
  "transitions Map.empty (fst (create Map.empty ''s''))
      [CODING, DEBUGGING, BREAKPOINTING, DEBUGGING, EXPLAINING, CONFIRMING, PLANNING, CODING]
    = (\<lparr> sessionID = ''s'', currentPhase = CODING, currentStep = 1, totalSteps = None,
          stepDescriptions = [], autoConfirm = False \<rparr>,
       [''s'' \<mapsto> \<lparr> sessionID = ''s'', currentPhase = CODING, currentStep = 1, totalSteps = None,
          stepDescriptions = [], autoConfirm = False \<rparr>],
       [(PLANNING, CODING), (CODING, BREAKPOINTING), (BREAKPOINTING, DEBUGGING),
        (DEBUGGING, EXPLAINING), (EXPLAINING, CONFIRMING), (CONFIRMING, PLANNING),
        (PLANNING, CODING)])
   \<and> count_list [(PLANNING, CODING), (CODING, BREAKPOINTING), (BREAKPOINTING, DEBUGGING),
        (DEBUGGING, EXPLAINING), (EXPLAINING, CONFIRMING), (CONFIRMING, PLANNING),
        (PLANNING, CODING)] (CONFIRMING, PLANNING) = (1::nat)"
proof -
  have run: "transitions Map.empty (fst (create Map.empty ''s''))
      [CODING, DEBUGGING, BREAKPOINTING, DEBUGGING, EXPLAINING, CONFIRMING, PLANNING, CODING]
    = (\<lparr> sessionID = ''s'', currentPhase = CODING, currentStep = 1, totalSteps = None,
          stepDescriptions = [], autoConfirm = False \<rparr>,
       [''s'' \<mapsto> \<lparr> sessionID = ''s'', currentPhase = CODING, currentStep = 1, totalSteps = None,
          stepDescriptions = [], autoConfirm = False \<rparr>],
       [(PLANNING, CODING), (CODING, BREAKPOINTING), (BREAKPOINTING, DEBUGGING),
        (DEBUGGING, EXPLAINING), (EXPLAINING, CONFIRMING), (CONFIRMING, PLANNING),
        (PLANNING, CODING)])"
    by (simp add: create_def transition_def Let_def)
  from transition_sequence_counts_cycles [OF run] run show ?thesis
    by simp
qed

section \<open>Properties of auto-detection\<close>

lemma endsWith_same_length:
  "endsWith p s \<Longrightarrow> endsWith p s' \<Longrightarrow> length s = length s' \<Longrightarrow> s = s'"
  by (simp add: endsWith_def)

lemma endsWith_appendD: "endsWith p (a @ b) \<Longrightarrow> endsWith p b"
proof -
  assume h: "endsWith p (a @ b)"
  then have len: "length a + length b \<le> length p"
    and d: "drop (length p - (length a + length b)) p = a @ b"
    by (simp_all add: endsWith_def)
  have "drop (length p - length b) p = drop (length a) (drop (length p - (length a + length b)) p)"
    using len by simp
  also have "\<dots> = b" by (simp add: d)
  finally show ?thesis using len by (simp add: endsWith_def)
qed

lemma endsWith_tail2:
  assumes "endsWith p s" "2 \<le> length s"
  shows "drop (length p - 2) p = drop (length s - 2) s"
proof -
  from assms have len: "length s \<le> length p" and d: "drop (length p - length s) p = s"
    by (simp_all add: endsWith_def)
  have "drop (length s - 2) (drop (length p - length s) p) = drop (length p - 2) p"
    using len assms(2) by simp
  with d show ?thesis by simp
qed

lemma endsWith_excl:
  assumes "endsWith p s" "2 \<le> length s" "2 \<le> length s'"
    and "drop (length s - 2) s \<noteq> drop (length s' - 2) s'"
  shows "\<not> endsWith p s'"
  using endsWith_tail2 [OF assms(1,2)] endsWith_tail2 [of p s'] assms(3,4) by auto

lemma py_not_node:
  assumes "endsWith p ''.py''"
  shows "\<not> (endsWith p ''.js'' \<or> endsWith p ''.ts'' \<or> endsWith p ''.mjs'' \<or>
            endsWith p ''.cjs'' \<or> endsWith p ''.tsx'' \<or> endsWith p ''.jsx'')"
proof -
  have "\<not> endsWith p ''.js''" by (rule endsWith_excl [OF assms]) simp_all
  moreover have "\<not> endsWith p ''.ts''" by (rule endsWith_excl [OF assms]) simp_all
  moreover have "\<not> endsWith p ''.mjs''" by (rule endsWith_excl [OF assms]) simp_all
  moreover have "\<not> endsWith p ''.cjs''" by (rule endsWith_excl [OF assms]) simp_all
  moreover have "\<not> endsWith p ''.tsx''" by (rule endsWith_excl [OF assms]) simp_all
  moreover have "\<not> endsWith p ''.jsx''" by (rule endsWith_excl [OF assms]) simp_all
  ultimately show ?thesis by blast
qed

lemma txt_rejected:
  assumes "endsWith p ''.txt''"
  shows "\<not> endsWith p ''.py'' \<and>
         \<not> (endsWith p ''.js'' \<or> endsWith p ''.ts'' \<or> endsWith p ''.mjs'' \<or>
            endsWith p ''.cjs'' \<or> endsWith p ''.tsx'' \<or> endsWith p ''.jsx'')"
proof -
  have "\<not> endsWith p ''.py''" by (rule endsWith_excl [OF assms]) simp_all
  moreover have "\<not> endsWith p ''.js''" by (rule endsWith_excl [OF assms]) simp_all
  moreover have "\<not> endsWith p ''.ts''" by (rule endsWith_excl [OF assms]) simp_all
  moreover have "\<not> endsWith p ''.mjs''" by (rule endsWith_excl [OF assms]) simp_all
  moreover have "\<not> endsWith p ''.cjs''" by (rule endsWith_excl [OF assms]) simp_all
  moreover have "\<not> endsWith p ''.tsx''" by (rule endsWith_excl [OF assms]) simp_all
  moreover have "\<not> endsWith p ''.jsx''" by (rule endsWith_excl [OF assms]) simp_all
  ultimately show ?thesis by blast
qed

lemma rs_rejected:
  assumes "endsWith p ''.rs''"
  shows "\<not> endsWith p ''.py'' \<and>
         \<not> (endsWith p ''.js'' \<or> endsWith p ''.ts'' \<or> endsWith p ''.mjs'' \<or>
            endsWith p ''.cjs'' \<or> endsWith p ''.tsx'' \<or> endsWith p ''.jsx'')"
proof -
  have "\<not> endsWith p ''.py''" by (rule endsWith_excl [OF assms]) simp_all
  moreover have "\<not> endsWith p ''.js''" by (rule endsWith_excl [OF assms]) simp_all
  moreover have "\<not> endsWith p ''.ts''" by (rule endsWith_excl [OF assms]) simp_all
  moreover have "\<not> endsWith p ''.mjs''" by (rule endsWith_excl [OF assms]) simp_all
  moreover have "\<not> endsWith p ''.cjs''" by (rule endsWith_excl [OF assms]) simp_all
  moreover have "\<not> endsWith p ''.tsx''" by (rule endsWith_excl [OF assms]) simp_all
  moreover have "\<not> endsWith p ''.jsx''" by (rule endsWith_excl [OF assms]) simp_all
  ultimately show ?thesis by blast
qed

lemma empty_rejected:
  "\<not> endsWith [] ''.py'' \<and>
   \<not> (endsWith [] ''.js'' \<or> endsWith [] ''.ts'' \<or> endsWith [] ''.mjs'' \<or>
      endsWith [] ''.cjs'' \<or> endsWith [] ''.tsx'' \<or> endsWith [] ''.jsx'')"
  by (simp add: endsWith_def)

text \<open>
  Claim C9. For every program path, auto-detection returns the python adapter exactly when
  the path ends in ".py", the node adapter exactly when it ends in ".js", ".ts", ".mjs",
  ".cjs", ".tsx" or ".jsx", and otherwise fails with a "Cannot auto-detect" error; paths
  ending in ".txt" or ".rs" and the empty path are rejected.
\<close>

theorem detectType_by_extension:
  "(detectType p = Inr ''python'' \<longleftrightarrow> endsWith p ''.py'') \<and>
   (detectType p = Inr ''node'' \<longleftrightarrow>
      endsWith p ''.js'' \<or> endsWith p ''.ts'' \<or> endsWith p ''.mjs'' \<or>
      endsWith p ''.cjs'' \<or> endsWith p ''.tsx'' \<or> endsWith p ''.jsx'') \<and>
   (\<not> endsWith p ''.py'' \<and>
    \<not> (endsWith p ''.js'' \<or> endsWith p ''.ts'' \<or> endsWith p ''.mjs'' \<or>
       endsWith p ''.cjs'' \<or> endsWith p ''.tsx'' \<or> endsWith p ''.jsx'') \<longrightarrow>
      (\<exists>msg. detectType p = Inl msg \<and> prefix ''Cannot auto-detect'' msg)) \<and>
   (endsWith p ''.txt'' \<or> endsWith p ''.rs'' \<or> p = [] \<longrightarrow>
      (\<exists>msg. detectType p = Inl msg \<and> prefix ''Cannot auto-detect'' msg))"
proof -
  let ?node = "endsWith p ''.js'' \<or> endsWith p ''.ts'' \<or> endsWith p ''.mjs'' \<or>
      endsWith p ''.cjs'' \<or> endsWith p ''.tsx'' \<or> endsWith p ''.jsx''"
  have py: "detectType p = Inr ''python'' \<longleftrightarrow> endsWith p ''.py''"
    by (simp add: detectType_def)
  have node: "detectType p = Inr ''node'' \<longleftrightarrow> ?node"
  proof (cases "endsWith p ''.py''")
    case True
    with py_not_node [OF True] show ?thesis by (simp add: detectType_def)
  next
    case False
    then show ?thesis by (simp add: detectType_def)
  qed
  have other: "\<not> endsWith p ''.py'' \<and> \<not> ?node \<longrightarrow>
      (\<exists>msg. detectType p = Inl msg \<and> prefix ''Cannot auto-detect'' msg)"
    by (simp add: detectType_def)
  have none: "\<not> endsWith p ''.py'' \<and> \<not> ?node"
    if "endsWith p ''.txt'' \<or> endsWith p ''.rs'' \<or> p = []"
    using that txt_rejected [of p] rs_rejected [of p] empty_rejected by blast
  from other none
  have rej: "endsWith p ''.txt'' \<or> endsWith p ''.rs'' \<or> p = [] \<longrightarrow>
      (\<exists>msg. detectType p = Inl msg \<and> prefix ''Cannot auto-detect'' msg)"
    by blast
  show ?thesis
    using py node other rej by blast
qed

theorem detectType_by_extension_witness:
  "detectType ''/tmp/a.py'' = Inr ''python'' \<and> detectType ''/tmp/a.tsx'' = Inr ''node'' \<and>
   endsWith ''notes.txt'' ''.txt'' \<and>
   (\<exists>msg. detectType ''notes.txt'' = Inl msg \<and> prefix ''Cannot auto-detect'' msg)"
proof -
  have a: "endsWith ''/tmp/a.py'' ''.py''"
    by (simp add: endsWith_def)
  have b: "endsWith ''/tmp/a.tsx'' ''.js'' \<or> endsWith ''/tmp/a.tsx'' ''.ts'' \<or>
      endsWith ''/tmp/a.tsx'' ''.mjs'' \<or> endsWith ''/tmp/a.tsx'' ''.cjs'' \<or>
      endsWith ''/tmp/a.tsx'' ''.tsx'' \<or> endsWith ''/tmp/a.tsx'' ''.jsx''"
    by (simp add: endsWith_def)
  have c: "endsWith ''notes.txt'' ''.txt''"
    by (simp add: endsWith_def)
  have py: "detectType ''/tmp/a.py'' = Inr ''python''"
    by (rule iffD2 [OF conjunct1 [OF detectType_by_extension] a])
  have node: "detectType ''/tmp/a.tsx'' = Inr ''node''"
    by (rule iffD2 [OF conjunct1 [OF conjunct2 [OF detectType_by_extension]] b])
  have rejected: "\<exists>msg. detectType ''notes.txt'' = Inl msg \<and> prefix ''Cannot auto-detect'' msg"
    by (rule mp [OF conjunct2 [OF conjunct2 [OF conjunct2 [OF detectType_by_extension]]]
          disjI1 [OF c]])
  show ?thesis
    by (intro conjI py node c rejected)
qed

section \<open>Properties of the breakpoint tools\<close>

lemma findIndex_None_iff: "findIndex P xs = None \<longleftrightarrow> (\<forall>x\<in>set xs. \<not> P x)"
  by (induction xs) (auto split: option.splits)

lemma findIndex_Some:
  "findIndex P xs = Some i \<Longrightarrow> i < length xs \<and> P (xs ! i) \<and> (\<forall>j<i. \<not> P (xs ! j))"
proof (induction xs arbitrary: i)
  case Nil
  then show ?case by simp
next
  case (Cons x xs)
  show ?case
  proof (cases "P x")
    case True
    with Cons.prems show ?thesis by simp
  next
    case False
    with Cons.prems obtain i' where i': "findIndex P xs = Some i'" "i = Suc i'"
      by (auto split: option.splits)
    from Cons.IH [OF i'(1)] False i'(2) show ?thesis
      by (auto simp: less_Suc_eq_0_disj)
  qed
qed

lemma findIndex_map: "findIndex P (map f xs) = findIndex (\<lambda>x. P (f x)) xs"
  by (induction xs) auto

lemma findIndex_append:
  "findIndex P (xs @ ys) =
     (case findIndex P xs of Some i \<Rightarrow> Some i
      | None \<Rightarrow> (case findIndex P ys of None \<Rightarrow> None | Some j \<Rightarrow> Some (length xs + j)))"
  by (induction xs) (auto split: option.splits)

lemma findIndex_cong_keys:
  "map k xs = map k ys \<Longrightarrow> findIndex (\<lambda>e. k e = v) xs = findIndex (\<lambda>e. k e = v) ys"
proof (induction xs arbitrary: ys)
  case Nil
  then show ?case by simp
next
  case (Cons x xs)
  then obtain y ys' where "ys = y # ys'" "k x = k y" "map k xs = map k ys'"
    by (cases ys) auto
  with Cons.IH [of ys'] show ?case by simp
qed

lemma keys_upsert:
  "map k (upsert k xs x) = (if k x \<in> set (map k xs) then map k xs else map k xs @ [k x])"
proof (cases "findIndex (\<lambda>e. k e = k x) xs")
  case None
  then have "k x \<notin> set (map k xs)"
    unfolding findIndex_None_iff by (simp add: image_iff) metis
  with None show ?thesis by (simp add: upsert_def)
next
  case (Some i)
  from findIndex_Some [OF Some] have i: "i < length xs" "k (xs ! i) = k x" by simp_all
  then have "k x \<in> set (map k xs)"
    by (metis image_eqI nth_mem set_map)
  moreover have "map k (xs[i := x]) = map k xs"
    using i by (simp add: map_update list_update_same_conv)
  ultimately show ?thesis using Some by (simp add: upsert_def)
qed

lemma upsert_present:
  assumes "k x \<in> set (map k xs)"
  obtains i where "findIndex (\<lambda>e. k e = k x) xs = Some i" "upsert k xs x = xs[i := x]"
    "i < length xs" "k (xs ! i) = k x"
proof -
  from assms have "findIndex (\<lambda>e. k e = k x) xs \<noteq> None"
    by (auto simp: findIndex_None_iff)
  then obtain i where i: "findIndex (\<lambda>e. k e = k x) xs = Some i" by auto
  from findIndex_Some [OF i] i that show thesis by (simp add: upsert_def)
qed

lemma findIndex_absent:
  "v \<notin> set (map k xs) \<Longrightarrow> findIndex (\<lambda>e. k e = v) xs = None"
  unfolding findIndex_None_iff by (simp add: image_iff) blast

lemma upsert_absent: "k x \<notin> set (map k xs) \<Longrightarrow> upsert k xs x = xs @ [x]"
  by (simp add: upsert_def findIndex_absent)

lemma upsert_same_key:
  assumes "k x = k y"
  shows "upsert k (upsert k xs y) x = upsert k xs x"
proof (cases "k y \<in> set (map k xs)")
  case True
  then obtain i where i: "findIndex (\<lambda>e. k e = k y) xs = Some i" "upsert k xs y = xs[i := y]"
    "i < length xs"
    by (rule upsert_present)
  have "map k (xs[i := y]) = map k xs"
    using keys_upsert [of k xs y] True i(2) by simp
  from findIndex_cong_keys [OF this, of "k x"] i(1) assms
  have "findIndex (\<lambda>e. k e = k x) (xs[i := y]) = Some i" by simp
  with i assms show ?thesis by (simp add: upsert_def)
next
  case False
  then have a: "upsert k xs y = xs @ [y]" by (rule upsert_absent)
  from False have "findIndex (\<lambda>e. k e = k x) xs = None"
    using assms findIndex_absent [of "k x" k xs] by simp
  then show ?thesis using assms by (simp add: a upsert_def findIndex_append)
qed

lemma upsert_commute:
  assumes "k x \<noteq> k y" and "k x \<in> set (map k xs)"
  shows "upsert k (upsert k xs x) y = upsert k (upsert k xs y) x"
proof -
  from assms(2) obtain i where i: "findIndex (\<lambda>e. k e = k x) xs = Some i"
    "upsert k xs x = xs[i := x]" "i < length xs" "k (xs ! i) = k x"
    by (rule upsert_present)
  have keys_x: "map k (xs[i := x]) = map k xs"
    using keys_upsert [of k xs x] assms(2) i(2) by simp
  show ?thesis
  proof (cases "k y \<in> set (map k xs)")
    case True
    then obtain j where j: "findIndex (\<lambda>e. k e = k y) xs = Some j"
      "upsert k xs y = xs[j := y]" "j < length xs" "k (xs ! j) = k y"
      by (rule upsert_present)
    have keys_y: "map k (xs[j := y]) = map k xs"
      using keys_upsert [of k xs y] True j(2) by simp
    have "i \<noteq> j" using i(4) j(4) assms(1) by auto
    have "findIndex (\<lambda>e. k e = k y) (xs[i := x]) = Some j"
      using findIndex_cong_keys [OF keys_x, of "k y"] j(1) by simp
    moreover have "findIndex (\<lambda>e. k e = k x) (xs[j := y]) = Some i"
      using findIndex_cong_keys [OF keys_y, of "k x"] i(1) by simp
    ultimately show ?thesis
      using i(2) j(2) \<open>i \<noteq> j\<close> by (simp add: upsert_def list_update_swap)
  next
    case False
    then have a: "upsert k xs y = xs @ [y]" by (rule upsert_absent)
    have "k y \<notin> set (map k (xs[i := x]))" using keys_x False by simp
    then have b: "upsert k (xs[i := x]) y = xs[i := x] @ [y]" by (rule upsert_absent)
    have "findIndex (\<lambda>e. k e = k x) (xs @ [y]) = Some i"
      using i(1) by (simp add: findIndex_append)
    then show ?thesis
      using i(2,3) a b by (simp add: upsert_def list_update_append1)
  qed
qed

lemma keys_foldl_upsert_mono:
  "set (map k xs) \<subseteq> set (map k (foldl (upsert k) xs ys))"
proof (induction ys arbitrary: xs)
  case Nil
  then show ?case by simp
next
  case (Cons y ys)
  have "set (map k xs) \<subseteq> set (map k (upsert k xs y))"
    by (simp add: keys_upsert) auto
  with Cons [of "upsert k xs y"] show ?case by auto
qed

lemma keys_foldl_upsert_new:
  "k ` set ys \<subseteq> set (map k (foldl (upsert k) xs ys))"
proof (induction ys arbitrary: xs)
  case Nil
  then show ?case by simp
next
  case (Cons y ys)
  have "k y \<in> set (map k (upsert k xs y))"
    by (simp add: keys_upsert)
  with keys_foldl_upsert_mono [of k "upsert k xs y" ys] Cons [of "upsert k xs y"]
  show ?case by auto
qed

lemma upsert_absorb:
  "k x \<in> set (map k M) \<Longrightarrow>
   upsert k (foldl (upsert k) (upsert k M x) L) x = upsert k (foldl (upsert k) M L) x"
proof (induction L arbitrary: M)
  case Nil
  then show ?case by (simp add: upsert_same_key)
next
  case (Cons c L)
  show ?case
  proof (cases "k c = k x")
    case True
    then show ?thesis by (simp add: upsert_same_key)
  next
    case False
    then have sw: "upsert k (upsert k M x) c = upsert k (upsert k M c) x"
      using upsert_commute [of k x c M] Cons.prems by simp
    have "k x \<in> set (map k (upsert k M c))"
      using Cons.prems by (simp add: keys_upsert)
    from Cons.IH [OF this] sw show ?thesis by simp
  qed
qed

lemma foldl_upsert_append:
  "k ` set L \<subseteq> set (map k M) \<Longrightarrow>
   foldl (upsert k) (M @ ys) L = foldl (upsert k) M L @ ys"
proof (induction L arbitrary: M)
  case Nil
  then show ?case by simp
next
  case (Cons c L)
  then have c: "k c \<in> set (map k M)" by auto
  then obtain i where i: "findIndex (\<lambda>e. k e = k c) M = Some i" "upsert k M c = M[i := c]"
    "i < length M"
    by (rule upsert_present)
  have step: "upsert k (M @ ys) c = upsert k M c @ ys"
    using i by (simp add: upsert_def findIndex_append list_update_append1)
  have "map k (upsert k M c) = map k M"
    using c by (simp add: keys_upsert)
  with Cons.prems have "k ` set L \<subseteq> set (map k (upsert k M c))" by auto
  from Cons.IH [OF this] step show ?case by simp
qed

lemma foldl_upsert_idem:
  "foldl (upsert k) (foldl (upsert k) E L) L = foldl (upsert k) E L"
proof (induction L arbitrary: E rule: rev_induct)
  case Nil
  then show ?case by simp
next
  case (snoc b L)
  let ?M = "foldl (upsert k) E L"
  have keysL: "k ` set L \<subseteq> set (map k ?M)" by (rule keys_foldl_upsert_new)
  show ?case
  proof (cases "k b \<in> set (map k ?M)")
    case True
    from upsert_absorb [OF True, of L] snoc.IH [of E]
    show ?thesis by simp
  next
    case False
    then have X: "upsert k ?M b = ?M @ [b]" by (rule upsert_absent)
    have "foldl (upsert k) (?M @ [b]) L = foldl (upsert k) ?M L @ [b]"
      using keysL by (rule foldl_upsert_append)
    also have "\<dots> = ?M @ [b]" by (simp add: snoc.IH)
    finally have "foldl (upsert k) (?M @ [b]) L = ?M @ [b]" .
    moreover have "upsert k (?M @ [b]) b = ?M @ [b]"
    proof -
      from False have "findIndex (\<lambda>e. k e = k b) ?M = None"
        by (rule findIndex_absent)
      then show ?thesis by (simp add: upsert_def findIndex_append)
    qed
    ultimately show ?thesis using X by simp
  qed
qed

lemma line_unverified: "line (unverified bp) = line bp"
  by (simp add: unverified_def)

lemma merge_step_upsert: "merge_step merged bp = upsert line merged (unverified bp)"
  by (simp add: merge_step_def upsert_def line_unverified)

lemma foldl_merge_step_upsert:
  "foldl merge_step merged bps = foldl (upsert line) merged (map unverified bps)"
  by (induction bps arbitrary: merged) (simp_all add: merge_step_upsert)

lemma map_upsert:
  assumes "\<And>e. k' (f e) = k e"
  shows "map f (upsert k xs x) = upsert k' (map f xs) (f x)"
proof -
  have "findIndex (\<lambda>e. k' e = k' (f x)) (map f xs) = findIndex (\<lambda>e. k e = k x) xs"
    by (simp add: findIndex_map assms)
  then show ?thesis
    by (simp add: upsert_def map_update split: option.splits)
qed

lemma map_foldl_upsert:
  assumes "\<And>e. k' (f e) = k e"
  shows "map f (foldl (upsert k) xs ys) = foldl (upsert k') (map f xs) (map f ys)"
  by (induction ys arbitrary: xs) (simp_all add: map_upsert [of k' f k, OF assms])

lemma toSourceBreakpoint_unverified: "toSourceBreakpoint (unverified bp) = bp"
  by (simp add: toSourceBreakpoint_def unverified_def)

lemma line_toSourceBreakpoint: "line (toSourceBreakpoint e) = line e"
  by (simp add: toSourceBreakpoint_def)

lemma toSource_merged:
  "toSourceBreakpoints (foldl merge_step merged bps) =
     foldl (upsert line) (toSourceBreakpoints merged) bps"
proof -
  have "map toSourceBreakpoint (foldl (upsert line) merged (map unverified bps)) =
        foldl (upsert line) (map toSourceBreakpoint merged)
          (map toSourceBreakpoint (map unverified bps))"
    by (rule map_foldl_upsert) (rule line_toSourceBreakpoint)
  then show ?thesis
    by (simp add: toSourceBreakpoints_def foldl_merge_step_upsert comp_def
        toSourceBreakpoint_unverified)
qed

lemma distinct_keys_upsert:
  "distinct (map k xs) \<Longrightarrow> distinct (map k (upsert k xs x))"
  by (simp add: keys_upsert)

lemma distinct_keys_foldl_upsert:
  "distinct (map k xs) \<Longrightarrow> distinct (map k (foldl (upsert k) xs ys))"
  by (induction ys arbitrary: xs) (simp_all add: distinct_keys_upsert)

lemma distinct_count_list: "distinct xs \<Longrightarrow> x \<in> set xs \<Longrightarrow> count_list xs x = 1"
  by (induction xs) auto

lemma length_map_indexed [simp]: "length (map_indexed f xs) = length xs"
  by (simp add: map_indexed_def)

lemma nth_map_indexed [simp]: "i < length xs \<Longrightarrow> map_indexed f xs ! i = f (xs ! i) i"
  by (simp add: map_indexed_def)

lemma map_indexed_Nil [simp]: "map_indexed f [] = []"
  by (simp add: map_indexed_def)

lemma map_indexed_eq_Nil [simp]: "map_indexed f xs = [] \<longleftrightarrow> xs = []"
  by (simp add: map_indexed_def)

text \<open>The stored list depends on the merged list only through the request sent.\<close>

lemma with_result_source:
  "with_result bp r = with_result (unverified (toSourceBreakpoint bp)) r"
  by (cases bp) (simp add: with_result_def unverified_def toSourceBreakpoint_def split: option.splits)

lemma updated_from_request:
  "map_indexed (\<lambda>bp i. with_result bp (at_index results i)) merged =
   map_indexed (\<lambda>sb i. with_result (unverified sb) (at_index results i))
     (toSourceBreakpoints merged)"
  by (rule nth_equalityI)
    (simp_all add: toSourceBreakpoints_def with_result_source [symmetric])

lemma updated_keeps_source:
  assumes "reports_requested_lines (toSourceBreakpoints merged) results"
  shows "toSourceBreakpoints (map_indexed (\<lambda>bp i. with_result bp (at_index results i)) merged) =
         toSourceBreakpoints merged"
proof (rule nth_equalityI)
  show "length (toSourceBreakpoints
          (map_indexed (\<lambda>bp i. with_result bp (at_index results i)) merged)) =
        length (toSourceBreakpoints merged)"
    by (simp add: toSourceBreakpoints_def)
next
  fix i
  assume "i < length (toSourceBreakpoints
          (map_indexed (\<lambda>bp i. with_result bp (at_index results i)) merged))"
  then have i: "i < length merged" by (simp add: toSourceBreakpoints_def)
  from assms have "\<forall>i\<in>{0..<length merged}. case at_index results i of
                     None \<Rightarrow> True
                   | Some r \<Rightarrow> (case r_line r of None \<Rightarrow> True
                                | Some l \<Rightarrow> l = line (map toSourceBreakpoint merged ! i))"
    by (simp add: reports_requested_lines_def list_all_iff toSourceBreakpoints_def)
  with i have "case at_index results i of
                     None \<Rightarrow> True
                   | Some r \<Rightarrow> (case r_line r of None \<Rightarrow> True
                                | Some l \<Rightarrow> l = line (map toSourceBreakpoint merged ! i))"
    by simp
  with i have "case at_index results i of
                     None \<Rightarrow> True
                   | Some r \<Rightarrow> (case r_line r of None \<Rightarrow> True | Some l \<Rightarrow> l = line (merged ! i))"
    by (simp add: line_toSourceBreakpoint split: option.splits)
  then have "toSourceBreakpoint (with_result (merged ! i) (at_index results i)) =
             toSourceBreakpoint (merged ! i)"
    by (simp add: with_result_def toSourceBreakpoint_def split: option.splits)
  with i show "toSourceBreakpoints
          (map_indexed (\<lambda>bp i. with_result bp (at_index results i)) merged) ! i =
        toSourceBreakpoints merged ! i"
    by (simp add: toSourceBreakpoints_def)
qed

lemma lines_of_source: "map line (toSourceBreakpoints xs) = map line xs"
  by (simp add: toSourceBreakpoints_def line_toSourceBreakpoint)

lemma getBreakpointsForFile_set [simp]:
  "getBreakpointsForFile (setBreakpointsForFile s file bps) file = bps"
  by (cases bps) (simp_all add: getBreakpointsForFile_def setBreakpointsForFile_def)

lemma getBreakpointsForFile_adapter [simp]:
  "getBreakpointsForFile (s\<lparr> adapter := a \<rparr>) file = getBreakpointsForFile s file"
  by (simp add: getBreakpointsForFile_def)

lemma adapter_setBreakpointsForFile [simp]:
  "adapter (setBreakpointsForFile s file bps) = adapter s"
  by (simp add: setBreakpointsForFile_def)

lemma set_breakpoints_Inr:
  assumes "adapter_set (adapter session) file
             (toSourceBreakpoints (foldl merge_step (getBreakpointsForFile session file) L))
           = (Inr results, a)"
  shows "set_breakpoints adapter_set (Some session) file L =
     (let updated = map_indexed (\<lambda>bp i. with_result bp (at_index results i))
                      (foldl merge_step (getBreakpointsForFile session file) L)
      in (Inr (file, map (\<lambda>bp. (line bp, verified bp, condition bp)) updated),
          Some (setBreakpointsForFile (session\<lparr> adapter := a \<rparr>) file updated)))"
  using assms by (simp add: set_breakpoints_def requireActive_def Let_def)

lemma listed_Some [simp]:
  "listed (Some s) file = (if file = ''__proto__'' then [] else getBreakpointsForFile s file)"
  by (simp add: listed_def list_breakpoints_def requireActive_def getAllBreakpoints_def
      getBreakpointsForFile_def)

text \<open>\<^verbatim>\<open>list_breakpoints\<close> shows no entry for the key that is not copied.\<close>

lemma listed_proto: "listed activeSession ''__proto__'' = []"
  by (cases activeSession)
    (simp_all add: listed_def list_breakpoints_def requireActive_def getAllBreakpoints_def)

text \<open>
  Claim C8, amended. For every session state and file F, \<^verbatim>\<open>remove_breakpoints(F)\<close> with
  the lines omitted sends the empty breakpoint list to the adapter. When that call returns,
  F is deleted from the registry and the following \<^verbatim>\<open>list_breakpoints()\<close> has no entry
  for F. When that call throws, \<^verbatim>\<open>remove_breakpoints\<close> throws the same error and the
  registry, and with it the result of \<^verbatim>\<open>list_breakpoints()\<close>, is as before.
\<close>

theorem remove_all_then_list_absent:
  "(\<forall>results a. adapter_set (adapter session) file [] = (Inr results, a) \<longrightarrow>
      remove_breakpoints adapter_set (Some session) file None =
        (Inr (file, None, 0),
         Some (session\<lparr> adapter := a, breakpoints := (breakpoints session)(file := None) \<rparr>)) \<and>
      (\<exists>all. list_breakpoints (snd (remove_breakpoints adapter_set (Some session) file None)) =
                Inr all \<and> all file = None)) \<and>
   (\<forall>err a. adapter_set (adapter session) file [] = (Inl err, a) \<longrightarrow>
      remove_breakpoints adapter_set (Some session) file None =
        (Inl err, Some (session\<lparr> adapter := a \<rparr>)) \<and>
      list_breakpoints (snd (remove_breakpoints adapter_set (Some session) file None)) =
        list_breakpoints (Some session))"
proof (intro conjI allI impI)
  fix results a
  assume "adapter_set (adapter session) file [] = (Inr results, a)"
  then show run: "remove_breakpoints adapter_set (Some session) file None =
        (Inr (file, None, 0),
         Some (session\<lparr> adapter := a, breakpoints := (breakpoints session)(file := None) \<rparr>))"
    by (simp add: remove_breakpoints_def requireActive_def setBreakpointsForFile_def)
  show "\<exists>all. list_breakpoints (snd (remove_breakpoints adapter_set (Some session) file None)) =
                Inr all \<and> all file = None"
    by (simp add: run list_breakpoints_def requireActive_def getAllBreakpoints_def)
next
  fix err a
  assume "adapter_set (adapter session) file [] = (Inl err, a)"
  then show run: "remove_breakpoints adapter_set (Some session) file None =
        (Inl err, Some (session\<lparr> adapter := a \<rparr>))"
    by (simp add: remove_breakpoints_def requireActive_def)
  have "getAllBreakpoints (session\<lparr> adapter := a \<rparr>) = getAllBreakpoints session"
    by (simp add: getAllBreakpoints_def cong: if_cong)
  then show "list_breakpoints (snd (remove_breakpoints adapter_set (Some session) file None)) =
        list_breakpoints (Some session)"
    by (simp add: run list_breakpoints_def requireActive_def)
qed

lemma exact_remove_all:
  "node_setBreakpoints exact_inspector (adapter example_session) ''/tmp/a.js'' [] =
      (Inr [], connected_node\<lparr> cdp_seq := 2, breakpointIds := [''/tmp/a.js'' \<mapsto> []],
          node_observed := [Sent 1 (Debugger_removeBreakpoint ''bp'')] \<rparr>)"
  by (simp add: node_setBreakpoints_def example_session_def connected_node_def
      exact_inspector_def cdpSend_def)

lemma closed_remove_all:
  "node_setBreakpoints exact_inspector (adapter closed_session) ''/tmp/a.js'' [] =
      (Inl ''Not connected'', adapter closed_session)"
  by (simp add: node_setBreakpoints_def closed_session_def example_session_def
      connected_node_def cdpSend_def)

lemma closed_session_listed:
  "map line (listed (Some closed_session) ''/tmp/a.js'') = [2]"
  by (simp add: getBreakpointsForFile_def closed_session_def example_session_def
      unverified_def line_request_def)

theorem remove_all_then_list_absent_witness:
  "remove_breakpoints (node_setBreakpoints exact_inspector) (Some example_session)
       ''/tmp/a.js'' None =
     (Inr (''/tmp/a.js'', None, 0),
      Some (example_session\<lparr>
        adapter := connected_node\<lparr> cdp_seq := 2, breakpointIds := [''/tmp/a.js'' \<mapsto> []],
          node_observed := [Sent 1 (Debugger_removeBreakpoint ''bp'')] \<rparr>,
        breakpoints := (breakpoints example_session)(''/tmp/a.js'' := None) \<rparr>)) \<and>
   map line (listed (Some example_session) ''/tmp/a.js'') = [2] \<and>
   listed (snd (remove_breakpoints (node_setBreakpoints exact_inspector) (Some example_session)
       ''/tmp/a.js'' None)) ''/tmp/a.js'' = [] \<and>
   remove_breakpoints (node_setBreakpoints exact_inspector) (Some closed_session)
       ''/tmp/a.js'' None =
     (Inl ''Not connected'', Some (closed_session\<lparr> adapter := adapter closed_session \<rparr>)) \<and>
   list_breakpoints (snd (remove_breakpoints (node_setBreakpoints exact_inspector)
       (Some closed_session) ''/tmp/a.js'' None)) = list_breakpoints (Some closed_session)"
proof -
  note t = remove_all_then_list_absent
    [of "node_setBreakpoints exact_inspector" example_session "''/tmp/a.js''"]
  note u = remove_all_then_list_absent
    [of "node_setBreakpoints exact_inspector" closed_session "''/tmp/a.js''"]
  from t exact_remove_all
  have run: "remove_breakpoints (node_setBreakpoints exact_inspector) (Some example_session)
       ''/tmp/a.js'' None =
     (Inr (''/tmp/a.js'', None, 0),
      Some (example_session\<lparr>
        adapter := connected_node\<lparr> cdp_seq := 2, breakpointIds := [''/tmp/a.js'' \<mapsto> []],
          node_observed := [Sent 1 (Debugger_removeBreakpoint ''bp'')] \<rparr>,
        breakpoints := (breakpoints example_session)(''/tmp/a.js'' := None) \<rparr>))"
    by blast
  have before: "map line (listed (Some example_session) ''/tmp/a.js'') = [2]"
    by (simp add: getBreakpointsForFile_def example_session_def unverified_def line_request_def)
  have after: "listed (snd (remove_breakpoints (node_setBreakpoints exact_inspector)
       (Some example_session) ''/tmp/a.js'' None)) ''/tmp/a.js'' = []"
    by (simp add: run getBreakpointsForFile_def)
  from u closed_remove_all
  have thrown: "remove_breakpoints (node_setBreakpoints exact_inspector) (Some closed_session)
       ''/tmp/a.js'' None =
     (Inl ''Not connected'', Some (closed_session\<lparr> adapter := adapter closed_session \<rparr>)) \<and>
   list_breakpoints (snd (remove_breakpoints (node_setBreakpoints exact_inspector)
       (Some closed_session) ''/tmp/a.js'' None)) = list_breakpoints (Some closed_session)"
    by blast
  from run before after thrown show ?thesis by blast
qed

text \<open>
  Claim C8 as stated fails when the adapter's call throws: on the session with one
  breakpoint at line 2 of the file whose inspector socket has closed, the node adapter
  rejects the removal of the recorded breakpoint id with "Not connected";
  \<^verbatim>\<open>remove_breakpoints\<close> throws before it reaches the registry, and \<^verbatim>\<open>list_breakpoints()\<close>
  still shows the file with its breakpoint at line 2.
\<close>

theorem remove_all_closed_socket_counterexample:
  "fst (remove_breakpoints (node_setBreakpoints exact_inspector) (Some closed_session)
       ''/tmp/a.js'' None) = Inl ''Not connected'' \<and>
   map line (listed (snd (remove_breakpoints (node_setBreakpoints exact_inspector)
       (Some closed_session) ''/tmp/a.js'' None)) ''/tmp/a.js'') = [2]"
proof -
  have "remove_breakpoints (node_setBreakpoints exact_inspector) (Some closed_session)
       ''/tmp/a.js'' None = (Inl ''Not connected'', Some closed_session)"
    by (simp add: remove_breakpoints_def requireActive_def closed_remove_all)
  then show ?thesis
    by (simp only: fst_conv snd_conv closed_session_listed)
qed

lemma lines_merged:
  "distinct (map line existing) \<Longrightarrow> distinct (map line (foldl merge_step existing L))"
  "line ` set L \<subseteq> set (map line (foldl merge_step existing L))"
proof -
  show "distinct (map line existing) \<Longrightarrow> distinct (map line (foldl merge_step existing L))"
    by (simp add: foldl_merge_step_upsert distinct_keys_foldl_upsert)
  have "line ` set (map unverified L) \<subseteq>
          set (map line (foldl (upsert line) existing (map unverified L)))"
    by (rule keys_foldl_upsert_new)
  then show "line ` set L \<subseteq> set (map line (foldl merge_step existing L))"
    by (simp add: foldl_merge_step_upsert image_comp comp_def line_unverified)
qed

text \<open>What an insert-or-replace run leaves in the list, entry by entry.\<close>

lemma set_upsert:
  assumes "distinct (map k M)"
  shows "set (upsert k M y) = insert y {x \<in> set M. k x \<noteq> k y}"
proof (cases "k y \<in> set (map k M)")
  case False
  then have "upsert k M y = M @ [y]" by (rule upsert_absent)
  moreover from False have "\<And>x. x \<in> set M \<Longrightarrow> k x \<noteq> k y"
    by (metis image_eqI set_map)
  then have "{x \<in> set M. k x \<noteq> k y} = set M" by blast
  ultimately show ?thesis by simp
next
  case True
  then obtain i where i: "upsert k M y = M[i := y]" "i < length M" "k (M ! i) = k y"
    by (rule upsert_present)
  from assms have dM: "distinct M" by (simp add: distinct_map)
  have "set (M[i := y]) = insert y (set M - {M ! i})"
    using dM i(2) by (rule set_update_distinct)
  moreover have "set M - {M ! i} = {x \<in> set M. k x \<noteq> k y}"
  proof (intro set_eqI iffI)
    fix x assume "x \<in> set M - {M ! i}"
    then obtain j where j: "j < length M" "M ! j = x" "x \<noteq> M ! i"
      by (auto simp: in_set_conv_nth)
    then have "j \<noteq> i" by auto
    have "map k M ! j \<noteq> map k M ! i"
      using nth_eq_iff_index_eq [OF assms, of j i] j(1) i(2) \<open>j \<noteq> i\<close> by simp
    with j i show "x \<in> {x \<in> set M. k x \<noteq> k y}" by auto
  next
    fix x assume "x \<in> {x \<in> set M. k x \<noteq> k y}"
    with i show "x \<in> set M - {M ! i}" by auto
  qed
  ultimately show ?thesis using i(1) by simp
qed

lemma foldl_upsert_elem:
  assumes "distinct (map k xs)" and "x \<in> set (foldl (upsert k) xs ys)"
  shows "if k x \<in> k ` set ys then x = last (filter (\<lambda>y. k y = k x) ys) else x \<in> set xs"
  using assms(2)
proof (induction ys arbitrary: x rule: rev_induct)
  case Nil
  then show ?case by simp
next
  case (snoc y ys)
  let ?M = "foldl (upsert k) xs ys"
  have d: "distinct (map k ?M)" using assms(1) by (rule distinct_keys_foldl_upsert)
  from snoc.prems have "x \<in> set (upsert k ?M y)" by simp
  then have "x = y \<or> (x \<in> set ?M \<and> k x \<noteq> k y)"
    by (simp add: set_upsert [OF d])
  then show ?case
  proof
    assume "x = y"
    then show ?thesis by simp
  next
    assume a: "x \<in> set ?M \<and> k x \<noteq> k y"
    with snoc.IH [of x] show ?thesis by auto
  qed
qed

lemma keys_foldl_upsert_prefix:
  "take (length xs) (map k (foldl (upsert k) xs ys)) = map k xs"
proof (induction ys arbitrary: xs rule: rev_induct)
  case Nil
  then show ?case by simp
next
  case (snoc y ys)
  have "length xs \<le> length (map k (foldl (upsert k) xs ys))"
    using snoc [of xs] by (metis length_map length_take min.cobounded2 min_def nat_le_linear)
  with snoc [of xs] show ?case
    by (auto simp: keys_upsert)
qed

lemma keys_foldl_upsert_set:
  "set (map k (foldl (upsert k) xs ys)) = set (map k xs) \<union> k ` set ys"
proof (induction ys arbitrary: xs rule: rev_induct)
  case Nil
  then show ?case by simp
next
  case (snoc y ys)
  then show ?case by (auto simp: keys_upsert)
qed

text \<open>
  Claim C3, amended. For every session state whose stored list for the file has no
  duplicate lines, every file other than \<^verbatim>\<open>__proto__\<close>, and every call of the adapter that
  returns and reports no corrected line: \<^verbatim>\<open>set_breakpoints(file, L)\<close> merges L into the
  stored list of the file (an entry of L whose line equals a stored line replaces that
  entry in its place, the other entries are appended) and sends the merged list to the
  adapter; the list that the following \<^verbatim>\<open>list_breakpoints()\<close> returns for the file has
  exactly one entry per line of L and no duplicate lines. In that list the stored lines
  keep their positions, no line appears that was neither stored nor requested, the entry
  at a requested line carries the column, condition, hit condition and log message of the
  last request for that line, the entry at any other line carries those of a stored entry,
  and every entry has the verified flag and id of the adapter's result at its index. The
  request sent to the adapter is the list shown, without flags and ids.
\<close>

theorem set_then_list_one_entry_per_line:
  assumes "file \<noteq> ''__proto__''"
    and "adapter_set (adapter session) file
             (toSourceBreakpoints (foldl merge_step (getBreakpointsForFile session file) L))
           = (Inr results, a)"
    and "reports_requested_lines
           (toSourceBreakpoints (foldl merge_step (getBreakpointsForFile session file) L)) results"
    and "distinct (map line (listed (Some session) file))"
  shows "(\<exists>out. fst (set_breakpoints adapter_set (Some session) file L) = Inr out) \<and>
     map_option adapter (snd (set_breakpoints adapter_set (Some session) file L)) = Some a \<and>
     toSourceBreakpoints (listed (snd (set_breakpoints adapter_set (Some session) file L)) file) =
       toSourceBreakpoints (foldl merge_step (getBreakpointsForFile session file) L) \<and>
     distinct (map line (listed (snd (set_breakpoints adapter_set (Some session) file L)) file)) \<and>
     (\<forall>bp\<in>set L. count_list (map line
         (listed (snd (set_breakpoints adapter_set (Some session) file L)) file)) (line bp) = 1) \<and>
     take (length (listed (Some session) file))
         (map line (listed (snd (set_breakpoints adapter_set (Some session) file L)) file)) =
       map line (listed (Some session) file) \<and>
     set (map line (listed (snd (set_breakpoints adapter_set (Some session) file L)) file)) =
       set (map line (listed (Some session) file)) \<union> line ` set L \<and>
     (\<forall>e\<in>set (listed (snd (set_breakpoints adapter_set (Some session) file L)) file).
        if line e \<in> line ` set L
        then toSourceBreakpoint e = last (filter (\<lambda>bp. line bp = line e) L)
        else \<exists>e0\<in>set (listed (Some session) file).
               toSourceBreakpoint e = toSourceBreakpoint e0) \<and>
     (\<forall>i<length (listed (snd (set_breakpoints adapter_set (Some session) file L)) file).
        verified (listed (snd (set_breakpoints adapter_set (Some session) file L)) file ! i) =
          (case at_index results i of Some r \<Rightarrow> r_verified r | None \<Rightarrow> False) \<and>
        id' (listed (snd (set_breakpoints adapter_set (Some session) file L)) file ! i) =
          (case at_index results i of Some r \<Rightarrow> r_id r | None \<Rightarrow> None))"
proof -
  let ?existing = "getBreakpointsForFile session file"
  let ?merged = "foldl merge_step ?existing L"
  let ?updated = "map_indexed (\<lambda>bp i. with_result bp (at_index results i)) ?merged"
  let ?after = "listed (snd (set_breakpoints adapter_set (Some session) file L)) file"
  note run = set_breakpoints_Inr [of adapter_set session "file" L results a, OF assms(2)]
  have before: "listed (Some session) file = ?existing"
    using assms(1) by simp
  have stored: "?after = ?updated"
    using assms(1) by (simp add: run Let_def)
  have d0: "distinct (map line ?existing)"
    using assms(4) by (simp only: before)
  have src: "toSourceBreakpoints ?updated = toSourceBreakpoints ?merged"
    by (rule updated_keeps_source [OF assms(3)])
  then have "map line (toSourceBreakpoints ?updated) = map line (toSourceBreakpoints ?merged)"
    by simp
  then have lines: "map line ?updated = map line ?merged"
    by (simp only: lines_of_source)
  have keys: "map line ?merged = map line (foldl (upsert line) ?existing (map unverified L))"
    by (simp only: foldl_merge_step_upsert)
  have img: "line ` set (map unverified L) = line ` set L"
    by (simp add: image_comp comp_def line_unverified)
  have c1: "\<exists>out. fst (set_breakpoints adapter_set (Some session) file L) = Inr out"
    by (simp add: run Let_def)
  have c2: "map_option adapter (snd (set_breakpoints adapter_set (Some session) file L)) = Some a"
    by (simp add: run Let_def)
  have c3: "toSourceBreakpoints ?after = toSourceBreakpoints ?merged"
    by (simp only: stored src)
  have c4: "distinct (map line ?after)"
    using lines_merged(1) [OF d0, of L] by (simp only: stored lines)
  have c5: "\<forall>bp\<in>set L. count_list (map line ?after) (line bp) = 1"
  proof
    fix bp assume "bp \<in> set L"
    then have "line bp \<in> set (map line ?merged)"
      using lines_merged(2) [of L ?existing] by blast
    then have "line bp \<in> set (map line ?after)"
      by (simp only: stored lines)
    with c4 show "count_list (map line ?after) (line bp) = 1"
      by (rule distinct_count_list)
  qed
  have c6: "take (length (listed (Some session) file)) (map line ?after) =
       map line (listed (Some session) file)"
    using keys_foldl_upsert_prefix [of ?existing line "map unverified L"]
    by (simp only: stored lines keys before)
  have c7: "set (map line ?after) = set (map line (listed (Some session) file)) \<union> line ` set L"
    using keys_foldl_upsert_set [of line ?existing "map unverified L"]
    by (simp only: stored lines keys before img)
  have c8: "\<forall>e\<in>set ?after.
        if line e \<in> line ` set L
        then toSourceBreakpoint e = last (filter (\<lambda>bp. line bp = line e) L)
        else \<exists>e0\<in>set (listed (Some session) file).
               toSourceBreakpoint e = toSourceBreakpoint e0"
  proof
    fix e assume "e \<in> set ?after"
    then have "toSourceBreakpoint e \<in> set (toSourceBreakpoints ?after)"
      by (simp add: toSourceBreakpoints_def)
    then have mem: "toSourceBreakpoint e \<in>
        set (foldl (upsert line) (toSourceBreakpoints ?existing) L)"
      by (simp only: c3 toSource_merged)
    have d: "distinct (map line (toSourceBreakpoints ?existing))"
      using d0 by (simp only: lines_of_source)
    from foldl_upsert_elem [OF d mem]
    have "if line e \<in> line ` set L
        then toSourceBreakpoint e = last (filter (\<lambda>bp. line bp = line e) L)
        else toSourceBreakpoint e \<in> set (toSourceBreakpoints ?existing)"
      by (simp only: line_toSourceBreakpoint)
    then show "if line e \<in> line ` set L
        then toSourceBreakpoint e = last (filter (\<lambda>bp. line bp = line e) L)
        else \<exists>e0\<in>set (listed (Some session) file).
               toSourceBreakpoint e = toSourceBreakpoint e0"
      unfolding before by (auto simp: toSourceBreakpoints_def split: if_splits)
  qed
  have c9: "\<forall>i<length ?after.
        verified (?after ! i) =
          (case at_index results i of Some r \<Rightarrow> r_verified r | None \<Rightarrow> False) \<and>
        id' (?after ! i) =
          (case at_index results i of Some r \<Rightarrow> r_id r | None \<Rightarrow> None)"
    by (simp add: stored with_result_def)
  from c1 c2 c3 c4 c5 c6 c7 c8 c9 show ?thesis by blast
qed

lemma stored_again:
  assumes "reports_requested_lines
           (toSourceBreakpoints (foldl merge_step existing L)) results"
  shows "toSourceBreakpoints (foldl merge_step
           (map_indexed (\<lambda>bp i. with_result bp (at_index results i)) (foldl merge_step existing L)) L)
         = toSourceBreakpoints (foldl merge_step existing L)"
proof -
  let ?merged = "foldl merge_step existing L"
  let ?updated = "map_indexed (\<lambda>bp i. with_result bp (at_index results i)) ?merged"
  have "toSourceBreakpoints (foldl merge_step ?updated L) =
        foldl (upsert line) (toSourceBreakpoints ?updated) L"
    by (rule toSource_merged)
  also have "\<dots> = foldl (upsert line) (toSourceBreakpoints ?merged) L"
    by (simp only: updated_keeps_source [OF assms])
  also have "\<dots> = foldl (upsert line) (foldl (upsert line) (toSourceBreakpoints existing) L) L"
    by (simp only: toSource_merged)
  also have "\<dots> = foldl (upsert line) (toSourceBreakpoints existing) L"
    by (rule foldl_upsert_idem)
  also have "\<dots> = toSourceBreakpoints ?merged"
    by (simp only: toSource_merged)
  finally show ?thesis .
qed

text \<open>
  Claim C7, amended. For every file F and request list L, when the adapter reports no
  corrected line and answers the repeated request as it answered the first, calling
  \<^verbatim>\<open>set_breakpoints(F, L)\<close> twice in succession reports the same lines, verified flags
  and conditions as calling it once, and leaves the same registry.
\<close>

theorem set_breakpoints_twice_same_report:
  assumes "adapter_set (adapter session) file
             (toSourceBreakpoints (foldl merge_step (getBreakpointsForFile session file) L))
           = (Inr results, a1)"
    and "adapter_set a1 file
             (toSourceBreakpoints (foldl merge_step (getBreakpointsForFile session file) L))
           = (Inr results, a2)"
    and "reports_requested_lines
           (toSourceBreakpoints (foldl merge_step (getBreakpointsForFile session file) L)) results"
  shows "fst (set_breakpoints adapter_set
                (snd (set_breakpoints adapter_set (Some session) file L)) file L) =
         fst (set_breakpoints adapter_set (Some session) file L) \<and>
         list_breakpoints (snd (set_breakpoints adapter_set
                (snd (set_breakpoints adapter_set (Some session) file L)) file L)) =
         list_breakpoints (snd (set_breakpoints adapter_set (Some session) file L))"
proof -
  let ?existing = "getBreakpointsForFile session file"
  let ?merged = "foldl merge_step ?existing L"
  let ?updated = "map_indexed (\<lambda>bp i. with_result bp (at_index results i)) ?merged"
  let ?s1 = "setBreakpointsForFile (session\<lparr> adapter := a1 \<rparr>) file ?updated"
  let ?merged2 = "foldl merge_step ?updated L"
  let ?updated2 = "map_indexed (\<lambda>bp i. with_result bp (at_index results i)) ?merged2"
  have once: "set_breakpoints adapter_set (Some session) file L =
      (Inr (file, map (\<lambda>bp. (line bp, verified bp, condition bp)) ?updated), Some ?s1)"
    using set_breakpoints_Inr [of adapter_set session "file" L results a1, OF assms(1)]
    by (simp add: Let_def)
  have req2: "toSourceBreakpoints ?merged2 = toSourceBreakpoints ?merged"
    by (rule stored_again [OF assms(3)])
  have "adapter_set (adapter ?s1) file
          (toSourceBreakpoints (foldl merge_step (getBreakpointsForFile ?s1 file) L))
        = (Inr results, a2)"
    using assms(2) by (simp add: req2)
  from set_breakpoints_Inr [of adapter_set ?s1 "file" L results a2, OF this]
  have twice: "set_breakpoints adapter_set (Some ?s1) file L =
      (Inr (file, map (\<lambda>bp. (line bp, verified bp, condition bp)) ?updated2),
       Some (setBreakpointsForFile (?s1\<lparr> adapter := a2 \<rparr>) file ?updated2))"
    by (simp add: Let_def)
  have same: "?updated2 = ?updated"
    by (simp only: updated_from_request [of results ?merged2] req2
        updated_from_request [of results ?merged, symmetric])
  have stored: "breakpoints (setBreakpointsForFile (?s1\<lparr> adapter := a2 \<rparr>) file ?updated) =
      breakpoints ?s1"
    by (simp add: setBreakpointsForFile_def)
  have "fst (set_breakpoints adapter_set (Some ?s1) file L) =
        Inr (file, map (\<lambda>bp. (line bp, verified bp, condition bp)) ?updated)"
    by (simp only: twice fst_conv same)
  moreover have "list_breakpoints (snd (set_breakpoints adapter_set (Some ?s1) file L)) =
      list_breakpoints (Some ?s1)"
    by (simp only: twice snd_conv same)
      (simp only: list_breakpoints_def requireActive_def getAllBreakpoints_def stored
        option.case sum.case)
  ultimately show ?thesis
    by (simp only: once fst_conv snd_conv)
qed

lemma fresh_existing:
  "getBreakpointsForFile (createSessionState i a) file = []"
  "adapter (createSessionState i a) = a"
  by (simp_all add: createSessionState_def getBreakpointsForFile_def)

lemma merged_two_lines:
  "toSourceBreakpoints (foldl merge_step [] [line_request 10, line_request 11]) =
     [line_request 10, line_request 11]"
  by (simp add: merge_step_def line_unverified line_request_def toSourceBreakpoints_def
      toSourceBreakpoint_unverified)

lemma sliding_two_lines:
  "node_setBreakpoints sliding_inspector connected_node ''/tmp/a.js''
      [line_request 10, line_request 11] =
   (Inr [\<lparr> r_id = Some 0, r_verified = True, r_line = Some 12, r_message = None \<rparr>,
         \<lparr> r_id = Some 1, r_verified = True, r_line = Some 12, r_message = None \<rparr>],
    connected_node\<lparr> cdp_seq := 3, breakpointIds := [''/tmp/a.js'' \<mapsto> [''bp'', ''bp'']],
      node_observed :=
        [Sent 1 (Debugger_setBreakpointByUrl 9 ''file:///tmp/a.js'' None None),
         Sent 2 (Debugger_setBreakpointByUrl 10 ''file:///tmp/a.js'' None None)] \<rparr>)"
  by (simp add: node_setBreakpoints_def connected_node_def sliding_inspector_def cdpSend_def
      pathToFileUrl_def line_request_def Let_def)

lemma set_breakpoints_Some:
  "set_breakpoints adapter_set (Some session) file bps =
     (let existing = getBreakpointsForFile session file;
          merged = foldl merge_step existing bps
      in case adapter_set (adapter session) file (toSourceBreakpoints merged) of
           (Inl err, a) \<Rightarrow> (Inl err, Some (session\<lparr> adapter := a \<rparr>))
         | (Inr results, a) \<Rightarrow>
             (let updated = map_indexed (\<lambda>bp i. with_result bp (at_index results i)) merged
              in (Inr (file, map (\<lambda>bp. (line bp, verified bp, condition bp)) updated),
                  Some (setBreakpointsForFile (session\<lparr> adapter := a \<rparr>) file updated))))"
  by (simp add: set_breakpoints_def requireActive_def)

lemma merged_two_lines':
  "merge_step (merge_step [] (line_request 10)) (line_request 11) =
      [unverified (line_request 10), unverified (line_request 11)]"
  by (simp add: merge_step_def line_unverified line_request_def)

text \<open>
  Claim C3 as stated fails when the adapter corrects lines: on a fresh session, with an
  inspector that resolves the requested lines 10 and 11 both at line 12, the list for the
  file has two entries at line 12 and none at line 10 or 11.
\<close>

theorem set_then_list_counterexample:
  "map line (listed (snd (set_breakpoints (node_setBreakpoints sliding_inspector)
        (Some (createSessionState ''session-1'' connected_node)) ''/tmp/a.js''
        [line_request 10, line_request 11])) ''/tmp/a.js'') = [12, 12] \<and>
   count_list [12, 12] (line (line_request 10)) = (0::nat) \<and>
   count_list [12, 12] (line (line_request 11)) = (0::nat) \<and>
   \<not> distinct [12, 12 :: int]"
proof -
  have "map line (listed (snd (set_breakpoints (node_setBreakpoints sliding_inspector)
        (Some (createSessionState ''session-1'' connected_node)) ''/tmp/a.js''
        [line_request 10, line_request 11])) ''/tmp/a.js'') = [12, 12]"
    by (simp add: set_breakpoints_Some fresh_existing merged_two_lines' Let_def
        toSourceBreakpoints_def toSourceBreakpoint_unverified sliding_two_lines
        map_indexed_def at_index_def with_result_def)
  then show ?thesis
    by (simp add: line_request_def)
qed

lemma merged_one_line:
  "merge_step [] (line_request 10) = [unverified (line_request 10)]"
  by (simp add: merge_step_def)

lemma sliding_one_line:
  "node_setBreakpoints sliding_inspector connected_node ''/tmp/a.js'' [line_request 10] =
   (Inr [\<lparr> r_id = Some 0, r_verified = True, r_line = Some 12, r_message = None \<rparr>],
    connected_node\<lparr> cdp_seq := 2, breakpointIds := [''/tmp/a.js'' \<mapsto> [''bp'']],
      node_observed :=
        [Sent 1 (Debugger_setBreakpointByUrl 9 ''file:///tmp/a.js'' None None)] \<rparr>)"
  by (simp add: node_setBreakpoints_def connected_node_def sliding_inspector_def cdpSend_def
      pathToFileUrl_def line_request_def Let_def)

lemma once_sliding:
  "set_breakpoints (node_setBreakpoints sliding_inspector)
      (Some (createSessionState ''session-1'' connected_node)) ''/tmp/a.js'' [line_request 10] =
   (Inr (''/tmp/a.js'', [(12, True, None)]),
    Some \<lparr> sid = ''session-1'',
           adapter = connected_node\<lparr> cdp_seq := 2,
             breakpointIds := [''/tmp/a.js'' \<mapsto> [''bp'']],
             node_observed :=
               [Sent 1 (Debugger_setBreakpointByUrl 9 ''file:///tmp/a.js'' None None)] \<rparr>,
           breakpoints = [''/tmp/a.js'' \<mapsto> [slid_entry]],
           stoppedThreadId = None, stoppedReason = None \<rparr>)"
  by (simp add: set_breakpoints_Some fresh_existing merged_one_line Let_def
      toSourceBreakpoints_def toSourceBreakpoint_unverified sliding_one_line
      map_indexed_def at_index_def with_result_def)
    (simp add: setBreakpointsForFile_def createSessionState_def unverified_def
      line_request_def slid_entry_def)

lemma merged_again:
  "merge_step [slid_entry] (line_request 10) = [slid_entry, unverified (line_request 10)]"
  by (simp add: merge_step_def slid_entry_def line_request_def)

text \<open>
  Claim C7 as stated fails when the adapter corrects lines: the request for line 10 is
  stored at the corrected line 12, so the repeated request for line 10 finds no stored
  entry at line 10 and is appended; the second call reports two entries where the first
  reported one.
\<close>

theorem set_breakpoints_twice_counterexample:
  "fst (set_breakpoints (node_setBreakpoints sliding_inspector)
         (Some (createSessionState ''session-1'' connected_node)) ''/tmp/a.js''
         [line_request 10]) = Inr (''/tmp/a.js'', [(12, True, None)]) \<and>
   fst (set_breakpoints (node_setBreakpoints sliding_inspector)
         (snd (set_breakpoints (node_setBreakpoints sliding_inspector)
            (Some (createSessionState ''session-1'' connected_node)) ''/tmp/a.js''
            [line_request 10])) ''/tmp/a.js''
         [line_request 10]) = Inr (''/tmp/a.js'', [(12, True, None), (12, True, None)])"
proof -
  have "fst (set_breakpoints (node_setBreakpoints sliding_inspector)
         (snd (set_breakpoints (node_setBreakpoints sliding_inspector)
            (Some (createSessionState ''session-1'' connected_node)) ''/tmp/a.js''
            [line_request 10])) ''/tmp/a.js''
         [line_request 10]) = Inr (''/tmp/a.js'', [(12, True, None), (12, True, None)])"
    apply (simp only: once_sliding snd_conv)
    apply (simp add: set_breakpoints_Some getBreakpointsForFile_def merged_again
        Let_def toSourceBreakpoints_def toSourceBreakpoint_unverified
        map_indexed_def at_index_def with_result_def)
    apply (simp add: node_setBreakpoints_def connected_node_def sliding_inspector_def cdpSend_def
      pathToFileUrl_def line_request_def Let_def slid_entry_def toSourceBreakpoint_def
      map_indexed_def at_index_def with_result_def unverified_def merge_step_def)
    done
  then show ?thesis
    by (simp add: once_sliding)
qed


lemma merged_pair:
  "toSourceBreakpoints (foldl merge_step [] [line_request 10, line_request 20]) =
     [line_request 10, line_request 20]"
  by (simp add: merge_step_def line_unverified line_request_def toSourceBreakpoints_def
      toSourceBreakpoint_unverified)

lemma exact_pair:
  "node_setBreakpoints exact_inspector connected_node ''/tmp/a.js''
      [line_request 10, line_request 20] =
   (Inr [\<lparr> r_id = Some 0, r_verified = True, r_line = Some 10, r_message = None \<rparr>,
         \<lparr> r_id = Some 1, r_verified = True, r_line = Some 20, r_message = None \<rparr>],
    connected_node\<lparr> cdp_seq := 3, breakpointIds := [''/tmp/a.js'' \<mapsto> [''bp'', ''bp'']],
      node_observed :=
        [Sent 1 (Debugger_setBreakpointByUrl 9 ''file:///tmp/a.js'' None None),
         Sent 2 (Debugger_setBreakpointByUrl 19 ''file:///tmp/a.js'' None None)] \<rparr>)"
  by (simp add: node_setBreakpoints_def connected_node_def exact_inspector_def cdpSend_def
      pathToFileUrl_def line_request_def Let_def)

lemma exact_pair_again:
  "node_setBreakpoints exact_inspector
     (connected_node\<lparr> cdp_seq := 3, breakpointIds := [''/tmp/a.js'' \<mapsto> [''bp'', ''bp'']],
      node_observed :=
        [Sent 1 (Debugger_setBreakpointByUrl 9 ''file:///tmp/a.js'' None None),
         Sent 2 (Debugger_setBreakpointByUrl 19 ''file:///tmp/a.js'' None None)] \<rparr>)
     ''/tmp/a.js'' [line_request 10, line_request 20] =
   (Inr [\<lparr> r_id = Some 0, r_verified = True, r_line = Some 10, r_message = None \<rparr>,
         \<lparr> r_id = Some 1, r_verified = True, r_line = Some 20, r_message = None \<rparr>],
    connected_node\<lparr> cdp_seq := 7, breakpointIds := [''/tmp/a.js'' \<mapsto> [''bp'', ''bp'']],
      node_observed :=
        [Sent 1 (Debugger_setBreakpointByUrl 9 ''file:///tmp/a.js'' None None),
         Sent 2 (Debugger_setBreakpointByUrl 19 ''file:///tmp/a.js'' None None),
         Sent 3 (Debugger_removeBreakpoint ''bp''),
         Sent 4 (Debugger_removeBreakpoint ''bp''),
         Sent 5 (Debugger_setBreakpointByUrl 9 ''file:///tmp/a.js'' None None),
         Sent 6 (Debugger_setBreakpointByUrl 19 ''file:///tmp/a.js'' None None)] \<rparr>)"
  by (simp add: node_setBreakpoints_def connected_node_def exact_inspector_def cdpSend_def
      pathToFileUrl_def line_request_def Let_def)

lemma exact_pair_reports:
  "reports_requested_lines [line_request 10, line_request 20]
     [\<lparr> r_id = Some 0, r_verified = True, r_line = Some 10, r_message = None \<rparr>,
      \<lparr> r_id = Some 1, r_verified = True, r_line = Some 20, r_message = None \<rparr>]"
  by (simp add: reports_requested_lines_def at_index_def line_request_def)

lemma example_existing:
  "getBreakpointsForFile example_session ''/tmp/a.js'' =
     [(unverified (line_request 2))\<lparr> verified := True \<rparr>]"
  by (simp add: getBreakpointsForFile_def example_session_def)

lemma merged_replace_append:
  "foldl merge_step [(unverified (line_request 2))\<lparr> verified := True \<rparr>]
      [conditional_request 2 ''x > 1'', line_request 10] =
     [unverified (conditional_request 2 ''x > 1''), unverified (line_request 10)]"
  by (simp add: merge_step_def unverified_def line_request_def conditional_request_def)

lemma request_replace_append:
  "toSourceBreakpoints (foldl merge_step (getBreakpointsForFile example_session ''/tmp/a.js'')
      [conditional_request 2 ''x > 1'', line_request 10]) =
     [conditional_request 2 ''x > 1'', line_request 10]"
  by (simp only: example_existing merged_replace_append)
     (simp add: toSourceBreakpoints_def toSourceBreakpoint_unverified)

lemma exact_replace_append:
  "node_setBreakpoints exact_inspector (adapter example_session) ''/tmp/a.js''
      [conditional_request 2 ''x > 1'', line_request 10] =
   (Inr [\<lparr> r_id = Some 0, r_verified = True, r_line = Some 2, r_message = None \<rparr>,
         \<lparr> r_id = Some 1, r_verified = True, r_line = Some 10, r_message = None \<rparr>],
    connected_node\<lparr> cdp_seq := 4, breakpointIds := [''/tmp/a.js'' \<mapsto> [''bp'', ''bp'']],
      node_observed :=
        [Sent 1 (Debugger_removeBreakpoint ''bp''),
         Sent 2 (Debugger_setBreakpointByUrl 1 ''file:///tmp/a.js'' None (Some ''x > 1'')),
         Sent 3 (Debugger_setBreakpointByUrl 9 ''file:///tmp/a.js'' None None)] \<rparr>)"
  by (simp add: node_setBreakpoints_def example_session_def connected_node_def
      exact_inspector_def cdpSend_def pathToFileUrl_def line_request_def
      conditional_request_def Let_def)

lemma exact_replace_append_reports:
  "reports_requested_lines [conditional_request 2 ''x > 1'', line_request 10]
     [\<lparr> r_id = Some 0, r_verified = True, r_line = Some 2, r_message = None \<rparr>,
      \<lparr> r_id = Some 1, r_verified = True, r_line = Some 10, r_message = None \<rparr>]"
  by (simp add: reports_requested_lines_def at_index_def line_request_def
      conditional_request_def)

lemma example_listed:
  "listed (Some example_session) ''/tmp/a.js'' =
     [(unverified (line_request 2))\<lparr> verified := True \<rparr>]"
  by (simp add: example_existing)

theorem set_then_list_one_entry_per_line_witness:
  "map (\<lambda>e. (line e, condition e, verified e, id' e))
     (listed (Some example_session) ''/tmp/a.js'') = [(2, None, True, None)] \<and>
   map (\<lambda>e. (line e, condition e, verified e, id' e))
     (listed (snd (set_breakpoints (node_setBreakpoints exact_inspector)
        (Some example_session) ''/tmp/a.js''
        [conditional_request 2 ''x > 1'', line_request 10])) ''/tmp/a.js'') =
     [(2, Some ''x > 1'', True, Some 0), (10, None, True, Some 1)] \<and>
   distinct (map line (listed (snd (set_breakpoints (node_setBreakpoints exact_inspector)
        (Some example_session) ''/tmp/a.js''
        [conditional_request 2 ''x > 1'', line_request 10])) ''/tmp/a.js'')) \<and>
   count_list (map line (listed (snd (set_breakpoints (node_setBreakpoints exact_inspector)
        (Some example_session) ''/tmp/a.js''
        [conditional_request 2 ''x > 1'', line_request 10])) ''/tmp/a.js'')) 2 = 1 \<and>
   count_list (map line (listed (snd (set_breakpoints (node_setBreakpoints exact_inspector)
        (Some example_session) ''/tmp/a.js''
        [conditional_request 2 ''x > 1'', line_request 10])) ''/tmp/a.js'')) 10 = 1 \<and>
   take 1 (map line (listed (snd (set_breakpoints (node_setBreakpoints exact_inspector)
        (Some example_session) ''/tmp/a.js''
        [conditional_request 2 ''x > 1'', line_request 10])) ''/tmp/a.js'')) = [2]"
proof -
  let ?L = "[conditional_request 2 ''x > 1'', line_request 10]"
  let ?after = "listed (snd (set_breakpoints (node_setBreakpoints exact_inspector)
        (Some example_session) ''/tmp/a.js'' ?L)) ''/tmp/a.js''"
  have h1: "''/tmp/a.js'' \<noteq> ''__proto__''" by simp
  have h2: "node_setBreakpoints exact_inspector (adapter example_session) ''/tmp/a.js''
      (toSourceBreakpoints (foldl merge_step
         (getBreakpointsForFile example_session ''/tmp/a.js'') ?L)) =
      (Inr [\<lparr> r_id = Some 0, r_verified = True, r_line = Some 2, r_message = None \<rparr>,
         \<lparr> r_id = Some 1, r_verified = True, r_line = Some 10, r_message = None \<rparr>],
    connected_node\<lparr> cdp_seq := 4, breakpointIds := [''/tmp/a.js'' \<mapsto> [''bp'', ''bp'']],
      node_observed :=
        [Sent 1 (Debugger_removeBreakpoint ''bp''),
         Sent 2 (Debugger_setBreakpointByUrl 1 ''file:///tmp/a.js'' None (Some ''x > 1'')),
         Sent 3 (Debugger_setBreakpointByUrl 9 ''file:///tmp/a.js'' None None)] \<rparr>)"
    by (simp only: request_replace_append exact_replace_append)
  have h3: "reports_requested_lines
      (toSourceBreakpoints (foldl merge_step
         (getBreakpointsForFile example_session ''/tmp/a.js'') ?L))
      [\<lparr> r_id = Some 0, r_verified = True, r_line = Some 2, r_message = None \<rparr>,
       \<lparr> r_id = Some 1, r_verified = True, r_line = Some 10, r_message = None \<rparr>]"
    by (simp only: request_replace_append exact_replace_append_reports)
  have h4: "distinct (map line (listed (Some example_session) ''/tmp/a.js''))"
    by (simp only: example_listed) simp
  note t = set_then_list_one_entry_per_line
    [of "''/tmp/a.js''" "node_setBreakpoints exact_inspector" example_session ?L, OF h1 h2 h3 h4]
  have before: "map (\<lambda>e. (line e, condition e, verified e, id' e))
     (listed (Some example_session) ''/tmp/a.js'') = [(2, None, True, None)]"
    by (simp only: example_listed) (simp add: unverified_def line_request_def)
  have l: "line (conditional_request 2 ''x > 1'') = 2" "line (line_request 10) = 10"
    by (simp_all add: line_request_def conditional_request_def)
  from t have d: "distinct (map line ?after)" by blast
  from t l have c: "count_list (map line ?after) 2 = 1" "count_list (map line ?after) 10 = 1"
    by auto
  from t have p: "take (length (listed (Some example_session) ''/tmp/a.js'')) (map line ?after) =
       map line (listed (Some example_session) ''/tmp/a.js'')"
    by blast
  have p': "take 1 (map line ?after) = [2]"
    using p by (simp only: example_listed) (simp add: unverified_def line_request_def)
  have after: "map (\<lambda>e. (line e, condition e, verified e, id' e)) ?after =
     [(2, Some ''x > 1'', True, Some 0), (10, None, True, Some 1)]"
    apply (simp add: set_breakpoints_Some Let_def)
    apply (simp add: node_setBreakpoints_def example_session_def connected_node_def
      exact_inspector_def cdpSend_def pathToFileUrl_def line_request_def
      conditional_request_def Let_def toSourceBreakpoint_def toSourceBreakpoints_def
      map_indexed_def at_index_def with_result_def unverified_def merge_step_def
      getBreakpointsForFile_def setBreakpointsForFile_def)
    done
  from before after d c p' show ?thesis by blast
qed

theorem set_breakpoints_twice_same_report_witness:
  "fst (set_breakpoints (node_setBreakpoints exact_inspector)
         (snd (set_breakpoints (node_setBreakpoints exact_inspector)
            (Some (createSessionState ''session-1'' connected_node)) ''/tmp/a.js''
            [line_request 10, line_request 20])) ''/tmp/a.js''
         [line_request 10, line_request 20]) =
   fst (set_breakpoints (node_setBreakpoints exact_inspector)
         (Some (createSessionState ''session-1'' connected_node)) ''/tmp/a.js''
         [line_request 10, line_request 20]) \<and>
   list_breakpoints (snd (set_breakpoints (node_setBreakpoints exact_inspector)
         (snd (set_breakpoints (node_setBreakpoints exact_inspector)
            (Some (createSessionState ''session-1'' connected_node)) ''/tmp/a.js''
            [line_request 10, line_request 20])) ''/tmp/a.js''
         [line_request 10, line_request 20])) =
   list_breakpoints (snd (set_breakpoints (node_setBreakpoints exact_inspector)
         (Some (createSessionState ''session-1'' connected_node)) ''/tmp/a.js''
         [line_request 10, line_request 20])) \<and>
   map line (listed (snd (set_breakpoints (node_setBreakpoints exact_inspector)
         (Some (createSessionState ''session-1'' connected_node)) ''/tmp/a.js''
         [line_request 10, line_request 20])) ''/tmp/a.js'') = [10, 20]"
proof -
  let ?s0 = "createSessionState ''session-1'' connected_node"
  let ?L = "[line_request 10, line_request 20]"
  have h1: "node_setBreakpoints exact_inspector (adapter ?s0) ''/tmp/a.js''
      (toSourceBreakpoints (foldl merge_step (getBreakpointsForFile ?s0 ''/tmp/a.js'') ?L)) =
      (Inr [\<lparr> r_id = Some 0, r_verified = True, r_line = Some 10, r_message = None \<rparr>,
         \<lparr> r_id = Some 1, r_verified = True, r_line = Some 20, r_message = None \<rparr>],
    connected_node\<lparr> cdp_seq := 3, breakpointIds := [''/tmp/a.js'' \<mapsto> [''bp'', ''bp'']],
      node_observed :=
        [Sent 1 (Debugger_setBreakpointByUrl 9 ''file:///tmp/a.js'' None None),
         Sent 2 (Debugger_setBreakpointByUrl 19 ''file:///tmp/a.js'' None None)] \<rparr>)"
    by (simp only: fresh_existing merged_pair exact_pair)
  have h2: "node_setBreakpoints exact_inspector
     (connected_node\<lparr> cdp_seq := 3, breakpointIds := [''/tmp/a.js'' \<mapsto> [''bp'', ''bp'']],
      node_observed :=
        [Sent 1 (Debugger_setBreakpointByUrl 9 ''file:///tmp/a.js'' None None),
         Sent 2 (Debugger_setBreakpointByUrl 19 ''file:///tmp/a.js'' None None)] \<rparr>)
     ''/tmp/a.js''
      (toSourceBreakpoints (foldl merge_step (getBreakpointsForFile ?s0 ''/tmp/a.js'') ?L)) =
      (Inr [\<lparr> r_id = Some 0, r_verified = True, r_line = Some 10, r_message = None \<rparr>,
         \<lparr> r_id = Some 1, r_verified = True, r_line = Some 20, r_message = None \<rparr>],
    connected_node\<lparr> cdp_seq := 7, breakpointIds := [''/tmp/a.js'' \<mapsto> [''bp'', ''bp'']],
      node_observed :=
        [Sent 1 (Debugger_setBreakpointByUrl 9 ''file:///tmp/a.js'' None None),
         Sent 2 (Debugger_setBreakpointByUrl 19 ''file:///tmp/a.js'' None None),
         Sent 3 (Debugger_removeBreakpoint ''bp''),
         Sent 4 (Debugger_removeBreakpoint ''bp''),
         Sent 5 (Debugger_setBreakpointByUrl 9 ''file:///tmp/a.js'' None None),
         Sent 6 (Debugger_setBreakpointByUrl 19 ''file:///tmp/a.js'' None None)] \<rparr>)"
    by (simp only: fresh_existing merged_pair exact_pair_again)
  have h3: "reports_requested_lines
      (toSourceBreakpoints (foldl merge_step (getBreakpointsForFile ?s0 ''/tmp/a.js'') ?L))
      [\<lparr> r_id = Some 0, r_verified = True, r_line = Some 10, r_message = None \<rparr>,
       \<lparr> r_id = Some 1, r_verified = True, r_line = Some 20, r_message = None \<rparr>]"
    by (simp only: fresh_existing merged_pair exact_pair_reports)
  note t = set_breakpoints_twice_same_report
    [of "node_setBreakpoints exact_inspector" ?s0 "''/tmp/a.js''" ?L, OF h1 h2 h3]
  have lines: "map line (listed (snd (set_breakpoints (node_setBreakpoints exact_inspector)
         (Some ?s0) ''/tmp/a.js'' ?L)) ''/tmp/a.js'') = [10, 20]"
    apply (simp add: set_breakpoints_Some fresh_existing Let_def)
    apply (simp add: node_setBreakpoints_def connected_node_def exact_inspector_def cdpSend_def
      pathToFileUrl_def line_request_def Let_def toSourceBreakpoint_def toSourceBreakpoints_def
      map_indexed_def at_index_def with_result_def unverified_def merge_step_def)
    done
  from t lines show ?thesis by simp
qed

section \<open>Properties of the DAP correlator\<close>


lemma settled_once_buffer [simp]: "settled_once (c\<lparr> buffer := b \<rparr>) = settled_once c"
  by (simp add: settled_once_def)






lemma settlements_append [simp]:
  "settlements (c\<lparr> settled := settled c @ xs \<rparr>) s =
     settlements c s @ map snd (filter (\<lambda>p. fst p = s) xs)"
  by (simp add: settlements_def)





lemma settlements_buffer [simp]: "settlements (c\<lparr> buffer := b \<rparr>) s = settlements c s"
  by (simp add: settlements_def)






section \<open>Properties of the DAP decoder\<close>























lemma indexOf_None_empty: "indexOf [] CRLFCRLF = None"
  by (simp add: CRLFCRLF_def)



lemma length_CRLFCRLF [simp]: "length CRLFCRLF = 4"
  by (simp add: CRLFCRLF_def)







lemma decode_incomplete:
  assumes "indexOf (buffer c) CRLFCRLF = Some k"
    and "content_length_match (take k (buffer c)) = Some ds"
    and "length (buffer c) < k + 4 + parseInt ds"
  shows "decode parse c = c"
  by (subst decode.simps) (simp add: assms)













section \<open>Settling of pending requests\<close>






section \<open>Properties of resuming\<close>

lemma node_resume_unfold:
  "node_resume op a t =
     (case waitForPause a of
        (pausePromise, a1) \<Rightarrow>
          (case cdpSend a1 (node_resume_call op) of
             (Inl err, a2) \<Rightarrow> (Inl err, a2)
           | (Inr u, a2) \<Rightarrow> (Inr pausePromise, a2)))"
  by (cases op)
    (simp_all add: node_continue_def node_stepOver_def node_stepIn_def node_stepOut_def)

lemma py_resume_unfold:
  "py_resume op stringify a t =
     (if client a = None then (Inl ''Not connected'', a)
      else (case waitForStop a of
              (stopPromise, a1) \<Rightarrow>
                (Inr stopPromise,
                 client_request stringify a1 (py_resume_command op)
                   (Some (thread_arguments (case t of Some x \<Rightarrow> x | None \<Rightarrow> threadId a1))))))"
  by (cases op)
    (simp_all add: py_continue_def py_stepOver_def py_stepIn_def py_stepOut_def)

lemma node_resume_connected:
  assumes "ws a"
  shows "node_resume op a t =
     (Inr (node_fresh a),
      a\<lparr> node_stoppedCallbacks := node_stoppedCallbacks a @ [PauseListener (node_fresh a)],
         node_exitListeners :=
           (if node_process a then node_exitListeners a @ [node_fresh a]
            else node_exitListeners a),
         node_fresh := node_fresh a + 1,
         cdp_seq := cdp_seq a + 1,
         node_observed := node_observed a @
           [Registered (PauseListener (node_fresh a)), Sent (cdp_seq a) (node_resume_call op)] \<rparr>)"
  using assms by (simp add: node_resume_unfold waitForPause_def cdpSend_def)

lemma node_resume_disconnected:
  assumes "\<not> ws a"
  shows "node_resume op a t =
     (Inl ''Not connected'',
      a\<lparr> node_stoppedCallbacks := node_stoppedCallbacks a @ [PauseListener (node_fresh a)],
         node_exitListeners :=
           (if node_process a then node_exitListeners a @ [node_fresh a]
            else node_exitListeners a),
         node_fresh := node_fresh a + 1,
         node_observed := node_observed a @ [Registered (PauseListener (node_fresh a))] \<rparr>)"
  using assms by (simp add: node_resume_unfold waitForPause_def cdpSend_def)

lemma py_resume_connected:
  assumes "client a = Some c"
  shows "py_resume op stringify a t =
     (Inr (fresh a),
      a\<lparr> stoppedCallbacks := stoppedCallbacks a @ [PauseListener (fresh a)],
         client := Some ((on c ''terminated'' (fresh a))
           \<lparr> seq := seq c + 1, pending := map_set (pending c) (seq c),
             written := written c @
               [frame (stringify (seq c) (py_resume_command op)
                  (Some (thread_arguments (case t of Some x \<Rightarrow> x | None \<Rightarrow> threadId a))))] \<rparr>),
         exitListeners := (if process a then exitListeners a @ [fresh a] else exitListeners a),
         fresh := fresh a + 1,
         observed := observed a @
           [Registered (PauseListener (fresh a)), Sent (seq c) (py_resume_command op)] \<rparr>)"
  using assms
  by (cases t)
    (simp_all add: py_resume_unfold waitForStop_def client_request_def sendRequest_def Let_def
      on_def frame_def)

text \<open>
  Claim C1. For every operation that resumes the debuggee (continue, step over, step in,
  step out), on both adapters, the pause listener is registered in the adapter's
  \<^verbatim>\<open>stoppedCallbacks\<close> strictly before the resume command is written to the wire: what
  the operation adds to the observer's log is the registration followed by the write, and
  the listener is in the list after the write. When the transport is missing nothing is
  written (the node adapter has registered its listener by then, the python adapter
  throws before).
\<close>

theorem listener_registered_before_resume_written:
  "(ws a \<longrightarrow>
      fst (node_resume op a t) = Inr (node_fresh a) \<and>
      node_observed (snd (node_resume op a t)) =
        node_observed a @
          [Registered (PauseListener (node_fresh a)), Sent (cdp_seq a) (node_resume_call op)] \<and>
      PauseListener (node_fresh a) \<in> set (node_stoppedCallbacks (snd (node_resume op a t)))) \<and>
   (\<not> ws a \<longrightarrow>
      fst (node_resume op a t) = Inl ''Not connected'' \<and>
      node_observed (snd (node_resume op a t)) =
        node_observed a @ [Registered (PauseListener (node_fresh a))]) \<and>
   (\<forall>c. client b = Some c \<longrightarrow>
      fst (py_resume op stringify b t) = Inr (fresh b) \<and>
      observed (snd (py_resume op stringify b t)) =
        observed b @
          [Registered (PauseListener (fresh b)), Sent (seq c) (py_resume_command op)] \<and>
      PauseListener (fresh b) \<in> set (stoppedCallbacks (snd (py_resume op stringify b t))) \<and>
      map_option written (client (snd (py_resume op stringify b t))) =
        Some (written c @
               [frame (stringify (seq c) (py_resume_command op)
                  (Some (thread_arguments
                     (case t of Some x \<Rightarrow> x | None \<Rightarrow> threadId b))))])) \<and>
   (client b = None \<longrightarrow> py_resume op stringify b t = (Inl ''Not connected'', b))"
proof (intro conjI impI allI)
  assume "ws a"
  note r = node_resume_connected [OF this, of op t]
  show "fst (node_resume op a t) = Inr (node_fresh a)" by (simp add: r)
  show "node_observed (snd (node_resume op a t)) =
        node_observed a @
          [Registered (PauseListener (node_fresh a)), Sent (cdp_seq a) (node_resume_call op)]"
    by (simp add: r)
  show "PauseListener (node_fresh a) \<in> set (node_stoppedCallbacks (snd (node_resume op a t)))"
    by (simp add: r)
next
  assume "\<not> ws a"
  note r = node_resume_disconnected [OF this, of op t]
  show "fst (node_resume op a t) = Inl ''Not connected''" by (simp add: r)
  show "node_observed (snd (node_resume op a t)) =
        node_observed a @ [Registered (PauseListener (node_fresh a))]"
    by (simp add: r)
next
  fix c assume "client b = Some c"
  note r = py_resume_connected [OF this, of op stringify t]
  show "fst (py_resume op stringify b t) = Inr (fresh b)" by (simp add: r)
  show "observed (snd (py_resume op stringify b t)) =
        observed b @
          [Registered (PauseListener (fresh b)), Sent (seq c) (py_resume_command op)]"
    by (simp add: r)
  show "PauseListener (fresh b) \<in> set (stoppedCallbacks (snd (py_resume op stringify b t)))"
    by (simp add: r)
  show "map_option written (client (snd (py_resume op stringify b t))) =
        Some (written c @
               [frame (stringify (seq c) (py_resume_command op)
                  (Some (thread_arguments
                     (case t of Some x \<Rightarrow> x | None \<Rightarrow> threadId b))))])"
    by (simp add: r)
next
  assume "client b = None"
  then show "py_resume op stringify b t = (Inl ''Not connected'', b)"
    by (simp add: py_resume_unfold)
qed


theorem listener_registered_before_resume_written_witness:
  "ws connected_node \<and>
   node_observed (snd (node_resume Continue connected_node None)) =
     [Registered (PauseListener 0), Sent 1 Debugger_resume] \<and>
   map_option seq (client connected_python) = Some 4 \<and>
   observed (snd (py_resume StepOver command_only connected_python None)) =
     [Registered (PauseListener 0), Sent 4 ''next'']"
proof -
  note t = listener_registered_before_resume_written
    [of connected_node Continue None connected_python command_only]
  have w: "ws connected_node" by (simp add: connected_node_def)
  from t w have n: "node_observed (snd (node_resume Continue connected_node None)) =
        node_observed connected_node @
          [Registered (PauseListener (node_fresh connected_node)),
           Sent (cdp_seq connected_node) (node_resume_call Continue)]"
    by blast
  have n': "node_observed (snd (node_resume Continue connected_node None)) =
     [Registered (PauseListener 0), Sent 1 Debugger_resume]"
    unfolding n by (simp add: connected_node_def)
  note u = listener_registered_before_resume_written
    [of connected_node StepOver None connected_python command_only]
  have c: "client connected_python =
      Some (new_DapClient\<lparr> seq := 4, eventHandlers := [''stopped'' \<mapsto> [0]], connected := True \<rparr>)"
    by (simp add: connected_python_def)
  from u c have p: "observed (snd (py_resume StepOver command_only connected_python None)) =
        observed connected_python @
          [Registered (PauseListener (fresh connected_python)),
           Sent (seq (new_DapClient\<lparr> seq := 4, eventHandlers := [''stopped'' \<mapsto> [0]],
                                     connected := True \<rparr>))
             (py_resume_command StepOver)]"
    by blast
  have p': "observed (snd (py_resume StepOver command_only connected_python None)) =
     [Registered (PauseListener 0), Sent 4 ''next'']"
    unfolding p by (simp add: connected_python_def)
  show ?thesis
    using w n' p' by (simp add: c)
qed

section \<open>Properties of the variables request\<close>




section \<open>Properties of the stopped fields\<close>

subsection \<open>The node adapter\<close>

lemma node_call_listener_first:
  assumes "node_stoppedCallbacks (adapter w) = SessionTracker # rest"
  shows "\<exists>rest'. node_stoppedCallbacks (adapter (node_call_listener cb info w)) =
           SessionTracker # rest'"
  using assms by (cases cb) (simp_all add: track_stopped_def node_cleanup_def)

lemma node_call_listener_keeps:
  assumes "stoppedThreadId w = info_threadId info" "stoppedReason w = Some (reason info)"
  shows "stoppedThreadId (node_call_listener cb info w) = info_threadId info \<and>
         stoppedReason (node_call_listener cb info w) = Some (reason info)"
  using assms by (cases cb) (simp_all add: track_stopped_def)

lemma node_call_listeners_keeps:
  assumes "stoppedThreadId w = info_threadId info" "stoppedReason w = Some (reason info)"
    and "\<exists>rest. node_stoppedCallbacks (adapter w) = SessionTracker # rest"
  shows "stoppedThreadId (node_call_listeners info i w) = info_threadId info \<and>
         stoppedReason (node_call_listeners info i w) = Some (reason info) \<and>
         (\<exists>rest. node_stoppedCallbacks (adapter (node_call_listeners info i w)) =
            SessionTracker # rest)"
  using assms
proof (induction info i w rule: node_call_listeners.induct)
  case (1 info i w)
  show ?case
  proof (cases "i < length (node_stoppedCallbacks (adapter w))")
    case True
    let ?w = "node_call_listener (node_stoppedCallbacks (adapter w) ! i) info w"
    from "1.prems"(3) obtain rest where "node_stoppedCallbacks (adapter w) = SessionTracker # rest"
      by blast
    then have a: "\<exists>rest'. node_stoppedCallbacks (adapter ?w) = SessionTracker # rest'"
      by (rule node_call_listener_first)
    from node_call_listener_keeps [OF "1.prems"(1,2)]
    have b: "stoppedThreadId ?w = info_threadId info" "stoppedReason ?w = Some (reason info)"
      by simp_all
    from "1.IH" [OF True b a] True show ?thesis
      by (simp add: node_call_listeners.simps [of info i w])
  next
    case False
    with "1.prems" show ?thesis by (simp add: node_call_listeners.simps [of info i w])
  qed
qed

lemma node_call_listeners_tracker_first:
  assumes "node_stoppedCallbacks (adapter w) = SessionTracker # rest"
  shows "stoppedThreadId (node_call_listeners info 0 w) = info_threadId info \<and>
         stoppedReason (node_call_listeners info 0 w) = Some (reason info) \<and>
         (\<exists>rest. node_stoppedCallbacks (adapter (node_call_listeners info 0 w)) =
            SessionTracker # rest)"
proof -
  have "node_call_listeners info 0 w = node_call_listeners info 1 (track_stopped info w)"
    using assms by (simp add: node_call_listeners.simps [of info 0 w])
  moreover have "stoppedThreadId (track_stopped info w) = info_threadId info"
    "stoppedReason (track_stopped info w) = Some (reason info)"
    "\<exists>rest. node_stoppedCallbacks (adapter (track_stopped info w)) = SessionTracker # rest"
    using assms by (simp_all add: track_stopped_def)
  ultimately show ?thesis
    using node_call_listeners_keeps [of "track_stopped info w" info 1] by simp
qed

lemma node_cleanups_first:
  "node_stoppedCallbacks a = SessionTracker # rest \<Longrightarrow>
   \<exists>rest'. node_stoppedCallbacks (foldl (\<lambda>a n. node_cleanup n a) a ns) = SessionTracker # rest'"
proof (induction ns arbitrary: a rest)
  case Nil
  then show ?case by simp
next
  case (Cons n ns)
  have "node_stoppedCallbacks (node_cleanup n a) =
      SessionTracker # remove1 (PauseListener n) rest"
    using Cons.prems by (simp add: node_cleanup_def)
  from Cons.IH [OF this] show ?case by simp
qed

lemma resume_tool_Some:
  "resume_tool op adapter_op (Some w) t =
     (fst (adapter_op (adapter w) t), Some (w\<lparr> adapter := snd (adapter_op (adapter w) t) \<rparr>))"
  by (cases op)
    (simp_all add: continue_execution_def step_over_def step_into_def step_out_def
      requireActive_def split: prod.splits)

lemma node_resume_callbacks:
  "node_stoppedCallbacks (snd (node_resume op a t)) =
     node_stoppedCallbacks a @ [PauseListener (node_fresh a)]"
  by (cases "ws a") (simp_all add: node_resume_connected node_resume_disconnected)

lemma node_start_callbacks:
  "node_stoppedCallbacks (node_start a) =
     node_stoppedCallbacks a @ [PauseListener (node_fresh a)]"
  by (simp add: node_start_def waitForPause_def cdpSend_def)

lemma node_turn_step:
  assumes "node_stoppedCallbacks (adapter w) = SessionTracker # rest"
  shows "(stoppedThreadId (node_turn i w), stoppedReason (node_turn i w)) =
           (case node_stop i of Some f \<Rightarrow> f | None \<Rightarrow> (stoppedThreadId w, stoppedReason w)) \<and>
         (\<exists>rest'. node_stoppedCallbacks (adapter (node_turn i w)) = SessionTracker # rest')"
proof (cases i)
  case Node_started
  with assms show ?thesis by (simp add: node_start_callbacks)
next
  case (Node_call op t)
  with assms show ?thesis
    by (simp add: resume_tool_Some node_resume_callbacks)
next
  case (Node_paused r)
  let ?r = "case r of Some x \<Rightarrow> x | None \<Rightarrow> ''breakpoint''"
  let ?info = "\<lparr> reason = ?r, info_threadId = Some 1, description = None \<rparr>"
  let ?w = "w\<lparr> adapter := (adapter w)\<lparr> pausedReason := ?r \<rparr> \<rparr>"
  have "node_stoppedCallbacks (adapter ?w) = SessionTracker # rest"
    using assms by simp
  from node_call_listeners_tracker_first [OF this, of ?info] Node_paused
  show ?thesis by (simp add: node_onPaused_def Let_def)
next
  case Node_exited
  from node_cleanups_first [OF assms, of "node_exitListeners (adapter w)"] Node_exited
  show ?thesis by (simp add: node_process_exit_def)
next
  case (Node_timeout n)
  with assms show ?thesis by (simp add: node_timer_def node_cleanup_def)
next
  case Node_closed
  with assms show ?thesis by (simp add: node_onclose_def)
qed

lemma node_run_fields:
  "node_stoppedCallbacks (adapter w) = SessionTracker # rest \<Longrightarrow>
   (stoppedThreadId (node_run inputs w), stoppedReason (node_run inputs w)) =
     latest node_stop inputs (stoppedThreadId w, stoppedReason w) \<and>
   (\<exists>rest'. node_stoppedCallbacks (adapter (node_run inputs w)) = SessionTracker # rest')"
proof (induction inputs arbitrary: w rest)
  case Nil
  then show ?case by simp
next
  case (Cons i inputs)
  from node_turn_step [OF Cons.prems, of i]
  obtain rest' where
    f: "(stoppedThreadId (node_turn i w), stoppedReason (node_turn i w)) =
           (case node_stop i of Some f \<Rightarrow> f | None \<Rightarrow> (stoppedThreadId w, stoppedReason w))"
    and c: "node_stoppedCallbacks (adapter (node_turn i w)) = SessionTracker # rest'"
    by blast
  from Cons.IH [OF c] f show ?case by simp
qed

subsection \<open>The python adapter\<close>

lemma py_call_listener_first:
  assumes "stoppedCallbacks (adapter w) = SessionTracker # rest"
  shows "\<exists>rest'. stoppedCallbacks (adapter (py_call_listener stringify cb info w)) =
           SessionTracker # rest'"
  using assms by (cases cb) (simp_all add: track_stopped_def py_cleanup_def)

lemma py_call_listener_keeps:
  assumes "stoppedThreadId w = info_threadId info" "stoppedReason w = Some (reason info)"
  shows "stoppedThreadId (py_call_listener stringify cb info w) = info_threadId info \<and>
         stoppedReason (py_call_listener stringify cb info w) = Some (reason info)"
  using assms by (cases cb) (simp_all add: track_stopped_def)

lemma py_call_listeners_keeps:
  assumes "stoppedThreadId w = info_threadId info" "stoppedReason w = Some (reason info)"
    and "\<exists>rest. stoppedCallbacks (adapter w) = SessionTracker # rest"
  shows "stoppedThreadId (py_call_listeners stringify info i w) = info_threadId info \<and>
         stoppedReason (py_call_listeners stringify info i w) = Some (reason info) \<and>
         (\<exists>rest. stoppedCallbacks (adapter (py_call_listeners stringify info i w)) =
            SessionTracker # rest)"
  using assms
proof (induction stringify info i w rule: py_call_listeners.induct)
  case (1 stringify info i w)
  show ?case
  proof (cases "i < length (stoppedCallbacks (adapter w))")
    case True
    let ?w = "py_call_listener stringify (stoppedCallbacks (adapter w) ! i) info w"
    from "1.prems"(3) obtain rest where "stoppedCallbacks (adapter w) = SessionTracker # rest"
      by blast
    then have a: "\<exists>rest'. stoppedCallbacks (adapter ?w) = SessionTracker # rest'"
      by (rule py_call_listener_first)
    from py_call_listener_keeps [OF "1.prems"(1,2)]
    have b: "stoppedThreadId ?w = info_threadId info" "stoppedReason ?w = Some (reason info)"
      by simp_all
    from "1.IH" [OF True b a] True show ?thesis
      by (simp add: py_call_listeners.simps [of stringify info i w])
  next
    case False
    with "1.prems" show ?thesis by (simp add: py_call_listeners.simps [of stringify info i w])
  qed
qed

lemma py_call_listeners_tracker_first:
  assumes "stoppedCallbacks (adapter w) = SessionTracker # rest"
  shows "stoppedThreadId (py_call_listeners stringify info 0 w) = info_threadId info \<and>
         stoppedReason (py_call_listeners stringify info 0 w) = Some (reason info) \<and>
         (\<exists>rest. stoppedCallbacks (adapter (py_call_listeners stringify info 0 w)) =
            SessionTracker # rest)"
proof -
  have "py_call_listeners stringify info 0 w =
        py_call_listeners stringify info 1 (track_stopped info w)"
    using assms by (simp add: py_call_listeners.simps [of stringify info 0 w])
  moreover have "stoppedThreadId (track_stopped info w) = info_threadId info"
    "stoppedReason (track_stopped info w) = Some (reason info)"
    "\<exists>rest. stoppedCallbacks (adapter (track_stopped info w)) = SessionTracker # rest"
    using assms by (simp_all add: track_stopped_def)
  ultimately show ?thesis
    using py_call_listeners_keeps [of "track_stopped info w" info stringify 1] by simp
qed

lemma py_cleanups_first:
  "stoppedCallbacks a = SessionTracker # rest \<Longrightarrow>
   \<exists>rest'. stoppedCallbacks (foldl (\<lambda>a n. py_cleanup n a) a ns) = SessionTracker # rest'"
proof (induction ns arbitrary: a rest)
  case Nil
  then show ?case by simp
next
  case (Cons n ns)
  have "stoppedCallbacks (py_cleanup n a) = SessionTracker # remove1 (PauseListener n) rest"
    using Cons.prems by (simp add: py_cleanup_def)
  from Cons.IH [OF this] show ?case by simp
qed

lemma py_resume_callbacks:
  "\<exists>more. stoppedCallbacks (snd (py_resume op stringify a t)) = stoppedCallbacks a @ more"
  by (simp add: py_resume_unfold waitForStop_def)

lemma py_start_callbacks:
  "stoppedCallbacks (py_start stringify launch_arguments a) =
     stoppedCallbacks a @ [PauseListener (fresh a)]"
  by (simp add: py_start_def waitForStop_def)

lemma python_turn_step:
  assumes "stoppedCallbacks (adapter w) = SessionTracker # rest"
  shows "(stoppedThreadId (python_turn stringify i w), stoppedReason (python_turn stringify i w)) =
           (case python_stop i of Some f \<Rightarrow> f
            | None \<Rightarrow> (stoppedThreadId w, stoppedReason w)) \<and>
         (\<exists>rest'. stoppedCallbacks (adapter (python_turn stringify i w)) =
            SessionTracker # rest')"
proof (cases i)
  case (Py_started launch_arguments)
  with assms show ?thesis by (simp add: py_start_callbacks)
next
  case (Py_call op t)
  from py_resume_callbacks [of op stringify "adapter w" t]
  obtain more where "stoppedCallbacks (snd (py_resume op stringify (adapter w) t)) =
      stoppedCallbacks (adapter w) @ more"
    by blast
  with assms Py_call show ?thesis
    by (simp add: resume_tool_Some)
next
  case (Py_stopped t r d)
  let ?t = "case t of Some x \<Rightarrow> x | None \<Rightarrow> 1"
  let ?info = "\<lparr> reason = (case r of Some x \<Rightarrow> x | None \<Rightarrow> ''breakpoint''),
                  info_threadId = Some ?t, description = d \<rparr>"
  let ?w = "w\<lparr> adapter := (adapter w)\<lparr> threadId := ?t \<rparr> \<rparr>"
  have "stoppedCallbacks (adapter ?w) = SessionTracker # rest"
    using assms by simp
  from py_call_listeners_tracker_first [OF this, of stringify ?info] Py_stopped
  show ?thesis by (simp add: py_stopped_event_def Let_def)
next
  case Py_terminated
  let ?hs = "case client (adapter w) of
               None \<Rightarrow> []
             | Some c \<Rightarrow> (case eventHandlers c ''terminated'' of None \<Rightarrow> [] | Some hs \<Rightarrow> hs)"
  from py_cleanups_first [OF assms, of ?hs] Py_terminated
  show ?thesis by (simp add: py_terminated_event_def Let_def)
next
  case Py_exited
  from py_cleanups_first [OF assms, of "exitListeners (adapter w)"] Py_exited
  show ?thesis by (simp add: py_process_exit_def)
next
  case (Py_timeout n)
  with assms show ?thesis by (simp add: py_timer_def py_cleanup_def)
next
  case Py_closed
  with assms show ?thesis by (simp add: py_onclose_def)
qed

lemma python_run_fields:
  "stoppedCallbacks (adapter w) = SessionTracker # rest \<Longrightarrow>
   (stoppedThreadId (python_run stringify inputs w),
    stoppedReason (python_run stringify inputs w)) =
     latest python_stop inputs (stoppedThreadId w, stoppedReason w) \<and>
   (\<exists>rest'. stoppedCallbacks (adapter (python_run stringify inputs w)) = SessionTracker # rest')"
proof (induction inputs arbitrary: w rest)
  case Nil
  then show ?case by simp
next
  case (Cons i inputs)
  from python_turn_step [OF Cons.prems, of stringify i]
  obtain rest' where
    f: "(stoppedThreadId (python_turn stringify i w), stoppedReason (python_turn stringify i w)) =
           (case python_stop i of Some f \<Rightarrow> f
            | None \<Rightarrow> (stoppedThreadId w, stoppedReason w))"
    and c: "stoppedCallbacks (adapter (python_turn stringify i w)) = SessionTracker # rest'"
    by blast
  from Cons.IH [OF c] f show ?case by simp
qed

subsection \<open>Both adapters\<close>

text \<open>The example sessions, evaluated.\<close>

lemma entry_paused_session_eq:
  "entry_paused_session =
     \<lparr> sid = ''session-1'', adapter = connected_python, breakpoints = Map.empty,
       stoppedThreadId = Some 1, stoppedReason = Some ''entry'' \<rparr>"
  by (simp add: entry_paused_session_def py_stopped_event_def Let_def createSessionState_def
      connected_python_def py_call_listeners.simps [of _ _ 0]
      py_call_listeners.simps [of _ _ "Suc 0"] track_stopped_def)

lemma entry_paused_node_eq:
  "entry_paused_node =
     \<lparr> sid = ''session-1'', adapter = connected_node\<lparr> pausedReason := ''Break on start'' \<rparr>,
       breakpoints = Map.empty, stoppedThreadId = Some 1,
       stoppedReason = Some ''Break on start'' \<rparr>"
  by (simp add: entry_paused_node_def node_onPaused_def Let_def createSessionState_def
      connected_node_def node_call_listeners.simps [of _ 0]
      node_call_listeners.simps [of _ "Suc 0"] track_stopped_def)

text \<open>
  Claim C4, amended. For every session, on either adapter, \<^verbatim>\<open>stoppedThreadId\<close> and
  \<^verbatim>\<open>stoppedReason\<close> are null when the session is created and from then on hold, at every
  moment, the thread id and reason of the stopped event that the adapter delivered last
  (null while it has delivered none), through every sequence of the adapter's start,
  resume tool calls (continue, step over, step into, step out), pauses, terminated events,
  process exits, timeouts and closings of the transport; the manager's listener stays the
  first entry of \<^verbatim>\<open>stoppedCallbacks\<close> throughout. A resume attempt does not write the fields: from the
  attempt to the next stopped event they still hold the previous stop, whether the
  debuggee is running, paused or gone.
\<close>

theorem stopped_fields_follow_stopped_events:
  "stopped_fields (Some (node_session n)) = Some (None, None) \<and>
   node_stoppedCallbacks (adapter (node_session n)) = [SessionTracker] \<and>
   stopped_fields (Some (node_run inputs (node_session n))) =
     Some (latest node_stop inputs (None, None)) \<and>
   stopped_fields (Some (python_session n)) = Some (None, None) \<and>
   stoppedCallbacks (adapter (python_session n)) = [SessionTracker] \<and>
   stopped_fields (Some (python_run stringify events (python_session n))) =
     Some (latest python_stop events (None, None)) \<and>
   (\<forall>rest. node_stoppedCallbacks (adapter w) = SessionTracker # rest \<longrightarrow>
      stopped_fields (Some (node_run inputs w)) =
        Some (latest node_stop inputs (stoppedThreadId w, stoppedReason w)) \<and>
      (\<exists>rest'. node_stoppedCallbacks (adapter (node_run inputs w)) = SessionTracker # rest')) \<and>
   (\<forall>rest. stoppedCallbacks (adapter v) = SessionTracker # rest \<longrightarrow>
      stopped_fields (Some (python_run stringify events v)) =
        Some (latest python_stop events (stoppedThreadId v, stoppedReason v)) \<and>
      (\<exists>rest'. stoppedCallbacks (adapter (python_run stringify events v)) =
         SessionTracker # rest'))"
proof (intro conjI allI impI)
  show n0: "stopped_fields (Some (node_session n)) = Some (None, None)"
    by (simp add: stopped_fields_def node_session_def createSessionState_def)
  show n1: "node_stoppedCallbacks (adapter (node_session n)) = [SessionTracker]"
    by (simp add: node_session_def createSessionState_def node_onStopped_def new_NodeAdapter_def)
  show p0: "stopped_fields (Some (python_session n)) = Some (None, None)"
    by (simp add: stopped_fields_def python_session_def createSessionState_def)
  show p1: "stoppedCallbacks (adapter (python_session n)) = [SessionTracker]"
    by (simp add: python_session_def createSessionState_def py_onStopped_def
        new_PythonAdapter_def)
  from n0 have nf: "stoppedThreadId (node_session n) = None" "stoppedReason (node_session n) = None"
    by (simp_all add: stopped_fields_def)
  from p0 have pf: "stoppedThreadId (python_session n) = None"
    "stoppedReason (python_session n) = None"
    by (simp_all add: stopped_fields_def)
  from node_run_fields [OF n1, of inputs]
  show "stopped_fields (Some (node_run inputs (node_session n))) =
     Some (latest node_stop inputs (None, None))"
    by (simp add: stopped_fields_def nf)
  from python_run_fields [OF p1, of stringify events]
  show "stopped_fields (Some (python_run stringify events (python_session n))) =
     Some (latest python_stop events (None, None))"
    by (simp add: stopped_fields_def pf)
next
  fix rest assume a: "node_stoppedCallbacks (adapter w) = SessionTracker # rest"
  note r = node_run_fields [OF a, of inputs]
  from r show "stopped_fields (Some (node_run inputs w)) =
        Some (latest node_stop inputs (stoppedThreadId w, stoppedReason w))"
    by (simp add: stopped_fields_def)
  from r show "\<exists>rest'. node_stoppedCallbacks (adapter (node_run inputs w)) =
      SessionTracker # rest'"
    by (rule conjunct2)
next
  fix rest assume a: "stoppedCallbacks (adapter v) = SessionTracker # rest"
  note r = python_run_fields [OF a, of stringify events]
  from r show "stopped_fields (Some (python_run stringify events v)) =
        Some (latest python_stop events (stoppedThreadId v, stoppedReason v))"
    by (simp add: stopped_fields_def)
  from r show "\<exists>rest'. stoppedCallbacks (adapter (python_run stringify events v)) =
         SessionTracker # rest'"
    by (rule conjunct2)
qed

theorem stopped_fields_follow_stopped_events_witness:
  "stopped_fields (Some (node_session 1)) = Some (None, None) \<and>
   stopped_fields (Some (node_run
       [Node_started, Node_paused (Some ''Break on start''), Node_call Continue None]
       (node_session 1))) =
     Some (Some 1, Some ''Break on start'') \<and>
   stopped_fields (Some (node_run
       [Node_started, Node_paused (Some ''Break on start''), Node_call Continue None,
        Node_paused None, Node_call StepOver None, Node_exited]
       (node_session 1))) =
     Some (Some 1, Some ''breakpoint'') \<and>
   stopped_fields (Some (python_session 1)) = Some (None, None) \<and>
   stopped_fields (Some (python_run command_only
       [Py_started ''{}'', Py_stopped (Some 1) (Some ''entry'') None, Py_call Continue None,
        Py_stopped (Some 2) None None, Py_call StepOver (Some 2), Py_terminated]
       (python_session 1))) =
     Some (Some 2, Some ''breakpoint'') \<and>
   node_stoppedCallbacks (adapter entry_paused_node) = SessionTracker # [] \<and>
   stopped_fields (Some (node_run [Node_call StepOut None, Node_timeout 0, Node_closed]
       entry_paused_node)) =
     Some (Some 1, Some ''Break on start'') \<and>
   stoppedCallbacks (adapter entry_paused_session) = SessionTracker # [] \<and>
   stopped_fields (Some (python_run command_only
       [Py_call StepIn None, Py_closed, Py_stopped None (Some ''step'') None]
       entry_paused_session)) =
     Some (Some 1, Some ''step'')"
proof -
  let ?short = "[Node_started, Node_paused (Some ''Break on start''), Node_call Continue None]"
  let ?long = "[Node_started, Node_paused (Some ''Break on start''), Node_call Continue None,
        Node_paused None, Node_call StepOver None, Node_exited]"
  let ?events = "[Py_started ''{}'', Py_stopped (Some 1) (Some ''entry'') None,
        Py_call Continue None, Py_stopped (Some 2) None None, Py_call StepOver (Some 2),
        Py_terminated]"
  let ?more = "[Node_call StepOut None, Node_timeout 0, Node_closed]"
  let ?pmore = "[Py_call StepIn None, Py_closed, Py_stopped None (Some ''step'') None]"
  note t = stopped_fields_follow_stopped_events
    [of 1 ?short command_only ?events entry_paused_node entry_paused_session]
  note u = stopped_fields_follow_stopped_events
    [of 1 ?long command_only ?pmore entry_paused_node entry_paused_session]
  note x = stopped_fields_follow_stopped_events
    [of 1 ?more command_only ?pmore entry_paused_node entry_paused_session]
  from t have c1: "stopped_fields (Some (node_session 1)) = Some (None, None)"
    and c2: "stopped_fields (Some (python_session 1)) = Some (None, None)"
    by blast+
  from t have "stopped_fields (Some (node_run ?short (node_session 1))) =
      Some (latest node_stop ?short (None, None))"
    by blast
  then have s1: "stopped_fields (Some (node_run ?short (node_session 1))) =
      Some (Some 1, Some ''Break on start'')"
    by simp
  from u have "stopped_fields (Some (node_run ?long (node_session 1))) =
      Some (latest node_stop ?long (None, None))"
    by blast
  then have s2: "stopped_fields (Some (node_run ?long (node_session 1))) =
      Some (Some 1, Some ''breakpoint'')"
    by simp
  from t have "stopped_fields (Some (python_run command_only ?events (python_session 1))) =
      Some (latest python_stop ?events (None, None))"
    by blast
  then have s3: "stopped_fields (Some (python_run command_only ?events (python_session 1))) =
      Some (Some 2, Some ''breakpoint'')"
    by simp
  have nb: "node_stoppedCallbacks (adapter entry_paused_node) = SessionTracker # []"
    by (simp add: entry_paused_node_eq connected_node_def)
  have pb: "stoppedCallbacks (adapter entry_paused_session) = SessionTracker # []"
    by (simp add: entry_paused_session_eq connected_python_def)
  have fw: "stoppedThreadId entry_paused_node = Some 1"
    "stoppedReason entry_paused_node = Some ''Break on start''"
    by (simp_all add: entry_paused_node_eq)
  have fv: "stoppedThreadId entry_paused_session = Some 1"
    "stoppedReason entry_paused_session = Some ''entry''"
    by (simp_all add: entry_paused_session_eq)
  from x nb have "stopped_fields (Some (node_run ?more entry_paused_node)) =
        Some (latest node_stop ?more
                (stoppedThreadId entry_paused_node, stoppedReason entry_paused_node))"
    by blast
  then have s4: "stopped_fields (Some (node_run ?more entry_paused_node)) =
      Some (Some 1, Some ''Break on start'')"
    by (simp only: fw) simp
  from x pb have "stopped_fields (Some (python_run command_only ?pmore entry_paused_session)) =
        Some (latest python_stop ?pmore
                (stoppedThreadId entry_paused_session, stoppedReason entry_paused_session))"
    by blast
  then have s5: "stopped_fields (Some (python_run command_only ?pmore entry_paused_session)) =
      Some (Some 1, Some ''step'')"
    by (simp only: fv) simp
  from c1 s1 s2 c2 s3 nb s4 pb s5 show ?thesis by blast
qed

text \<open>
  Claim C4 as stated fails: no code writes null into the two fields after creation. On
  the python session paused at its entry point, \<^verbatim>\<open>continue_execution\<close> registers the
  listener and writes the continue request, and both fields still hold the entry pause
  while the debuggee runs; they still do after the debuggee has exited and the promise of
  the continue operation has been resolved with the terminated result.
\<close>

theorem resume_keeps_stopped_fields_counterexample:
  "stopped_fields (Some entry_paused_session) = Some (Some 1, Some ''entry'') \<and>
   fst (continue_execution (py_continue command_only) (Some entry_paused_session) None) = Inr 0 \<and>
   observed (adapter (python_run command_only [Py_call Continue None] entry_paused_session)) =
     [Registered (PauseListener 0), Sent 4 ''continue''] \<and>
   stopped_fields (Some (python_run command_only [Py_call Continue None] entry_paused_session)) =
     Some (Some 1, Some ''entry'') \<and>
   ended (adapter (python_run command_only [Py_call Continue None, Py_exited]
     entry_paused_session)) = [0] \<and>
   stopped_fields (Some (python_run command_only [Py_call Continue None, Py_exited]
     entry_paused_session)) = Some (Some 1, Some ''entry'')"
proof -
  have c: "client connected_python =
      Some (new_DapClient\<lparr> seq := 4, eventHandlers := [''stopped'' \<mapsto> [0]], connected := True \<rparr>)"
    by (simp add: connected_python_def)
  note r = py_resume_connected [OF c, of Continue command_only None]
  obtain a' where run: "py_continue command_only connected_python None = (Inr 0, a')"
    and obs: "observed a' = [Registered (PauseListener 0), Sent 4 ''continue'']"
    and ex: "exitListeners a' = [0]" and en: "ended a' = []"
    using r by (simp add: connected_python_def new_DapClient_def)
  have ad: "adapter entry_paused_session = connected_python"
    by (simp add: entry_paused_session_eq)
  have tool: "continue_execution (py_continue command_only) (Some entry_paused_session) None =
      (Inr 0, Some (entry_paused_session\<lparr> adapter := a' \<rparr>))"
    by (simp add: continue_execution_def requireActive_def ad run)
  have one: "python_run command_only [Py_call Continue None] entry_paused_session =
      entry_paused_session\<lparr> adapter := a' \<rparr>"
    by (simp add: tool)
  have two: "python_run command_only [Py_call Continue None, Py_exited] entry_paused_session =
      py_process_exit (entry_paused_session\<lparr> adapter := a' \<rparr>)"
    by (simp add: tool)
  have f: "stopped_fields (Some entry_paused_session) = Some (Some 1, Some ''entry'')"
    by (simp add: stopped_fields_def entry_paused_session_eq)
  have g: "stopped_fields (Some (entry_paused_session\<lparr> adapter := a' \<rparr>)) =
      Some (Some 1, Some ''entry'')"
    by (simp add: stopped_fields_def entry_paused_session_eq)
  have h: "stopped_fields (Some (py_process_exit (entry_paused_session\<lparr> adapter := a' \<rparr>))) =
      Some (Some 1, Some ''entry'')"
    by (simp add: stopped_fields_def py_process_exit_def entry_paused_session_eq)
  have e: "ended (adapter (py_process_exit (entry_paused_session\<lparr> adapter := a' \<rparr>))) = [0]"
    by (simp add: py_process_exit_def ex en)
  show ?thesis
    by (simp only: tool fst_conv one two f g h e obs simp_thms)
      (simp add: obs)
qed

text \<open>The same on the node session paused at its entry point.\<close>

lemma node_resume_keeps_stopped_fields:
  "stopped_fields (Some entry_paused_node) = Some (Some 1, Some ''Break on start'') \<and>
   node_observed (adapter (node_run [Node_call Continue None] entry_paused_node)) =
     [Registered (PauseListener 0), Sent 1 Debugger_resume] \<and>
   stopped_fields (Some (node_run [Node_call Continue None] entry_paused_node)) =
     Some (Some 1, Some ''Break on start'') \<and>
   node_ended (adapter (node_run [Node_call Continue None, Node_exited] entry_paused_node)) =
     [0] \<and>
   stopped_fields (Some (node_run [Node_call Continue None, Node_exited] entry_paused_node)) =
     Some (Some 1, Some ''Break on start'')"
proof -
  have w: "ws (adapter entry_paused_node)"
    by (simp add: entry_paused_node_eq connected_node_def)
  note r = node_resume_connected [OF w, of Continue None]
  obtain a' where run: "node_continue (adapter entry_paused_node) None = (Inr 0, a')"
    and obs: "node_observed a' = [Registered (PauseListener 0), Sent 1 Debugger_resume]"
    and ex: "node_exitListeners a' = [0]" and en: "node_ended a' = []"
    using r by (simp add: entry_paused_node_eq connected_node_def)
  have tool: "continue_execution node_continue (Some entry_paused_node) None =
      (Inr 0, Some (entry_paused_node\<lparr> adapter := a' \<rparr>))"
    by (simp add: continue_execution_def requireActive_def run)
  have one: "node_run [Node_call Continue None] entry_paused_node =
      entry_paused_node\<lparr> adapter := a' \<rparr>"
    by (simp add: tool)
  have two: "node_run [Node_call Continue None, Node_exited] entry_paused_node =
      node_process_exit (entry_paused_node\<lparr> adapter := a' \<rparr>)"
    by (simp add: tool)
  have f: "stopped_fields (Some entry_paused_node) = Some (Some 1, Some ''Break on start'')"
    by (simp add: stopped_fields_def entry_paused_node_eq)
  have g: "stopped_fields (Some (entry_paused_node\<lparr> adapter := a' \<rparr>)) =
      Some (Some 1, Some ''Break on start'')"
    by (simp add: stopped_fields_def entry_paused_node_eq)
  have h: "stopped_fields (Some (node_process_exit (entry_paused_node\<lparr> adapter := a' \<rparr>))) =
      Some (Some 1, Some ''Break on start'')"
    by (simp add: stopped_fields_def node_process_exit_def entry_paused_node_eq)
  have e: "node_ended (adapter (node_process_exit (entry_paused_node\<lparr> adapter := a' \<rparr>))) =
      [0]"
    by (simp add: node_process_exit_def ex en)
  show ?thesis
    by (simp only: one two f g h e simp_thms) (simp add: obs)
qed

end
